(* ===== verification/Net_Prelude.thy ===== *)
theory Net_Prelude
  imports Main "HOL-Library.Word" "HOL-Library.AList"
begin

section \<open>Shared types, automation and lemmas\<close>

text \<open>
  This theory holds what every component of the development shares:
  \<^item> the machine integers of the Rust code (\<open>u8\<close>, \<open>u16\<close>, \<open>u32\<close>, \<open>u64\<close>) and raw
    pointers; lengths (\<open>usize\<close>) are natural numbers, with the wrap-around or the cast
    written out wherever the code depends on it;
  \<^item> Rust's \<open>Result\<close>, and \<open>outcome\<close>, the result of a call that may panic;
  \<^item> byte-slice writes (\<open>copy_from_slice\<close> into a range), raw slices of the process
    memory (\<open>slice::from_raw_parts\<close>) and the pushes of a bounded vector;
  \<^item> the collections of simplification rules the component theories add to.
\<close>

named_theorems slice_simps "reads and writes of byte slices and raw memory"
named_theorems batch_simps "bounded packet batches"
named_theorems setter_defs "builder methods that set one field"

type_synonym u8 = "8 word"
type_synonym u16 = "16 word"
type_synonym u32 = "32 word"
type_synonym u64 = "64 word"
type_synonym usize = nat
type_synonym ptr = nat
type_synonym bytes = "u8 list"
type_synonym memory = "ptr \<Rightarrow> u8"

abbreviation (input) null_ptr :: ptr where
  "null_ptr \<equiv> 0"

abbreviation (input) u16_max :: nat where
  "u16_max \<equiv> 65535"

text \<open>Rust's \<open>Result\<close>, and the result of a call: it returns a value or it panics.\<close>

datatype ('a, 'e) Result = Ok 'a | Err 'e

datatype 'a outcome = Panic string | Ret 'a

text \<open>The result of polling a future.\<close>

datatype 'a poll = Ready 'a | Pending

primrec bind_outcome :: "'a outcome \<Rightarrow> ('a \<Rightarrow> 'b outcome) \<Rightarrow> 'b outcome" where
  "bind_outcome (Panic msg) f = Panic msg"
| "bind_outcome (Ret a) f = f a"

primrec panics :: "'a outcome \<Rightarrow> bool" where
  "panics (Panic msg) = True"
| "panics (Ret a) = False"

primrec is_ok :: "('a, 'e) Result \<Rightarrow> bool" where
  "is_ok (Ok a) = True"
| "is_ok (Err e) = False"

lemma not_panics_conv [simp]: "\<not> panics r \<longleftrightarrow> (\<exists>a. r = Ret a)"
  by (cases r) auto

lemma bind_outcome_Ret_conv [simp]:
  "bind_outcome r f = Ret b \<longleftrightarrow> (\<exists>a. r = Ret a \<and> f a = Ret b)"
  by (cases r) auto

lemma panics_bind [simp]:
  "panics (bind_outcome r f) \<longleftrightarrow> panics r \<or> (\<exists>a. r = Ret a \<and> panics (f a))"
  by (cases r) auto

subsection \<open>Slices\<close>

text \<open>
  \<open>write_at i ys xs\<close> is the buffer after \<open>xs[i..i + ys.len()].copy_from_slice(ys)\<close>,
  for a range inside the buffer.
\<close>

definition write_at :: "nat \<Rightarrow> 'a list \<Rightarrow> 'a list \<Rightarrow> 'a list" where
  "write_at i ys xs = take i xs @ ys @ drop (i + length ys) xs"

lemma length_write_at [simp, slice_simps]:
  "i + length ys \<le> length xs \<Longrightarrow> length (write_at i ys xs) = length xs"
  by (simp add: write_at_def)

lemma nth_write_at [slice_simps]:
  assumes "i + length ys \<le> length xs" and "k < length xs"
  shows "write_at i ys xs ! k =
    (if i \<le> k \<and> k < i + length ys then ys ! (k - i) else xs ! k)"
proof -
  have "length (take i xs) = i"
    using assms by simp
  then show ?thesis
    using assms by (auto simp: write_at_def nth_append not_less)
qed

lemma take_write_at_over [slice_simps]:
  "i + length ys = n \<Longrightarrow> n \<le> length xs \<Longrightarrow> take n (write_at i ys xs) = take i xs @ ys"
  by (simp add: write_at_def)

text \<open>Evaluation of writes into an explicit list, one element at a time.\<close>

lemma write_at_Nil [simp, slice_simps]: "write_at i [] xs = xs"
  by (simp add: write_at_def)

lemma write_at_0_Cons [simp, slice_simps]: "write_at 0 (y # ys) (x # xs) = y # write_at 0 ys xs"
  by (simp add: write_at_def)

lemma write_at_numeral_Cons [simp, slice_simps]:
  "write_at (numeral k) ys (x # xs) = x # write_at (pred_numeral k) ys xs"
  by (simp add: write_at_def numeral_eq_Suc)

lemma write_at_Suc_Cons [simp, slice_simps]: "write_at (Suc i) ys (x # xs) = x # write_at i ys xs"
  by (simp add: write_at_def)

lemma list_update_numeral_Cons [simp, slice_simps]:
  "(x # xs)[numeral k := v] = x # xs[pred_numeral k := v]"
  by (simp add: numeral_eq_Suc)

lemma replicate_numeral_Cons [slice_simps]:
  "replicate (numeral k) x = x # replicate (pred_numeral k) x"
  by (simp add: numeral_eq_Suc)

subsection \<open>Raw memory\<close>

definition from_raw_parts :: "memory \<Rightarrow> ptr \<Rightarrow> nat \<Rightarrow> bytes" where
  "from_raw_parts m p len = map m [p..<p + len]"

definition write_raw :: "memory \<Rightarrow> ptr \<Rightarrow> bytes \<Rightarrow> memory" where
  "write_raw m p bs = (\<lambda>a. if p \<le> a \<and> a < p + length bs then bs ! (a - p) else m a)"

lemma length_from_raw_parts [simp, slice_simps]: "length (from_raw_parts m p len) = len"
  by (simp add: from_raw_parts_def)

lemma from_raw_parts_0 [simp, slice_simps]: "from_raw_parts m p 0 = []"
  by (simp add: from_raw_parts_def)

lemma from_raw_parts_write_same [simp, slice_simps]:
  "length bs = len \<Longrightarrow> from_raw_parts (write_raw m p bs) p len = bs"
  by (rule nth_equalityI) (simp_all add: from_raw_parts_def write_raw_def)

lemma from_raw_parts_write_other [slice_simps]:
  assumes "q + len \<le> p \<or> p + length bs \<le> q"
  shows "from_raw_parts (write_raw m p bs) q len = from_raw_parts m q len"
  using assms by (auto simp: from_raw_parts_def write_raw_def)

lemma from_raw_parts_append:
  "from_raw_parts m p (j + k) = from_raw_parts m p j @ from_raw_parts m (p + j) k"
  using upt_add_eq_append [of p "p + j" k] by (simp add: from_raw_parts_def add.assoc)

lemma from_raw_parts_cong:
  "(\<And>a. p \<le> a \<Longrightarrow> a < p + len \<Longrightarrow> m a = m' a) \<Longrightarrow> from_raw_parts m p len = from_raw_parts m' p len"
  by (simp add: from_raw_parts_def)

subsection \<open>Machine integers\<close>

lemma unat_of_nat_u16 [simp]: "n \<le> u16_max \<Longrightarrow> unat (of_nat n :: u16) = n"
  by (simp add: unat_of_nat)

lemma unat_of_nat_u16_mod: "unat (of_nat n :: u16) = n mod 65536"
  by (simp add: unat_of_nat)

lemma unat_u16_less [simp]: "unat (x :: u16) < 65536"
  by (rule order_less_le_trans [OF unsigned_less]) simp

lemma unat_u8_less [simp]: "unat (x :: u8) < 256"
  by (rule order_less_le_trans [OF unsigned_less]) simp

lemma unat_u16_le [simp]: "unat (x :: u16) \<le> u16_max"
  using unat_u16_less [of x] by linarith

subsection \<open>Text\<close>

text \<open>
  Rust strings are byte strings, written here as lists of characters. \<open>show_nat\<close> is the
  decimal \<open>to_string\<close> of an unsigned integer, \<open>show_hex2\<close> the format \<open>{:02x}\<close> of a byte.
\<close>

definition digit_char :: "nat \<Rightarrow> char" where
  "digit_char n = char_of (48 + n)"

fun show_nat :: "nat \<Rightarrow> string" where
  "show_nat n = (if n < 10 then [digit_char n] else show_nat (n div 10) @ [digit_char (n mod 10)])"

declare show_nat.simps [simp del]

definition hex_char :: "nat \<Rightarrow> char" where
  "hex_char n = (if n < 10 then char_of (48 + n) else char_of (87 + n))"

definition show_hex2 :: "u8 \<Rightarrow> string" where
  "show_hex2 b = [hex_char (unat b div 16), hex_char (unat b mod 16)]"

definition ascii :: "string \<Rightarrow> bytes" where
  "ascii s = map of_char s"

end
