(* ===== verification/Arp_Cache.thy ===== *)
theory Arp_Cache
  imports Net_Prelude
begin

section \<open>The shared ARP cache\<close>

text \<open>
  A model of \<^verbatim>\<open>dpdk-net/src/device/arp_cache.rs\<close>: the cache that queue 0 writes and every
  other queue reads, the parser that recognises an ARP reply in an Ethernet frame, and the
  builder of the ARP reply that a queue injects into its own receive path.

  The Rust \<open>HashMap\<close> is an association list with one entry per address; the order in which
  a \<open>HashMap\<close> is iterated is not specified by its documentation, so the definitions that
  iterate take the order as a parameter. The version counter is an \<open>AtomicUsize\<close>, which
  wraps, and is kept at its 64 bits.
\<close>

subsection \<open>Addresses\<close>

datatype MacAddress = Mac u8 u8 u8 u8 u8 u8

datatype Ipv4Addr = Ipv4 u8 u8 u8 u8

primrec mac_bytes :: "MacAddress \<Rightarrow> bytes" where
  "mac_bytes (Mac a b c d e f) = [a, b, c, d, e, f]"

primrec octets :: "Ipv4Addr \<Rightarrow> bytes" where
  "octets (Ipv4 a b c d) = [a, b, c, d]"

lemma length_mac_bytes [simp]: "length (mac_bytes m) = 6"
  by (cases m) simp

lemma length_octets [simp]: "length (octets ip) = 4"
  by (cases ip) simp

lemma mac_bytes_inject [simp]: "mac_bytes m = mac_bytes n \<longleftrightarrow> m = n"
  by (cases m; cases n) simp

lemma octets_inject [simp]: "octets a = octets b \<longleftrightarrow> a = b"
  by (cases a; cases b) simp

text \<open>\<open>Ipv4Addr\<close> is ordered as its octets are: as the number they write in base 256.\<close>

primrec ip_value :: "Ipv4Addr \<Rightarrow> nat" where
  "ip_value (Ipv4 a b c d) = ((unat a * 256 + unat b) * 256 + unat c) * 256 + unat d"

lemma horner256_inject:
  assumes "b < 256" and "d < (256 :: nat)"
  shows "x * 256 + b = y * 256 + d \<longleftrightarrow> x = y \<and> b = d"
proof -
  have "(x * 256 + b) div 256 = x" and "(y * 256 + d) div 256 = y"
    using assms by simp_all
  then show ?thesis by (metis add_left_cancel)
qed

lemma base256_inject:
  "x * 256 + unat (b :: u8) = y * 256 + unat d \<longleftrightarrow> x = y \<and> b = d"
  by (simp only: horner256_inject unat_u8_less word_unat_eq_iff)

lemma ip_value_inject [simp]: "ip_value a = ip_value b \<longleftrightarrow> a = b"
  by (cases a; cases b) (simp only: ip_value.simps base256_inject word_unat_eq_iff Ipv4Addr.inject conj_assoc)

instantiation Ipv4Addr :: linorder
begin

definition less_eq_Ipv4Addr :: "Ipv4Addr \<Rightarrow> Ipv4Addr \<Rightarrow> bool" where
  "less_eq_Ipv4Addr a b \<longleftrightarrow> ip_value a \<le> ip_value b"

definition less_Ipv4Addr :: "Ipv4Addr \<Rightarrow> Ipv4Addr \<Rightarrow> bool" where
  "less_Ipv4Addr a b \<longleftrightarrow> ip_value a < ip_value b"

instance
  by standard (auto simp: less_eq_Ipv4Addr_def less_Ipv4Addr_def)

end

subsection \<open>The cache\<close>

type_synonym arp_map = "(Ipv4Addr \<times> MacAddress) list"

record SharedArpCache =
  cache_inner :: arp_map
  cache_version :: u64

definition arp_cache_new :: SharedArpCache where
  "arp_cache_new = \<lparr>cache_inner = [], cache_version = 0\<rparr>"

definition arp_cache_get :: "SharedArpCache \<Rightarrow> Ipv4Addr \<Rightarrow> MacAddress option" where
  "arp_cache_get c ip = map_of (cache_inner c) ip"

definition arp_cache_insert :: "SharedArpCache \<Rightarrow> Ipv4Addr \<Rightarrow> MacAddress \<Rightarrow> SharedArpCache" where
  "arp_cache_insert c ip mac =
     (if map_of (cache_inner c) ip = Some mac
      then c\<lparr>cache_version := cache_version c + 1\<rparr>
      else let new_map = AList.update ip mac (cache_inner c)
           in c\<lparr>cache_inner := new_map, cache_version := cache_version c + 1\<rparr>)"

definition arp_cache_contains :: "SharedArpCache \<Rightarrow> Ipv4Addr \<Rightarrow> bool" where
  "arp_cache_contains c ip \<longleftrightarrow> map_of (cache_inner c) ip \<noteq> None"

definition arp_cache_is_empty :: "SharedArpCache \<Rightarrow> bool" where
  "arp_cache_is_empty c \<longleftrightarrow> cache_inner c = []"

definition arp_cache_snapshot :: "SharedArpCache \<Rightarrow> arp_map" where
  "arp_cache_snapshot c = cache_inner c"

text \<open>Each address has one entry: what makes the association list a \<open>HashMap\<close>.\<close>

definition arp_cache_wf :: "SharedArpCache \<Rightarrow> bool" where
  "arp_cache_wf c \<longleftrightarrow> distinct (map fst (cache_inner c))"

lemma arp_cache_wf_new [simp]: "arp_cache_wf arp_cache_new"
  by (simp add: arp_cache_wf_def arp_cache_new_def)

lemma arp_cache_wf_insert [simp]: "arp_cache_wf c \<Longrightarrow> arp_cache_wf (arp_cache_insert c ip mac)"
  by (simp add: arp_cache_wf_def arp_cache_insert_def Let_def distinct_update)

lemma arp_cache_get_insert [simp]:
  "arp_cache_get (arp_cache_insert c ip mac) a = (if a = ip then Some mac else arp_cache_get c a)"
  by (simp add: arp_cache_get_def arp_cache_insert_def Let_def update_conv')

lemma arp_cache_version_insert [simp]:
  "cache_version (arp_cache_insert c ip mac) = cache_version c + 1"
  by (simp add: arp_cache_insert_def Let_def)

lemma arp_cache_snapshot_get:
  "arp_cache_wf c \<Longrightarrow> (ip, mac) \<in> set (arp_cache_snapshot c) \<longleftrightarrow> arp_cache_get c ip = Some mac"
  by (simp add: arp_cache_wf_def arp_cache_snapshot_def arp_cache_get_def)

subsection \<open>The contract the devices rely on\<close>

text \<open>
  What a consumer of the cache relies on: a lookup sees the last insertion of its key, a
  snapshot lists what the lookups see, and every insertion, an unchanged one too, moves the
  version. \<open>runs\<close> of insertions are written as a fold over the list of inserted pairs.
\<close>

locale versioned_store =
  fixes create :: "'s"
    and get :: "'s \<Rightarrow> 'k \<Rightarrow> 'v option"
    and insert :: "'s \<Rightarrow> 'k \<Rightarrow> 'v \<Rightarrow> 's"
    and version :: "'s \<Rightarrow> u64"
    and snapshot :: "'s \<Rightarrow> ('k \<times> 'v) list"
    and invar :: "'s \<Rightarrow> bool"
  assumes get_create: "get create k = None"
    and version_create: "version create = 0"
    and invar_create: "invar create"
    and get_insert: "get (insert s k v) k' = (if k' = k then Some v else get s k')"
    and version_insert: "version (insert s k v) = version s + 1"
    and invar_insert: "invar s \<Longrightarrow> invar (insert s k v)"
    and snapshot_get: "invar s \<Longrightarrow> (k, v) \<in> set (snapshot s) \<longleftrightarrow> get s k = Some v"
begin

lemma invar_inserts: "invar s \<Longrightarrow> invar (fold (\<lambda>(k, v) s. insert s k v) ps s)"
  by (induction ps arbitrary: s) (auto simp: invar_insert)

lemma get_inserts: "get (fold (\<lambda>(k, v) s. insert s k v) ps s) = get s ++ map_of (rev ps)"
proof (induction ps arbitrary: s)
  case Nil
  show ?case by simp
next
  case (Cons p ps)
  obtain k v where p: "p = (k, v)" by fastforce
  have "get (insert s k v) = (get s)(k \<mapsto> v)"
    by (rule ext) (simp add: get_insert)
  with Cons p show ?case by (simp add: map_add_upd_left map_add_def fun_eq_iff split: option.splits)
qed

lemma version_inserts:
  "version (fold (\<lambda>(k, v) s. insert s k v) ps s) = version s + of_nat (length ps)"
  by (induction ps arbitrary: s) (auto simp: version_insert algebra_simps)

lemma version_detects:
  assumes "length ps < 2 ^ 64" and "version (fold (\<lambda>(k, v) s. insert s k v) ps s) = version s"
  shows "ps = []"
proof -
  have "(of_nat (length ps) :: u64) = 0"
    using assms(2) by (simp add: version_inserts)
  then have "unat (of_nat (length ps) :: u64) = 0" by simp
  then show ?thesis using assms(1) by (simp add: unat_of_nat)
qed

lemma snapshot_inserts:
  assumes "invar s"
  shows "(k, v) \<in> set (snapshot (fold (\<lambda>(k, v) s. insert s k v) ps s)) \<longleftrightarrow>
    (get s ++ map_of (rev ps)) k = Some v"
  using assms by (simp add: snapshot_get invar_inserts get_inserts)

end

interpretation arp_store: versioned_store arp_cache_new arp_cache_get arp_cache_insert
  cache_version arp_cache_snapshot arp_cache_wf
  by unfold_locales
    (auto simp: arp_cache_snapshot_get, auto simp: arp_cache_new_def arp_cache_get_def)

subsection \<open>Frames\<close>

definition parse_arp_reply :: "bytes \<Rightarrow> (Ipv4Addr \<times> MacAddress) option" where
  "parse_arp_reply packet =
     (if length packet < 42 then None
      else if packet ! 12 \<noteq> 0x08 \<or> packet ! 13 \<noteq> 0x06 then None
      else if packet ! 20 \<noteq> 0x00 \<or> packet ! 21 \<noteq> 0x02 then None
      else
        let sender_mac = Mac (packet ! 22) (packet ! 23) (packet ! 24)
                             (packet ! 25) (packet ! 26) (packet ! 27);
            sender_ip = Ipv4 (packet ! 28) (packet ! 29) (packet ! 30) (packet ! 31)
        in Some (sender_ip, sender_mac))"

definition build_arp_reply_for_injection ::
  "MacAddress \<Rightarrow> Ipv4Addr \<Rightarrow> MacAddress \<Rightarrow> Ipv4Addr \<Rightarrow> bytes" where
  "build_arp_reply_for_injection our_mac our_ip peer_mac peer_ip =
     (let packet = replicate 42 0;
          packet = write_at 0 (mac_bytes our_mac) packet;
          packet = write_at 6 (mac_bytes peer_mac) packet;
          packet = write_at 12 [0x08, 0x06] packet;
          packet = write_at 14 [0x00, 0x01] packet;
          packet = write_at 16 [0x08, 0x00] packet;
          packet = packet[18 := 6];
          packet = packet[19 := 4];
          packet = write_at 20 [0x00, 0x02] packet;
          packet = write_at 22 (mac_bytes peer_mac) packet;
          packet = write_at 28 (octets peer_ip) packet;
          packet = write_at 32 (mac_bytes our_mac) packet;
          packet = write_at 38 (octets our_ip) packet
      in packet)"

text \<open>The same frame as the concatenation of its fields.\<close>

lemma build_arp_reply_fields:
  "build_arp_reply_for_injection our_mac our_ip peer_mac peer_ip =
     mac_bytes our_mac @ mac_bytes peer_mac @ [0x08, 0x06] @
     [0x00, 0x01] @ [0x08, 0x00] @ [6, 4] @ [0x00, 0x02] @
     mac_bytes peer_mac @ octets peer_ip @ mac_bytes our_mac @ octets our_ip"
  by (cases our_mac; cases our_ip; cases peer_mac; cases peer_ip)
    (simp add: build_arp_reply_for_injection_def replicate_numeral_Cons)

lemma length_build_arp_reply [simp]:
  "length (build_arp_reply_for_injection our_mac our_ip peer_mac peer_ip) = 42"
  by (simp add: build_arp_reply_fields)

lemma parse_arp_reply_layout:
  assumes "length dst = 12" and "length hdr = 6" and "10 \<le> length rest"
  shows "parse_arp_reply (dst @ [0x08, 0x06] @ hdr @ [0x00, 0x02] @ mac_bytes mac @ octets ip @ rest)
    = Some (ip, mac)"
  using assms
  by (cases mac; cases ip) (simp add: parse_arp_reply_def nth_append)

lemma parse_arp_reply_split:
  assumes "parse_arp_reply packet = Some (ip, mac)"
  shows "packet = take 12 packet @ [0x08, 0x06] @ take 6 (drop 14 packet) @ [0x00, 0x02] @
           mac_bytes mac @ octets ip @ drop 32 packet"
    and "42 \<le> length packet"
proof -
  have len: "42 \<le> length packet" and
    type: "packet ! 12 = 0x08" "packet ! 13 = 0x06" and op: "packet ! 20 = 0x00" "packet ! 21 = 0x02"
    and mac: "mac = Mac (packet ! 22) (packet ! 23) (packet ! 24) (packet ! 25) (packet ! 26) (packet ! 27)"
    and ip: "ip = Ipv4 (packet ! 28) (packet ! 29) (packet ! 30) (packet ! 31)"
    using assms by (auto simp: parse_arp_reply_def Let_def split: if_splits)
  have step: "drop n packet = packet ! n # drop (Suc n) packet" if "n < 42" for n
    using that len by (simp add: Cons_nth_drop_Suc)
  have "drop 12 packet = [0x08, 0x06] @ drop 14 packet"
    using step [of 12] step [of 13] type by simp
  moreover have "drop 14 packet = take 6 (drop 14 packet) @ drop 20 packet"
    using append_take_drop_id [of 6 "drop 14 packet", symmetric] by (simp only: drop_drop) simp
  moreover have "drop 20 packet = [0x00, 0x02] @ drop 22 packet"
    using step [of 20] step [of 21] op by simp
  moreover have "drop 22 packet = mac_bytes mac @ drop 28 packet"
    using step [of 22] step [of 23] step [of 24] step [of 25] step [of 26] step [of 27] mac by simp
  moreover have "drop 28 packet = octets ip @ drop 32 packet"
    using step [of 28] step [of 29] step [of 30] step [of 31] ip by simp
  ultimately show "packet = take 12 packet @ [0x08, 0x06] @ take 6 (drop 14 packet) @ [0x00, 0x02] @
           mac_bytes mac @ octets ip @ drop 32 packet"
    by (metis append_take_drop_id append.assoc)
  show "42 \<le> length packet" by (fact len)
qed

lemma parse_arp_reply_build:
  "parse_arp_reply (build_arp_reply_for_injection our_mac our_ip peer_mac peer_ip) = Some (peer_ip, peer_mac)"
proof -
  have "parse_arp_reply ((mac_bytes our_mac @ mac_bytes peer_mac) @ [0x08, 0x06] @
      [0x00, 0x01, 0x08, 0x00, 6, 4] @ [0x00, 0x02] @ mac_bytes peer_mac @ octets peer_ip @
      (mac_bytes our_mac @ octets our_ip)) = Some (peer_ip, peer_mac)"
    by (rule parse_arp_reply_layout) simp_all
  then show ?thesis by (simp add: build_arp_reply_fields)
qed

subsection \<open>Properties\<close>

text \<open>
  (C35) The frame a queue injects is read back by the parser of received frames as exactly the
  peer's address pair, whatever the interface's own addresses, and fills the 42 bytes of an
  Ethernet and an ARP header.
\<close>

theorem arp_injection_roundtrip:
  "parse_arp_reply (build_arp_reply_for_injection our_mac our_ip peer_mac peer_ip) = Some (peer_ip, peer_mac) \<and>
   length (build_arp_reply_for_injection our_mac our_ip peer_mac peer_ip) = 42"
  by (simp add: parse_arp_reply_build)

text \<open>
  (C39) The parser accepts exactly the frames of the ARP-reply layout: twelve bytes of Ethernet
  addresses, EtherType 0x0806, six bytes of ARP header, operation 2, the sender's hardware and
  protocol addresses, and at least the ten bytes of the target's. Everything else is rejected,
  and the pair returned is the sender's.
\<close>

theorem parse_arp_reply_grammar:
  "parse_arp_reply packet = Some (ip, mac) \<longleftrightarrow>
     (\<exists>eth hdr target. length eth = 12 \<and> length hdr = 6 \<and> 10 \<le> length target \<and>
        packet = eth @ [0x08, 0x06] @ hdr @ [0x00, 0x02] @ mac_bytes mac @ octets ip @ target)"
  (is "?L \<longleftrightarrow> ?R")
proof
  assume L: ?L
  from parse_arp_reply_split [OF L] show ?R
    by (intro exI [of _ "take 12 packet"] exI [of _ "take 6 (drop 14 packet)"] exI [of _ "drop 32 packet"])
      auto
next
  assume ?R
  then show ?L using parse_arp_reply_layout by blast
qed

text \<open>
 After any run of insertions into a new cache, a lookup returns the last address inserted
  under its key, a snapshot lists exactly what the lookups return, one entry per key, and the
  version counts the insertions modulo the width of the counter.
\<close>

theorem arp_cache_run:
  fixes ps
  defines "c \<equiv> fold (\<lambda>(ip, mac) c. arp_cache_insert c ip mac) ps arp_cache_new"
  shows "arp_cache_get c = map_of (rev ps)
    \<and> set (arp_cache_snapshot c) = {(ip, mac). map_of (rev ps) ip = Some mac}
    \<and> distinct (map fst (arp_cache_snapshot c))
    \<and> cache_version c = of_nat (length ps)"
proof -
  have get: "arp_cache_get c = map_of (rev ps)"
    using arp_store.get_inserts [of ps arp_cache_new]
    by (simp add: c_def arp_store.get_create map_add_def fun_eq_iff split: option.splits)
  have wf: "arp_cache_wf c"
    unfolding c_def by (rule arp_store.invar_inserts) simp
  show ?thesis
    using get wf arp_store.version_inserts [of ps arp_cache_new]
      arp_cache_snapshot_get [OF wf]
    by (auto simp: c_def arp_store.version_create arp_cache_wf_def arp_cache_snapshot_def)
qed

text \<open>
  A consumer that compares versions misses no change: as long as fewer than 2^64 insertions
  happen between two readings, equal versions mean that none happened, so that no lookup
  changed.
\<close>

theorem arp_version_detects_change:
  assumes "length ps < 2 ^ 64"
    and "cache_version (fold (\<lambda>(ip, mac) c. arp_cache_insert c ip mac) ps c) = cache_version c"
  shows "fold (\<lambda>(ip, mac) c. arp_cache_insert c ip mac) ps c = c"
  using arp_store.version_detects [OF assms] by simp

theorem arp_version_detects_change_witness:
  "fold (\<lambda>(ip, mac) c. arp_cache_insert c ip mac) [] arp_cache_new = arp_cache_new
   \<and> cache_version (fold (\<lambda>(ip, mac) c. arp_cache_insert c ip mac)
       [(Ipv4 10 0 0 1, Mac 1 2 3 4 5 6)] arp_cache_new) \<noteq> cache_version arp_cache_new"
  using arp_version_detects_change [of "[]" arp_cache_new]
    arp_version_detects_change [of "[(Ipv4 10 0 0 1, Mac 1 2 3 4 5 6)]" arp_cache_new]
  by (simp add: arp_cache_insert_def arp_cache_new_def)

end
