(* ===== verification/Dpdk_Ffi.thy ===== *)
theory Dpdk_Ffi
  imports Arp_Cache
begin

section \<open>The DPDK library as a parameter, and the state of a process\<close>

text \<open>
  DPDK itself is not part of the repository: \<^verbatim>\<open>dpdk-net-sys\<close> only binds it, and
  \<^verbatim>\<open>dpdk-net-sys/src/wrapper.c\<close> forwards its inline functions. The record \<open>dpdk\<close> lists
  the functions the Rust code calls; every definition that calls one takes the record as its
  first argument, so nothing is said about their bodies. An mbuf header is DPDK's state
  (\<open>'d\<close>); the packet bytes are process memory, which the Rust code reads and writes through
  raw slices.

  What the code relies on is stated as named hypotheses, from DPDK's API documentation:
  \<open>mbuf_laws\<close> for the packet-buffer functions, \<open>rx_burst_law\<close> and \<open>tx_burst_law\<close> for the
  receive and transmit bursts. They speak of a \<open>view\<close>: which mbufs the application holds (\<open>live\<close>: allocated or
  received, and neither freed nor handed to a transmit queue) and which memory each owns.
\<close>

datatype Errno = EINVAL | EALREADY | OtherErrno int

text \<open>
  The raw structures of \<^verbatim>\<open>rte_ethdev.h\<close>, with the fields the code reads or writes. A pointer
  to an RSS key is the key it points to, or \<open>None\<close> when it is null; \<open>rte_eth_rxconf\<close> and
  \<open>rte_eth_txconf\<close> are only passed through and are the bytes of the structure.
\<close>

record rte_eth_dev_info =
  info_reta_size :: u16
  info_max_rx_queues :: u16
  info_max_tx_queues :: u16

record rte_eth_rss_conf =
  rss_conf_hf :: u64
  rss_conf_key :: "bytes option"
  rss_conf_key_len :: u8

record rte_eth_conf =
  raw_link_speeds :: u32
  raw_rx_mq_mode :: u32
  raw_rx_mtu :: u32
  raw_rx_offloads :: u64
  raw_rx_max_lro_pkt_size :: u32
  raw_tx_mq_mode :: u32
  raw_tx_offloads :: u64
  raw_lpbk_mode :: u32
  raw_rss_conf :: rte_eth_rss_conf

record rte_eth_rss_reta_entry64 =
  reta_mask :: u64
  reta_entries :: "u16 list"

record rte_eth_stats =
  stats_ipackets :: u64
  stats_opackets :: u64
  stats_ibytes :: u64
  stats_obytes :: u64
  stats_imissed :: u64
  stats_ierrors :: u64
  stats_oerrors :: u64
  stats_rx_nombuf :: u64

record 'd dpdk =
  pktmbuf_alloc :: "ptr \<Rightarrow> 'd \<Rightarrow> ptr \<times> 'd"
  pktmbuf_free :: "ptr \<Rightarrow> 'd \<Rightarrow> 'd"
  pktmbuf_mtod :: "ptr \<Rightarrow> 'd \<Rightarrow> ptr"
  pktmbuf_data_len :: "ptr \<Rightarrow> 'd \<Rightarrow> u16"
  pktmbuf_set_data_len :: "ptr \<Rightarrow> u16 \<Rightarrow> 'd \<Rightarrow> 'd"
  pktmbuf_pkt_len :: "ptr \<Rightarrow> 'd \<Rightarrow> u32"
  pktmbuf_set_pkt_len :: "ptr \<Rightarrow> u32 \<Rightarrow> 'd \<Rightarrow> 'd"
  pktmbuf_headroom :: "ptr \<Rightarrow> 'd \<Rightarrow> u16"
  pktmbuf_tailroom :: "ptr \<Rightarrow> 'd \<Rightarrow> u16"
  pktmbuf_append :: "ptr \<Rightarrow> u16 \<Rightarrow> 'd \<Rightarrow> ptr \<times> 'd"
  pktmbuf_prepend :: "ptr \<Rightarrow> u16 \<Rightarrow> 'd \<Rightarrow> ptr \<times> 'd"
  pktmbuf_adj :: "ptr \<Rightarrow> u16 \<Rightarrow> 'd \<Rightarrow> ptr \<times> 'd"
  pktmbuf_trim :: "ptr \<Rightarrow> u16 \<Rightarrow> 'd \<Rightarrow> int \<times> 'd"
  pktmbuf_reset :: "ptr \<Rightarrow> 'd \<Rightarrow> 'd"
  pktmbuf_data_room_size :: "ptr \<Rightarrow> 'd \<Rightarrow> u16"
  pktmbuf_pool_create :: "bytes \<Rightarrow> u32 \<Rightarrow> u32 \<Rightarrow> u16 \<Rightarrow> u16 \<Rightarrow> int \<Rightarrow> 'd \<Rightarrow> ptr \<times> 'd"
  mempool_lookup :: "bytes \<Rightarrow> 'd \<Rightarrow> ptr"
  mempool_avail_count :: "ptr \<Rightarrow> 'd \<Rightarrow> u32"
  mempool_free :: "ptr \<Rightarrow> 'd \<Rightarrow> 'd"
  eth_rx_burst :: "u16 \<Rightarrow> u16 \<Rightarrow> ptr list \<Rightarrow> u16 \<Rightarrow> memory \<Rightarrow> 'd \<Rightarrow> u16 \<times> ptr list \<times> memory \<times> 'd"
  eth_tx_burst :: "u16 \<Rightarrow> u16 \<Rightarrow> ptr list \<Rightarrow> u16 \<Rightarrow> memory \<Rightarrow> 'd \<Rightarrow> u16 \<times> memory \<times> 'd"
  rte_eal_init :: "int \<Rightarrow> string list \<Rightarrow> 'd \<Rightarrow> int \<times> 'd"
  rte_eal_cleanup :: "'d \<Rightarrow> int \<times> 'd"
  rte_thread_register :: "'d \<Rightarrow> int \<times> 'd"
  rte_thread_unregister :: "'d \<Rightarrow> 'd"
  rte_eth_dev_count_avail :: "'d \<Rightarrow> u16"
  rte_eth_dev_info_get :: "u16 \<Rightarrow> 'd \<Rightarrow> int \<times> rte_eth_dev_info \<times> 'd"
  rte_eth_dev_socket_id :: "u16 \<Rightarrow> 'd \<Rightarrow> int"
  rte_eth_macaddr_get :: "u16 \<Rightarrow> 'd \<Rightarrow> int \<times> MacAddress \<times> 'd"
  rte_eth_stats_get :: "u16 \<Rightarrow> 'd \<Rightarrow> int \<times> rte_eth_stats \<times> 'd"
  rte_eth_dev_configure :: "u16 \<Rightarrow> u16 \<Rightarrow> u16 \<Rightarrow> rte_eth_conf \<Rightarrow> 'd \<Rightarrow> int \<times> 'd"
  rte_eth_rx_queue_setup :: "u16 \<Rightarrow> u16 \<Rightarrow> u16 \<Rightarrow> u32 \<Rightarrow> bytes option \<Rightarrow> ptr \<Rightarrow> 'd \<Rightarrow> int \<times> 'd"
  rte_eth_tx_queue_setup :: "u16 \<Rightarrow> u16 \<Rightarrow> u16 \<Rightarrow> u32 \<Rightarrow> bytes option \<Rightarrow> 'd \<Rightarrow> int \<times> 'd"
  rte_eth_dev_start :: "u16 \<Rightarrow> 'd \<Rightarrow> int \<times> 'd"
  rte_eth_dev_stop :: "u16 \<Rightarrow> 'd \<Rightarrow> int \<times> 'd"
  rte_eth_dev_close :: "u16 \<Rightarrow> 'd \<Rightarrow> int \<times> 'd"
  rte_eth_promiscuous_enable :: "u16 \<Rightarrow> 'd \<Rightarrow> int \<times> 'd"
  rte_eth_promiscuous_disable :: "u16 \<Rightarrow> 'd \<Rightarrow> int \<times> 'd"
  rte_eth_dev_rss_hash_conf_get :: "u16 \<Rightarrow> rte_eth_rss_conf \<Rightarrow> 'd \<Rightarrow> int \<times> rte_eth_rss_conf \<times> 'd"
  rte_eth_dev_rss_hash_update :: "u16 \<Rightarrow> rte_eth_rss_conf \<Rightarrow> 'd \<Rightarrow> int \<times> 'd"
  rte_eth_dev_rss_reta_update :: "u16 \<Rightarrow> rte_eth_rss_reta_entry64 list \<Rightarrow> u16 \<Rightarrow> 'd \<Rightarrow> int \<times> 'd"
  rte_eth_dev_rss_reta_query ::
    "u16 \<Rightarrow> rte_eth_rss_reta_entry64 list \<Rightarrow> u16 \<Rightarrow> 'd \<Rightarrow> int \<times> rte_eth_rss_reta_entry64 list \<times> 'd"
  RSS_IP :: u64
  RSS_TCP :: u64
  RSS_NONFRAG_IPV4_TCP :: u64
  RSS_NONFRAG_IPV6_TCP :: u64
  get_rte_errno :: "'d \<Rightarrow> int"
  errno_from_raw :: "int \<Rightarrow> Errno"

text \<open>
  The state every component reads and writes: packet memory, DPDK's own state, and the shared
  ARP caches, which several devices hold a reference to (an \<open>Arc\<close>), by their address, and the
  process-wide flag of \<^verbatim>\<open>eal.rs\<close>.
\<close>

record 'd world =
  mem :: memory
  rte :: 'd
  caches :: "nat \<Rightarrow> SharedArpCache"
  EAL_INITIALIZED :: bool

subsection \<open>Error codes\<close>

text \<open>\<^verbatim>\<open>dpdk-net/src/api/error.rs\<close>.\<close>

definition rte_errno :: "'d dpdk \<Rightarrow> 'd world \<Rightarrow> Errno" where
  "rte_errno D w = (let num = get_rte_errno D (rte w) in errno_from_raw D num)"

definition check_rte_success :: "'d dpdk \<Rightarrow> int \<Rightarrow> 'd world \<Rightarrow> (unit, Errno) Result" where
  "check_rte_success D ret w = (if ret < 0 then Err (rte_errno D w) else Ok ())"

subsection \<open>What DPDK documents\<close>

record 'd view =
  live :: "ptr \<Rightarrow> 'd \<Rightarrow> bool"
  area_lo :: "ptr \<Rightarrow> nat"
  area_hi :: "ptr \<Rightarrow> nat"

text \<open>Two states agree on whether the application holds an mbuf, and on its header if it does.\<close>

definition same_mbuf :: "'d dpdk \<Rightarrow> 'd view \<Rightarrow> ptr \<Rightarrow> 'd \<Rightarrow> 'd \<Rightarrow> bool" where
  "same_mbuf D V m d d' \<longleftrightarrow>
     live V m d' = live V m d \<and>
     (live V m d \<longrightarrow>
        pktmbuf_data_len D m d' = pktmbuf_data_len D m d \<and>
        pktmbuf_pkt_len D m d' = pktmbuf_pkt_len D m d \<and>
        pktmbuf_mtod D m d' = pktmbuf_mtod D m d \<and>
        pktmbuf_tailroom D m d' = pktmbuf_tailroom D m d)"

text \<open>An allocated mbuf's data and tailroom lie in its own memory, apart from every other's.\<close>

definition area_laws :: "'d dpdk \<Rightarrow> 'd view \<Rightarrow> bool" where
  "area_laws D V \<longleftrightarrow>
     (\<forall>m d. live V m d \<longrightarrow>
        m \<noteq> null_ptr \<and> 0 < area_lo V m \<and> area_lo V m \<le> pktmbuf_mtod D m d \<and>
        pktmbuf_mtod D m d + unat (pktmbuf_data_len D m d) + unat (pktmbuf_tailroom D m d)
          \<le> area_hi V m \<and>
        unat (pktmbuf_data_len D m d) + unat (pktmbuf_tailroom D m d) \<le> u16_max) \<and>
     (\<forall>m m' d. live V m d \<and> live V m' d \<and> m \<noteq> m' \<longrightarrow>
        area_hi V m \<le> area_lo V m' \<or> area_hi V m' \<le> area_lo V m)"

text \<open>Allocation returns NULL, or an empty mbuf that was not allocated before.\<close>

definition alloc_law :: "'d dpdk \<Rightarrow> 'd view \<Rightarrow> bool" where
  "alloc_law D V \<longleftrightarrow>
     (\<forall>pool d. case pktmbuf_alloc D pool d of (p, d') \<Rightarrow>
        (p \<noteq> null_ptr \<longrightarrow> \<not> live V p d \<and> live V p d' \<and>
           pktmbuf_data_len D p d' = 0 \<and> pktmbuf_pkt_len D p d' = 0) \<and>
        (\<forall>m. m \<noteq> p \<or> p = null_ptr \<longrightarrow> same_mbuf D V m d d'))"

definition free_law :: "'d dpdk \<Rightarrow> 'd view \<Rightarrow> bool" where
  "free_law D V \<longleftrightarrow>
     (\<forall>m d. live V m d \<longrightarrow>
        \<not> live V m (pktmbuf_free D m d) \<and>
        (\<forall>m'. m' \<noteq> m \<longrightarrow> same_mbuf D V m' d (pktmbuf_free D m d)))"

text \<open>Reset empties the mbuf; its tailroom is then all the space after the headroom.\<close>

definition reset_law :: "'d dpdk \<Rightarrow> 'd view \<Rightarrow> bool" where
  "reset_law D V \<longleftrightarrow>
     (\<forall>m d. live V m d \<longrightarrow>
        live V m (pktmbuf_reset D m d) \<and>
        pktmbuf_data_len D m (pktmbuf_reset D m d) = 0 \<and>
        pktmbuf_pkt_len D m (pktmbuf_reset D m d) = 0 \<and>
        (\<forall>m'. m' \<noteq> m \<longrightarrow> same_mbuf D V m' d (pktmbuf_reset D m d)))"

text \<open>
  Append returns NULL and changes nothing when the tailroom is too small; else it returns the
  address after the current data and grows both lengths.
\<close>

definition append_law :: "'d dpdk \<Rightarrow> 'd view \<Rightarrow> bool" where
  "append_law D V \<longleftrightarrow>
     (\<forall>m len d. live V m d \<longrightarrow>
        (case pktmbuf_append D m len d of (p, d') \<Rightarrow>
           (if unat len \<le> unat (pktmbuf_tailroom D m d)
            then p = pktmbuf_mtod D m d + unat (pktmbuf_data_len D m d) \<and>
                 live V m d' \<and> pktmbuf_mtod D m d' = pktmbuf_mtod D m d \<and>
                 pktmbuf_data_len D m d' = pktmbuf_data_len D m d + len \<and>
                 pktmbuf_pkt_len D m d' = pktmbuf_pkt_len D m d + ucast len \<and>
                 (\<forall>m'. m' \<noteq> m \<longrightarrow> same_mbuf D V m' d d')
            else p = null_ptr \<and> d' = d)))"

text \<open>The header's length fields, written one at a time.\<close>

definition set_len_laws :: "'d dpdk \<Rightarrow> 'd view \<Rightarrow> bool" where
  "set_len_laws D V \<longleftrightarrow>
     (\<forall>m l d. live V m d \<longrightarrow>
        pktmbuf_data_len D m (pktmbuf_set_data_len D m l d) = l \<and>
        pktmbuf_pkt_len D m (pktmbuf_set_data_len D m l d) = pktmbuf_pkt_len D m d \<and>
        pktmbuf_mtod D m (pktmbuf_set_data_len D m l d) = pktmbuf_mtod D m d \<and>
        (\<forall>m'. m' \<noteq> m \<longrightarrow> same_mbuf D V m' d (pktmbuf_set_data_len D m l d)) \<and>
        (unat l \<le> unat (pktmbuf_data_len D m d) + unat (pktmbuf_tailroom D m d) \<longrightarrow>
           live V m (pktmbuf_set_data_len D m l d))) \<and>
     (\<forall>m l d. live V m d \<longrightarrow>
        live V m (pktmbuf_set_pkt_len D m l d) \<and>
        pktmbuf_pkt_len D m (pktmbuf_set_pkt_len D m l d) = l \<and>
        pktmbuf_data_len D m (pktmbuf_set_pkt_len D m l d) = pktmbuf_data_len D m d \<and>
        pktmbuf_mtod D m (pktmbuf_set_pkt_len D m l d) = pktmbuf_mtod D m d \<and>
        (\<forall>m'. m' \<noteq> m \<longrightarrow> same_mbuf D V m' d (pktmbuf_set_pkt_len D m l d)))"

definition mbuf_laws :: "'d dpdk \<Rightarrow> 'd view \<Rightarrow> bool" where
  "mbuf_laws D V \<longleftrightarrow> area_laws D V \<and> alloc_law D V \<and> free_law D V \<and> reset_law D V \<and>
     append_law D V \<and> set_len_laws D V"

text \<open>
  A receive burst fills a prefix of the pointer array with mbufs the application did not hold
  and returns its length; a transmit burst takes over the mbufs of a prefix of the array and
  returns its length. Neither touches an mbuf the application keeps.
\<close>

definition rx_burst_law :: "'d dpdk \<Rightarrow> 'd view \<Rightarrow> bool" where
  "rx_burst_law D V \<longleftrightarrow>
     (\<forall>port q raw nb m d. unat nb \<le> length raw \<longrightarrow>
        (case eth_rx_burst D port q raw nb m d of (n, raw', m', d') \<Rightarrow>
           unat n \<le> unat nb \<and> length raw' = length raw \<and> distinct (take (unat n) raw') \<and>
           (\<forall>p \<in> set (take (unat n) raw'). \<not> live V p d \<and> live V p d' \<and> p \<noteq> null_ptr) \<and>
           (\<forall>p. p \<notin> set (take (unat n) raw') \<longrightarrow> same_mbuf D V p d d') \<and>
           (\<forall>p a. live V p d \<and> area_lo V p \<le> a \<and> a < area_hi V p \<longrightarrow> m' a = m a)))"

definition tx_burst_law :: "'d dpdk \<Rightarrow> 'd view \<Rightarrow> bool" where
  "tx_burst_law D V \<longleftrightarrow>
     (\<forall>port q raw nb m d. unat nb \<le> length raw \<longrightarrow>
        (case eth_tx_burst D port q raw nb m d of (n, m', d') \<Rightarrow>
           unat n \<le> unat nb \<and>
           (\<forall>p \<in> set (take (unat n) raw). \<not> live V p d') \<and>
           (\<forall>p. p \<notin> set (take (unat n) raw) \<longrightarrow> same_mbuf D V p d d') \<and>
           (\<forall>p a. live V p d \<and> area_lo V p \<le> a \<and> a < area_hi V p \<longrightarrow> m' a = m a)))"

definition dpdk_laws :: "'d dpdk \<Rightarrow> 'd view \<Rightarrow> bool" where
  "dpdk_laws D V \<longleftrightarrow> mbuf_laws D V \<and> rx_burst_law D V \<and> tx_burst_law D V"

lemma dpdk_lawsD:
  assumes "dpdk_laws D V"
  shows "mbuf_laws D V" "rx_burst_law D V" "tx_burst_law D V"
  using assms by (simp_all add: dpdk_laws_def)

lemma mbuf_lawsD:
  assumes "mbuf_laws D V"
  shows "area_laws D V" "alloc_law D V" "free_law D V" "reset_law D V" "append_law D V"
    "set_len_laws D V"
  using assms by (simp_all add: mbuf_laws_def)

lemma area_lawsD:
  assumes "mbuf_laws D V" and "live V m d"
  shows "m \<noteq> 0" "pktmbuf_mtod D m d \<noteq> 0" "area_lo V m \<le> pktmbuf_mtod D m d"
    "pktmbuf_mtod D m d + unat (pktmbuf_data_len D m d) + unat (pktmbuf_tailroom D m d) \<le> area_hi V m"
    "unat (pktmbuf_data_len D m d) + unat (pktmbuf_tailroom D m d) \<le> u16_max"
  using mbuf_lawsD(1) [OF assms(1)] assms(2) by (force simp: area_laws_def)+

lemma area_disjoint:
  assumes "mbuf_laws D V" and "live V m d" and "live V m' d" and "m \<noteq> m'"
  shows "area_hi V m \<le> area_lo V m' \<or> area_hi V m' \<le> area_lo V m"
  using mbuf_lawsD(1) [OF assms(1)] assms(2-4) unfolding area_laws_def by blast

lemma same_mbuf_refl [simp]: "same_mbuf D V m d d"
  by (simp add: same_mbuf_def)

lemma same_mbuf_trans: "same_mbuf D V m d d' \<Longrightarrow> same_mbuf D V m d' d'' \<Longrightarrow> same_mbuf D V m d d''"
  by (simp add: same_mbuf_def)

lemma rx_burst_lawD:
  assumes "rx_burst_law D V" and "unat nb \<le> length raw"
    and "eth_rx_burst D port q raw nb m d = (n, raw', m', d')"
  shows "unat n \<le> unat nb" "length raw' = length raw" "distinct (take (unat n) raw')"
    "\<And>p. p \<in> set (take (unat n) raw') \<Longrightarrow> \<not> live V p d \<and> live V p d' \<and> p \<noteq> 0"
    "\<And>p. p \<notin> set (take (unat n) raw') \<Longrightarrow> same_mbuf D V p d d'"
    "\<And>p a. live V p d \<Longrightarrow> area_lo V p \<le> a \<Longrightarrow> a < area_hi V p \<Longrightarrow> m' a = m a"
  using assms(1) [unfolded rx_burst_law_def, THEN spec [of _ port], THEN spec [of _ q], THEN spec [of _ raw],
      THEN spec [of _ nb], THEN spec [of _ m], THEN spec [of _ d], THEN mp, OF assms(2)] assms(3) by auto

lemma tx_burst_lawD:
  assumes "tx_burst_law D V" and "unat nb \<le> length raw"
    and "eth_tx_burst D port q raw nb m d = (n, m', d')"
  shows "unat n \<le> unat nb" "\<And>p. p \<in> set (take (unat n) raw) \<Longrightarrow> \<not> live V p d'"
    "\<And>p. p \<notin> set (take (unat n) raw) \<Longrightarrow> same_mbuf D V p d d'"
    "\<And>p a. live V p d \<Longrightarrow> area_lo V p \<le> a \<Longrightarrow> a < area_hi V p \<Longrightarrow> m' a = m a"
  using assms(1) [unfolded tx_burst_law_def, THEN spec [of _ port], THEN spec [of _ q], THEN spec [of _ raw],
      THEN spec [of _ nb], THEN spec [of _ m], THEN spec [of _ d], THEN mp, OF assms(2)] assms(3) by auto

end
