(* ===== verification/Dpdk_Sim.thy ===== *)
theory Dpdk_Sim
  imports Dpdk_Ffi
begin

section \<open>A small packet-buffer library that satisfies the hypotheses\<close>

text \<open>
  The hypotheses about DPDK in \<open>Dpdk_Ffi\<close> can hold: this theory gives executable functions
  that satisfy them. Buffer \<open>m\<close> owns the 4096 bytes from \<open>m * 4096\<close>, with 128 bytes of
  headroom and room for 2048 bytes of data; received frames wait in \<open>sim_rx\<close>, and a transmit
  burst takes as many buffers as \<open>sim_tx_room\<close> allows. The witnesses of the properties that
  assume DPDK's documented behaviour run on it. It stands for no code of the repository.
\<close>

record sim =
  sim_free :: "ptr list"
  sim_live :: "ptr list"
  sim_len :: "ptr \<Rightarrow> u16"
  sim_plen :: "ptr \<Rightarrow> u32"
  sim_rx :: "bytes list"
  sim_tx_room :: nat
  sim_sent :: "ptr list"
  sim_calls :: "string list"
  sim_reta :: "rte_eth_rss_reta_entry64 list"

definition sim_init :: "ptr list \<Rightarrow> bytes list \<Rightarrow> nat \<Rightarrow> sim" where
  "sim_init free rx room =
     \<lparr>sim_free = free, sim_live = [], sim_len = (\<lambda>_. 0), sim_plen = (\<lambda>_. 0), sim_rx = rx,
      sim_tx_room = room, sim_sent = [], sim_calls = [], sim_reta = []\<rparr>"

definition sim_holds :: "ptr \<Rightarrow> sim \<Rightarrow> bool" where
  "sim_holds m d \<longleftrightarrow> m \<noteq> 0 \<and> m \<in> set (sim_live d) \<and> unat (sim_len d m) \<le> 2048"

definition sim_mtod :: "ptr \<Rightarrow> sim \<Rightarrow> ptr" where
  "sim_mtod m d = m * 4096 + 128"

definition sim_tailroom :: "ptr \<Rightarrow> sim \<Rightarrow> u16" where
  "sim_tailroom m d = of_nat (2048 - unat (sim_len d m))"

definition sim_alloc :: "ptr \<Rightarrow> sim \<Rightarrow> ptr \<times> sim" where
  "sim_alloc pool d =
     (case find (\<lambda>p. p \<noteq> 0 \<and> p \<notin> set (sim_live d)) (sim_free d) of
        None \<Rightarrow> (0, d)
      | Some p \<Rightarrow> (p, d\<lparr>sim_free := remove1 p (sim_free d), sim_live := p # sim_live d,
                       sim_len := (sim_len d)(p := 0), sim_plen := (sim_plen d)(p := 0)\<rparr>))"

definition sim_release :: "ptr \<Rightarrow> sim \<Rightarrow> sim" where
  "sim_release m d = d\<lparr>sim_live := removeAll m (sim_live d), sim_free := m # sim_free d\<rparr>"

definition sim_set_len :: "ptr \<Rightarrow> u16 \<Rightarrow> sim \<Rightarrow> sim" where
  "sim_set_len m l d = d\<lparr>sim_len := (sim_len d)(m := l)\<rparr>"

definition sim_set_plen :: "ptr \<Rightarrow> u32 \<Rightarrow> sim \<Rightarrow> sim" where
  "sim_set_plen m l d = d\<lparr>sim_plen := (sim_plen d)(m := l)\<rparr>"

definition sim_append :: "ptr \<Rightarrow> u16 \<Rightarrow> sim \<Rightarrow> ptr \<times> sim" where
  "sim_append m l d =
     (if unat l \<le> unat (sim_tailroom m d)
      then (sim_mtod m d + unat (sim_len d m),
            sim_set_plen m (sim_plen d m + ucast l) (sim_set_len m (sim_len d m + l) d))
      else (0, d))"

fun sim_rx_loop :: "nat \<Rightarrow> memory \<Rightarrow> sim \<Rightarrow> ptr list \<times> memory \<times> sim" where
  "sim_rx_loop 0 m d = ([], m, d)"
| "sim_rx_loop (Suc n) m d =
     (case sim_rx d of
        [] \<Rightarrow> ([], m, d)
      | f # fs \<Rightarrow>
          let (p, d') = sim_alloc 0 d in
          if p = 0 \<or> 2048 < length f then ([], m, d)
          else let d' = sim_set_plen p (of_nat (length f)) (sim_set_len p (of_nat (length f)) d');
                   (ps, m, d') = sim_rx_loop n (write_raw m (sim_mtod p d') f) (d'\<lparr>sim_rx := fs\<rparr>)
               in (p # ps, m, d'))"

definition sim_rx_burst :: "u16 \<Rightarrow> u16 \<Rightarrow> ptr list \<Rightarrow> u16 \<Rightarrow> memory \<Rightarrow> sim \<Rightarrow> u16 \<times> ptr list \<times> memory \<times> sim" where
  "sim_rx_burst port q raw nb m d =
     (let (ps, m, d) = sim_rx_loop (unat nb) m d in (of_nat (length ps), write_at 0 ps raw, m, d))"

definition sim_tx_burst :: "u16 \<Rightarrow> u16 \<Rightarrow> ptr list \<Rightarrow> u16 \<Rightarrow> memory \<Rightarrow> sim \<Rightarrow> u16 \<times> memory \<times> sim" where
  "sim_tx_burst port q raw nb m d =
     (let n = min (unat nb) (sim_tx_room d)
      in (of_nat n, m, d\<lparr>sim_live := filter (\<lambda>p. p \<notin> set (take n raw)) (sim_live d),
                         sim_tx_room := sim_tx_room d - n, sim_sent := sim_sent d @ take n raw\<rparr>))"

definition sim_call :: "string \<Rightarrow> sim \<Rightarrow> int \<times> sim" where
  "sim_call nm d = (0, d\<lparr>sim_calls := sim_calls d @ [nm]\<rparr>)"

definition sim_dpdk :: "sim dpdk" where
  "sim_dpdk =
     \<lparr>pktmbuf_alloc = sim_alloc, pktmbuf_free = sim_release, pktmbuf_mtod = sim_mtod,
      pktmbuf_data_len = (\<lambda>m d. sim_len d m), pktmbuf_set_data_len = sim_set_len,
      pktmbuf_pkt_len = (\<lambda>m d. sim_plen d m), pktmbuf_set_pkt_len = sim_set_plen,
      pktmbuf_headroom = (\<lambda>m d. 128), pktmbuf_tailroom = sim_tailroom,
      pktmbuf_append = sim_append, pktmbuf_prepend = (\<lambda>m l d. (0, d)),
      pktmbuf_adj = (\<lambda>m l d. (0, d)), pktmbuf_trim = (\<lambda>m l d. (-1, d)),
      pktmbuf_reset = (\<lambda>m d. sim_set_plen m 0 (sim_set_len m 0 d)),
      pktmbuf_data_room_size = (\<lambda>pool d. 2176),
      pktmbuf_pool_create = (\<lambda>nm n c pr room sock d. (4096, d)),
      mempool_lookup = (\<lambda>nm d. 0), mempool_avail_count = (\<lambda>pool d. of_nat (length (sim_free d))),
      mempool_free = (\<lambda>pool d. d), eth_rx_burst = sim_rx_burst, eth_tx_burst = sim_tx_burst,
      rte_eal_init = (\<lambda>argc argv. sim_call ''init''), rte_eal_cleanup = sim_call ''cleanup'',
      rte_thread_register = sim_call ''register'', rte_thread_unregister = (\<lambda>d. d),
      rte_eth_dev_count_avail = (\<lambda>d. 1),
      rte_eth_dev_info_get = (\<lambda>port d. (0, \<lparr>info_reta_size = 128, info_max_rx_queues = 8, info_max_tx_queues = 8\<rparr>, d)),
      rte_eth_dev_socket_id = (\<lambda>port d. 0), rte_eth_macaddr_get = (\<lambda>port d. (0, Mac 2 0 0 0 0 1, d)),
      rte_eth_stats_get = (\<lambda>port d. (0, \<lparr>stats_ipackets = 0, stats_opackets = 0, stats_ibytes = 0,
        stats_obytes = 0, stats_imissed = 0, stats_ierrors = 0, stats_oerrors = 0, stats_rx_nombuf = 0\<rparr>, d)),
      rte_eth_dev_configure = (\<lambda>port rx tx conf. sim_call ''configure''),
      rte_eth_rx_queue_setup = (\<lambda>port q n sock conf pool. sim_call ''rx_setup''),
      rte_eth_tx_queue_setup = (\<lambda>port q n sock conf. sim_call ''tx_setup''),
      rte_eth_dev_start = (\<lambda>port. sim_call ''start''), rte_eth_dev_stop = (\<lambda>port. sim_call ''stop''),
      rte_eth_dev_close = (\<lambda>port. sim_call ''close''),
      rte_eth_promiscuous_enable = (\<lambda>port. sim_call ''promiscuous''),
      rte_eth_promiscuous_disable = (\<lambda>port. sim_call ''no promiscuous''),
      rte_eth_dev_rss_hash_conf_get = (\<lambda>port c d. (0, c, d)),
      rte_eth_dev_rss_hash_update = (\<lambda>port c. sim_call ''rss_hash''),
      rte_eth_dev_rss_reta_update = (\<lambda>port c n d. (0, d\<lparr>sim_reta := c\<rparr>)),
      rte_eth_dev_rss_reta_query = (\<lambda>port c n d. (0, sim_reta d, d)),
      RSS_IP = 0x10, RSS_TCP = 0x20, RSS_NONFRAG_IPV4_TCP = 0x20, RSS_NONFRAG_IPV6_TCP = 0x40,
      get_rte_errno = (\<lambda>d. 12), errno_from_raw = OtherErrno\<rparr>"

definition sim_view :: "sim view" where
  "sim_view = \<lparr>live = sim_holds, area_lo = (\<lambda>m. m * 4096), area_hi = (\<lambda>m. m * 4096 + 4096)\<rparr>"

definition sim_world :: "ptr list \<Rightarrow> bytes list \<Rightarrow> nat \<Rightarrow> sim world" where
  "sim_world free rx room =
     \<lparr>mem = (\<lambda>_. 0), rte = sim_init free rx room, caches = (\<lambda>_. arp_cache_new), EAL_INITIALIZED = False\<rparr>"

lemma sim_dpdk_calls [simp]:
  "rte_eal_init sim_dpdk argc argv = sim_call ''init''"
  "rte_eal_cleanup sim_dpdk = sim_call ''cleanup''"
  "rte_eth_dev_configure sim_dpdk port rxs txs conf = sim_call ''configure''"
  "rte_eth_rx_queue_setup sim_dpdk port q n sock rxc pool = sim_call ''rx_setup''"
  "rte_eth_tx_queue_setup sim_dpdk port q n sock txc = sim_call ''tx_setup''"
  "rte_eth_dev_start sim_dpdk port = sim_call ''start''"
  "rte_eth_promiscuous_enable sim_dpdk port = sim_call ''promiscuous''"
  "rte_eth_dev_rss_hash_update sim_dpdk port rc = sim_call ''rss_hash''"
  "rte_eth_dev_rss_reta_update sim_dpdk port cs n d = (0, d\<lparr>sim_reta := cs\<rparr>)"
  "rte_eth_dev_rss_reta_query sim_dpdk port cs n d = (0, sim_reta d, d)"
  "rte_eth_dev_info_get sim_dpdk port d = (0, \<lparr>info_reta_size = 128, info_max_rx_queues = 8, info_max_tx_queues = 8\<rparr>, d)"
  "rte_eth_dev_socket_id sim_dpdk port d = 0"
  by (simp_all add: sim_dpdk_def)

lemmas sim_defs = sim_dpdk_def sim_view_def sim_world_def sim_init_def sim_holds_def sim_mtod_def
  sim_tailroom_def sim_alloc_def sim_release_def sim_set_len_def sim_set_plen_def sim_append_def
  sim_rx_burst_def sim_tx_burst_def

subsection \<open>It satisfies the laws\<close>

lemma sim_tailroom_unat: "unat (sim_tailroom m d) = 2048 - unat (sim_len d m)"
  by (simp add: sim_tailroom_def unat_of_nat_u16_mod)

lemma sim_tailroom_cong: "sim_len d' m = sim_len d m \<Longrightarrow> sim_tailroom m d' = sim_tailroom m d"
  by (simp add: sim_tailroom_def)

lemma sim_area_disjoint: "m \<noteq> m' \<Longrightarrow> m * 4096 + 4096 \<le> m' * 4096 \<or> m' * 4096 + 4096 \<le> m * (4096 :: nat)"
  by linarith

lemma sim_area_laws: "area_laws sim_dpdk sim_view"
  unfolding area_laws_def using sim_area_disjoint
  by (auto simp: sim_dpdk_def sim_view_def sim_holds_def sim_mtod_def sim_tailroom_unat)

lemma sim_alloc_cases:
  obtains (none) "sim_alloc pool d = (0, d)"
    | (fresh) p d' where "sim_alloc pool d = (p, d')" "p \<noteq> 0" "p \<notin> set (sim_live d)"
        "d' = d\<lparr>sim_free := remove1 p (sim_free d), sim_live := p # sim_live d,
               sim_len := (sim_len d)(p := 0), sim_plen := (sim_plen d)(p := 0)\<rparr>"
proof (cases "find (\<lambda>p. p \<noteq> 0 \<and> p \<notin> set (sim_live d)) (sim_free d)")
  case None
  then show thesis by (intro none) (simp add: sim_alloc_def)
next
  case (Some p)
  then have "p \<noteq> 0" and "p \<notin> set (sim_live d)" by (auto simp: find_Some_iff)
  then show thesis using Some by (intro fresh [of p]) (simp_all add: sim_alloc_def)
qed

lemma sim_alloc_law: "alloc_law sim_dpdk sim_view"
  unfolding alloc_law_def
proof (intro allI)
  fix pool d
  show "case pktmbuf_alloc sim_dpdk pool d of (p, d') \<Rightarrow>
        (p \<noteq> null_ptr \<longrightarrow> \<not> live sim_view p d \<and> live sim_view p d' \<and>
           pktmbuf_data_len sim_dpdk p d' = 0 \<and> pktmbuf_pkt_len sim_dpdk p d' = 0) \<and>
        (\<forall>m. m \<noteq> p \<or> p = null_ptr \<longrightarrow> same_mbuf sim_dpdk sim_view m d d')"
    by (rule sim_alloc_cases [of pool d])
      (auto simp: sim_dpdk_def sim_view_def same_mbuf_def sim_holds_def sim_mtod_def sim_tailroom_def)
qed

lemma sim_free_law: "free_law sim_dpdk sim_view"
  by (auto simp: free_law_def same_mbuf_def sim_defs)

lemma sim_reset_law: "reset_law sim_dpdk sim_view"
  by (auto simp: reset_law_def same_mbuf_def sim_defs)

lemma sim_set_len_laws: "set_len_laws sim_dpdk sim_view"
  by (auto simp: set_len_laws_def same_mbuf_def sim_dpdk_def sim_view_def sim_holds_def sim_mtod_def
      sim_tailroom_unat sim_set_len_def sim_set_plen_def intro: sim_tailroom_cong)

lemma unat_add_u16: "unat (a :: u16) + unat b \<le> u16_max \<Longrightarrow> unat (a + b) = unat a + unat b"
  by (simp add: unat_plus_if_size word_size)

lemma sim_append_len:
  "unat l \<le> unat (sim_tailroom m d) \<Longrightarrow> unat (sim_len d m) \<le> 2048 \<Longrightarrow> unat (sim_len d m + l) \<le> 2048"
  by (simp add: sim_tailroom_unat unat_add_u16)

lemma sim_append_law: "append_law sim_dpdk sim_view"
  unfolding append_law_def
  by (auto simp: same_mbuf_def sim_dpdk_def sim_view_def sim_holds_def sim_mtod_def
      sim_set_len_def sim_set_plen_def sim_append_def sim_append_len intro: sim_tailroom_cong)

lemma sim_mbuf_laws: "mbuf_laws sim_dpdk sim_view"
  by (simp add: mbuf_laws_def sim_area_laws sim_alloc_law sim_free_law sim_reset_law sim_append_law
      sim_set_len_laws)

lemma sim_tx_burst_law: "tx_burst_law sim_dpdk sim_view"
  unfolding tx_burst_law_def
proof (intro allI impI)
  fix port q nb :: u16 and raw :: "ptr list" and m :: memory and d :: sim
  assume "unat nb \<le> length raw"
  have n: "unat (of_nat (min (unat nb) (sim_tx_room d)) :: u16) = min (unat nb) (sim_tx_room d)"
    using unat_u16_le [of nb] by (intro unat_of_nat_u16) linarith
  show "case eth_tx_burst sim_dpdk port q raw nb m d of (n, m', d') \<Rightarrow>
      unat n \<le> unat nb \<and> (\<forall>p\<in>set (take (unat n) raw). \<not> live sim_view p d') \<and>
      (\<forall>p. p \<notin> set (take (unat n) raw) \<longrightarrow> same_mbuf sim_dpdk sim_view p d d') \<and>
      (\<forall>p a. live sim_view p d \<and> area_lo sim_view p \<le> a \<and> a < area_hi sim_view p \<longrightarrow> m' a = m a)"
    by (auto simp: sim_dpdk_def sim_view_def sim_tx_burst_def same_mbuf_def sim_holds_def sim_mtod_def
        sim_tailroom_def n Let_def)
qed

lemma sim_rx_loop_spec:
  assumes "sim_rx_loop n m d = (ps, m', d')"
  shows "length ps \<le> n \<and> distinct ps \<and>
    (\<forall>p \<in> set ps. p \<noteq> 0 \<and> p \<notin> set (sim_live d) \<and> sim_holds p d') \<and>
    set (sim_live d') = set ps \<union> set (sim_live d) \<and>
    (\<forall>p. p \<notin> set ps \<longrightarrow> sim_len d' p = sim_len d p \<and> sim_plen d' p = sim_plen d p) \<and>
    (\<forall>p a. p \<in> set (sim_live d) \<and> p * 4096 \<le> a \<and> a < p * 4096 + 4096 \<longrightarrow> m' a = m a)"
  using assms
proof (induction n arbitrary: m d ps m' d')
  case 0
  then show ?case by simp
next
  case (Suc n)
  show ?case
  proof (cases "sim_rx d = [] \<or> fst (sim_alloc 0 d) = 0 \<or> 2048 < length (hd (sim_rx d))")
    case True
    then show ?thesis using Suc.prems
      by (auto simp: Let_def split: list.splits prod.splits if_splits)
  next
    case False
    then obtain f fs where rx: "sim_rx d = f # fs" and f: "length f \<le> 2048"
      by (cases "sim_rx d") auto
    obtain p d1 where al: "sim_alloc 0 d = (p, d1)" "p \<noteq> 0" "p \<notin> set (sim_live d)"
      and d1: "d1 = d\<lparr>sim_free := remove1 p (sim_free d), sim_live := p # sim_live d,
               sim_len := (sim_len d)(p := 0), sim_plen := (sim_plen d)(p := 0)\<rparr>"
      using False by (cases rule: sim_alloc_cases [of 0 d]) auto
    define d2 where "d2 = (sim_set_plen p (of_nat (length f)) (sim_set_len p (of_nat (length f)) d1))\<lparr>sim_rx := fs\<rparr>"
    obtain qs m1 d3 where rec: "sim_rx_loop n (write_raw m (p * 4096 + 128) f) d2 = (qs, m1, d3)"
      by (metis prod_cases3)
    have res: "ps = p # qs" "m' = m1" "d' = d3"
      using Suc.prems rx f al rec False
      by (auto simp: Let_def sim_mtod_def d2_def)
    have live2: "set (sim_live d2) = insert p (set (sim_live d))" "unat (sim_len d2 p) \<le> 2048"
      using f by (auto simp: d2_def d1 sim_set_plen_def sim_set_len_def unat_of_nat_u16_mod)
    note IH = Suc.IH [OF rec]
    have p: "p \<notin> set qs" "p \<in> set (sim_live d3)" "unat (sim_len d3 p) \<le> 2048"
      using IH live2 by auto
    have len: "\<forall>x. x \<notin> set ps \<longrightarrow> sim_len d3 x = sim_len d x \<and> sim_plen d3 x = sim_plen d x"
      using IH by (auto simp: res d2_def d1 sim_set_plen_def sim_set_len_def)
    have mem: "m1 a = m a" if x: "x \<in> set (sim_live d)" "x * 4096 \<le> a" "a < x * 4096 + 4096" for x a
    proof -
      have "x \<noteq> p" using x(1) al(3) by blast
      then have "write_raw m (p * 4096 + 128) f a = m a"
        using sim_area_disjoint [of x p] f x(2,3) by (auto simp: write_raw_def)
      moreover have "m1 a = write_raw m (p * 4096 + 128) f a"
        using IH live2(1) x by blast
      ultimately show ?thesis by simp
    qed
    have hold: "\<forall>x \<in> set ps. x \<noteq> 0 \<and> x \<notin> set (sim_live d) \<and> sim_holds x d3"
      using IH live2 al p by (auto simp: res sim_holds_def)
    have "set (sim_live d3) = set ps \<union> set (sim_live d)" "length ps \<le> Suc n" "distinct ps"
      using IH live2(1) p by (auto simp: res)
    then show ?thesis unfolding res(2,3) using len mem hold by (intro conjI allI impI) auto
  qed
qed

lemma sim_rx_burst_law: "rx_burst_law sim_dpdk sim_view"
  unfolding rx_burst_law_def
proof (intro allI impI)
  fix port q nb :: u16 and raw :: "ptr list" and m :: memory and d :: sim
  assume nb: "unat nb \<le> length raw"
  obtain ps m' d' where loop: "sim_rx_loop (unat nb) m d = (ps, m', d')" by (metis prod_cases3)
  note S = sim_rx_loop_spec [OF loop]
  have n: "unat (of_nat (length ps) :: u16) = length ps"
    using S unat_u16_le [of nb] by (intro unat_of_nat_u16) linarith
  have t: "take (length ps) (write_at 0 ps raw) = ps" "length (write_at 0 ps raw) = length raw"
    using S nb by (simp_all add: write_at_def)
  show "case eth_rx_burst sim_dpdk port q raw nb m d of (n, raw', m', d') \<Rightarrow>
           unat n \<le> unat nb \<and> length raw' = length raw \<and> distinct (take (unat n) raw') \<and>
           (\<forall>p \<in> set (take (unat n) raw'). \<not> live sim_view p d \<and> live sim_view p d' \<and> p \<noteq> null_ptr) \<and>
           (\<forall>p. p \<notin> set (take (unat n) raw') \<longrightarrow> same_mbuf sim_dpdk sim_view p d d') \<and>
           (\<forall>p a. live sim_view p d \<and> area_lo sim_view p \<le> a \<and> a < area_hi sim_view p \<longrightarrow> m' a = m a)"
    using S by (auto simp: sim_dpdk_def sim_view_def sim_rx_burst_def loop n t same_mbuf_def
        sim_holds_def sim_mtod_def intro: sim_tailroom_cong)
qed

lemma sim_dpdk_laws: "dpdk_laws sim_dpdk sim_view"
  by (simp add: dpdk_laws_def sim_mbuf_laws sim_rx_burst_law sim_tx_burst_law)

end
