(* ===== verification/Eal.thy ===== *)
theory Eal
  imports Dpdk_Sim
begin

section \<open>The environment abstraction layer and thread registration\<close>

text \<open>
  A model of \<^verbatim>\<open>dpdk-net/src/api/rte/eal.rs\<close> and \<^verbatim>\<open>thread.rs\<close>: the typed options and their
  command-line arguments, the builder, and the guard that owns the initialised environment. The
  process-wide flag \<open>EAL_INITIALIZED\<close> is part of the \<open>world\<close>. A call that may panic returns an
  \<open>outcome\<close> beside the state, because the flag outlives the panic.

  The step relation \<open>eal_step\<close> lists what a process can do with the guard; the invariant shows
  that at most one guard exists at a time.
\<close>

subsection \<open>Options\<close>

datatype ProcessType = Primary | Secondary | Auto

datatype LogLevel = Emergency | Alert | Critical | LogError | Warning | Notice | Info | Debug | Level u8

datatype EalOption = ProgramName string | NoHuge | NoPci | Vdev string | CoreMask string | CoreList string
  | MemoryChannels u32 | ProcessTypeOpt ProcessType | FilePrefix string | SocketMem string
  | LogLevelOpt LogLevel | InMemory | BaseVirtAddr string | Allow string | Custom string

primrec process_type_as_str :: "ProcessType \<Rightarrow> string" where
  "process_type_as_str Primary = ''primary''"
| "process_type_as_str Secondary = ''secondary''"
| "process_type_as_str Auto = ''auto''"

primrec log_level_as_str :: "LogLevel \<Rightarrow> string" where
  "log_level_as_str Emergency = ''1''"
| "log_level_as_str Alert = ''2''"
| "log_level_as_str Critical = ''3''"
| "log_level_as_str LogError = ''4''"
| "log_level_as_str Warning = ''5''"
| "log_level_as_str Notice = ''6''"
| "log_level_as_str Info = ''7''"
| "log_level_as_str Debug = ''8''"
| "log_level_as_str (Level n) = show_nat (unat n)"

primrec to_args :: "EalOption \<Rightarrow> string list" where
  "to_args (ProgramName nm) = [nm]"
| "to_args NoHuge = [''--no-huge'']"
| "to_args NoPci = [''--no-pci'']"
| "to_args (Vdev dev) = [''--vdev='' @ dev]"
| "to_args (CoreMask hex) = [''-c'', hex]"
| "to_args (CoreList l) = [''-l'', l]"
| "to_args (MemoryChannels n) = [''-n'', show_nat (unat n)]"
| "to_args (ProcessTypeOpt pt) = [''--proc-type='' @ process_type_as_str pt]"
| "to_args (FilePrefix prefix) = [''--file-prefix='' @ prefix]"
| "to_args (SocketMem amounts) = [''--socket-mem='' @ amounts]"
| "to_args (LogLevelOpt level) = [''--log-level='' @ log_level_as_str level]"
| "to_args InMemory = [''--in-memory'']"
| "to_args (BaseVirtAddr addr) = [''--base-virtaddr='' @ addr]"
| "to_args (Allow pci_addr) = [''-a'', pci_addr]"
| "to_args (Custom arg) = [arg]"

subsection \<open>The builder\<close>

record EalBuilder =
  eal_program_name :: "string option"
  eal_options :: "EalOption list"

definition eal_builder_new :: EalBuilder where
  "eal_builder_new = \<lparr>eal_program_name = None, eal_options = []\<rparr>"

definition eal_set_program_name :: "string \<Rightarrow> EalBuilder \<Rightarrow> EalBuilder" where
  "eal_set_program_name nm b = b\<lparr>eal_program_name := Some nm\<rparr>"

text \<open>\<open>option\<close>; the methods that name one option push it in the same way.\<close>

definition eal_option :: "EalOption \<Rightarrow> EalBuilder \<Rightarrow> EalBuilder" where
  "eal_option opt b = b\<lparr>eal_options := eal_options b @ [opt]\<rparr>"

definition eal_no_huge :: "EalBuilder \<Rightarrow> EalBuilder" where "eal_no_huge = eal_option NoHuge"
definition eal_no_pci :: "EalBuilder \<Rightarrow> EalBuilder" where "eal_no_pci = eal_option NoPci"
definition eal_vdev :: "string \<Rightarrow> EalBuilder \<Rightarrow> EalBuilder" where "eal_vdev device = eal_option (Vdev device)"
definition eal_core_mask :: "string \<Rightarrow> EalBuilder \<Rightarrow> EalBuilder" where "eal_core_mask hex = eal_option (CoreMask hex)"
definition eal_core_list :: "string \<Rightarrow> EalBuilder \<Rightarrow> EalBuilder" where "eal_core_list l = eal_option (CoreList l)"
definition eal_memory_channels :: "u32 \<Rightarrow> EalBuilder \<Rightarrow> EalBuilder" where
  "eal_memory_channels n = eal_option (MemoryChannels n)"
definition eal_process_type :: "ProcessType \<Rightarrow> EalBuilder \<Rightarrow> EalBuilder" where
  "eal_process_type pt = eal_option (ProcessTypeOpt pt)"
definition eal_file_prefix :: "string \<Rightarrow> EalBuilder \<Rightarrow> EalBuilder" where
  "eal_file_prefix prefix = eal_option (FilePrefix prefix)"
definition eal_socket_mem :: "string \<Rightarrow> EalBuilder \<Rightarrow> EalBuilder" where
  "eal_socket_mem amounts = eal_option (SocketMem amounts)"
definition eal_log_level :: "LogLevel \<Rightarrow> EalBuilder \<Rightarrow> EalBuilder" where
  "eal_log_level level = eal_option (LogLevelOpt level)"
definition eal_in_memory :: "EalBuilder \<Rightarrow> EalBuilder" where "eal_in_memory = eal_option InMemory"
definition eal_allow :: "string \<Rightarrow> EalBuilder \<Rightarrow> EalBuilder" where "eal_allow pci_addr = eal_option (Allow pci_addr)"
definition eal_arg :: "string \<Rightarrow> EalBuilder \<Rightarrow> EalBuilder" where "eal_arg arg = eal_option (Custom arg)"

lemmas eal_setter_defs [setter_defs] =
  eal_set_program_name_def eal_option_def eal_no_huge_def eal_no_pci_def eal_vdev_def eal_core_mask_def
  eal_core_list_def eal_memory_channels_def eal_process_type_def eal_file_prefix_def eal_socket_mem_def
  eal_log_level_def eal_in_memory_def eal_allow_def eal_arg_def

text \<open>The program name defaults to the first of the process's own arguments (\<open>env_args\<close>).\<close>

definition build_args :: "string list \<Rightarrow> EalBuilder \<Rightarrow> string list" where
  "build_args env_args b =
     (let program_name = (case eal_program_name b of
            Some nm \<Rightarrow> nm
          | None \<Rightarrow> (case env_args of a # _ \<Rightarrow> a | [] \<Rightarrow> ''dpdk-app''))
      in program_name # concat (map to_args (eal_options b)))"

subsection \<open>Initialisation\<close>

definition cstring :: "string \<Rightarrow> string option" where
  "cstring s = (if CHR 0x00 \<in> set s then None else Some (s @ [CHR 0x00]))"

definition cstrings :: "string list \<Rightarrow> string list option" where
  "cstrings args = those (map cstring args)"

definition eal_init :: "'d dpdk \<Rightarrow> string list \<Rightarrow> 'd world \<Rightarrow> (unit, Errno) Result outcome \<times> 'd world" where
  "eal_init D args w =
     (let was = EAL_INITIALIZED w;
          w = w\<lparr>EAL_INITIALIZED := True\<rparr>
      in if was then (Ret (Err EALREADY), w)
         else (case cstrings args of
             None \<Rightarrow> (Panic ''argument contains null byte'', w)
           | Some argv \<Rightarrow>
               let (ret, d) = rte_eal_init D (int (length argv)) argv (rte w);
                   w = w\<lparr>rte := d\<rparr>
               in if ret < 0 then let w = w\<lparr>EAL_INITIALIZED := False\<rparr> in (Ret (Err (rte_errno D w)), w)
                  else (Ret (Ok ()), w)))"

definition eal_builder_init ::
  "'d dpdk \<Rightarrow> string list \<Rightarrow> EalBuilder \<Rightarrow> 'd world \<Rightarrow> (unit, Errno) Result outcome \<times> 'd world" where
  "eal_builder_init D env_args b w = eal_init D (build_args env_args b) w"

definition eal_is_initialized :: "'d world \<Rightarrow> bool" where
  "eal_is_initialized w = EAL_INITIALIZED w"

definition eal_drop :: "'d dpdk \<Rightarrow> 'd world \<Rightarrow> 'd world" where
  "eal_drop D w = (let (ret, d) = rte_eal_cleanup D (rte w) in w\<lparr>rte := d, EAL_INITIALIZED := False\<rparr>)"

text \<open>The functions without the guard do not look at the flag.\<close>

definition eal_raw_init :: "'d dpdk \<Rightarrow> string list \<Rightarrow> 'd world \<Rightarrow> (unit, Errno) Result outcome \<times> 'd world" where
  "eal_raw_init D args w =
     (case cstrings args of
        None \<Rightarrow> (Panic ''argument contains null byte'', w)
      | Some argv \<Rightarrow>
          let (ret, d) = rte_eal_init D (int (length argv)) argv (rte w);
              w = w\<lparr>rte := d\<rparr>
          in (Ret (check_rte_success D ret w), w))"

definition eal_raw_cleanup :: "'d dpdk \<Rightarrow> 'd world \<Rightarrow> (unit, Errno) Result \<times> 'd world" where
  "eal_raw_cleanup D w =
     (let (ret, d) = rte_eal_cleanup D (rte w); w = w\<lparr>rte := d\<rparr> in (check_rte_success D ret w, w))"

subsection \<open>Threads\<close>

text \<open>
  \<open>CpuSet\<close> and \<open>sched_setaffinity\<close> belong to the \<open>nix\<close> crate: the first refuses a core number
  beyond its size, the second is a system call; both are parameters.
\<close>

definition set_cpu_affinity ::
  "(usize \<Rightarrow> ('set, Errno) Result) \<Rightarrow> (int \<Rightarrow> 'set \<Rightarrow> 's \<Rightarrow> (unit, Errno) Result \<times> 's) \<Rightarrow> usize \<Rightarrow> 's \<Rightarrow>
     (unit, Errno) Result \<times> 's" where
  "set_cpu_affinity cpu_set_with sched_setaffinity cpu_id s =
     (case cpu_set_with cpu_id of
        Err e \<Rightarrow> (Err e, s)
      | Ok cpu_set \<Rightarrow> sched_setaffinity 0 cpu_set s)"

definition thread_registration_new :: "'d dpdk \<Rightarrow> 'd world \<Rightarrow> (unit, Errno) Result \<times> 'd world" where
  "thread_registration_new D w =
     (let (ret, d) = rte_thread_register D (rte w); w = w\<lparr>rte := d\<rparr> in (check_rte_success D ret w, w))"

definition thread_registration_try_new :: "'d dpdk \<Rightarrow> 'd world \<Rightarrow> unit option \<times> 'd world" where
  "thread_registration_try_new D w =
     (let (ret, d) = rte_thread_register D (rte w); w = w\<lparr>rte := d\<rparr>
      in (if ret = 0 then Some () else None, w))"

definition thread_registration_drop :: "'d dpdk \<Rightarrow> 'd world \<Rightarrow> 'd world" where
  "thread_registration_drop D w = w\<lparr>rte := rte_thread_unregister D (rte w)\<rparr>"

subsection \<open>The life of the guard\<close>

text \<open>What a process can do, with the number of guards that exist.\<close>

inductive eal_step :: "'d dpdk \<Rightarrow> nat \<times> 'd world \<Rightarrow> nat \<times> 'd world \<Rightarrow> bool" for D where
  init_ok: "eal_init D args w = (Ret (Ok ()), w') \<Longrightarrow> eal_step D (g, w) (Suc g, w')"
| init_err: "eal_init D args w = (Ret (Err e), w') \<Longrightarrow> eal_step D (g, w) (g, w')"
| init_panic: "eal_init D args w = (Panic msg, w') \<Longrightarrow> eal_step D (g, w) (g, w')"
| drop_guard: "eal_step D (Suc g, w) (g, eal_drop D w)"
| raw_init: "eal_raw_init D args w = (r, w') \<Longrightarrow> eal_step D (g, w) (g, w')"
| raw_cleanup: "eal_raw_cleanup D w = (r', w') \<Longrightarrow> eal_step D (g, w) (g, w')"

inductive_cases eal_stepE: "eal_step D s s'"

definition eal_inv :: "nat \<times> 'd world \<Rightarrow> bool" where
  "eal_inv s \<longleftrightarrow> (case s of (g, w) \<Rightarrow> g \<le> 1 \<and> (g = 1 \<longrightarrow> EAL_INITIALIZED w))"

lemma eal_init_flag:
  assumes "eal_init D args w = (r, w')"
  shows "EAL_INITIALIZED w \<Longrightarrow> r = Ret (Err EALREADY) \<and> w' = w"
    and "r = Ret (Ok ()) \<Longrightarrow> \<not> EAL_INITIALIZED w \<and> EAL_INITIALIZED w'"
  using assms by (auto simp: eal_init_def Let_def split: option.splits prod.splits if_splits)

lemma eal_raw_flag:
  "eal_raw_init D args w = (r, w') \<Longrightarrow> EAL_INITIALIZED w' = EAL_INITIALIZED w"
  "eal_raw_cleanup D w = (r', w') \<Longrightarrow> EAL_INITIALIZED w' = EAL_INITIALIZED w"
  by (auto simp: eal_raw_init_def eal_raw_cleanup_def Let_def split: option.splits prod.splits)

lemma eal_step_inv: "eal_step D s s' \<Longrightarrow> eal_inv s \<Longrightarrow> eal_inv s'"
proof (induction rule: eal_step.induct)
  case (init_ok args w w' g)
  then show ?case using eal_init_flag(2) [OF init_ok(1)] by (auto simp: eal_inv_def le_Suc_eq)
next
  case (init_err args w e w' g)
  then show ?case using eal_init_flag(1) [OF init_err(1)] by (auto simp: eal_inv_def)
next
  case (init_panic args w msg w' g)
  then show ?case using eal_init_flag(1) [OF init_panic(1)] by (auto simp: eal_inv_def)
qed (auto simp: eal_inv_def eal_raw_flag)

lemma eal_reachable_inv: "(eal_step D)\<^sup>*\<^sup>* s s' \<Longrightarrow> eal_inv s \<Longrightarrow> eal_inv s'"
  by (induction rule: rtranclp_induct) (auto intro: eal_step_inv)

subsection \<open>Properties\<close>

text \<open>
  (C34) However a process initialises, drops and re-initialises the environment, there is never
  more than one guard, and while one exists a further initialisation fails with \<open>EALREADY\<close>
  without calling into DPDK or changing anything.
\<close>

theorem eal_single_guard:
  assumes "(eal_step D)\<^sup>*\<^sup>* (0, w0) (g, w)" and "\<not> EAL_INITIALIZED w0"
  shows "g \<le> 1 \<and> (g = 1 \<longrightarrow> eal_is_initialized w \<and> eal_init D args w = (Ret (Err EALREADY), w))"
proof -
  have "eal_inv (g, w)" by (rule eal_reachable_inv [OF assms(1)]) (simp add: eal_inv_def)
  then show ?thesis
    by (auto simp: eal_inv_def eal_is_initialized_def eal_init_def)
qed

theorem eal_single_guard_witness:
  "\<exists>w. (eal_step sim_dpdk)\<^sup>*\<^sup>* (0, sim_world [] [] 0) (1, w) \<and> eal_init sim_dpdk [''p''] w = (Ret (Err EALREADY), w)"
proof -
  let ?w = "(sim_world [] [] 0)\<lparr>rte := snd (sim_call ''init'' (rte (sim_world [] [] 0))), EAL_INITIALIZED := True\<rparr>"
  have w: "eal_init sim_dpdk [''p''] (sim_world [] [] 0) = (Ret (Ok ()), ?w)"
    by (simp add: eal_init_def cstrings_def cstring_def sim_world_def sim_call_def)
  have "(eal_step sim_dpdk)\<^sup>*\<^sup>* (0, sim_world [] [] 0) (1, ?w)"
    using eal_step.init_ok [OF w, of 0] by (simp add: r_into_rtranclp)
  moreover have "\<not> EAL_INITIALIZED (sim_world [] [] 0)" by (simp add: sim_world_def)
  ultimately show ?thesis using eal_single_guard by blast
qed

text \<open>
 What initialisation does on every path when no guard exists: it passes the arguments,
  each terminated by a NUL, to DPDK once; it keeps the flag set exactly when DPDK accepted, so
  that a failed attempt can be repeated; and an argument with an interior NUL panics.
\<close>

theorem eal_init_paths:
  assumes "\<not> EAL_INITIALIZED w"
  shows "if (\<exists>a \<in> set args. CHR 0x00 \<in> set a)
    then fst (eal_init D args w) = Panic ''argument contains null byte''
    else (\<exists>ret d. rte_eal_init D (int (length args)) (map (\<lambda>a. a @ [CHR 0x00]) args) (rte w) = (ret, d) \<and>
      snd (eal_init D args w) = w\<lparr>rte := d, EAL_INITIALIZED := ret \<ge> 0\<rparr> \<and>
      (if ret < 0 then \<exists>e. fst (eal_init D args w) = Ret (Err e) else fst (eal_init D args w) = Ret (Ok ())))"
proof -
  have c: "cstrings args = (if \<exists>a \<in> set args. CHR 0x00 \<in> set a then None
      else Some (map (\<lambda>a. a @ [CHR 0x00]) args))"
    by (induction args) (auto simp: cstrings_def cstring_def)
  show ?thesis
    using assms by (auto simp: eal_init_def c Let_def split: prod.splits)
qed

theorem eal_init_paths_witness:
  "fst (eal_init sim_dpdk [''p'', ''--no-huge''] (sim_world [] [] 0)) = Ret (Ok ())"
proof -
  have "\<not> EAL_INITIALIZED (sim_world [] [] 0)" by (simp add: sim_world_def)
  from eal_init_paths [OF this, of "[''p'', ''--no-huge'']" sim_dpdk] show ?thesis
    by (auto simp: sim_call_def split: if_splits)
qed

text \<open>
  An argument with an interior NUL byte leaves the process unable to initialise the
  environment: the panic leaves the flag set although DPDK was never called, and every later
  attempt, with good arguments too, fails with \<open>EALREADY\<close>.
\<close>

theorem eal_init_panic_locks:
  assumes "eal_init D args w = (Panic msg, w')"
  shows "rte w' = rte w \<and> EAL_INITIALIZED w' \<and> eal_init D args' w' = (Ret (Err EALREADY), w')"
  using assms
  by (auto simp: eal_init_def Let_def split: option.splits prod.splits if_splits)

theorem eal_init_panic_locks_witness:
  "let w' = snd (eal_init sim_dpdk [[CHR 0x00]] (sim_world [] [] 0))
   in eal_init sim_dpdk [''p''] w' = (Ret (Err EALREADY), w')"
proof -
  have "eal_init sim_dpdk [[CHR 0x00]] (sim_world [] [] 0) =
      (Panic ''argument contains null byte'', (sim_world [] [] 0)\<lparr>EAL_INITIALIZED := True\<rparr>)"
    by (simp add: eal_init_def cstrings_def cstring_def sim_world_def)
  from eal_init_panic_locks [OF this, of "[''p'']"] this show ?thesis by simp
qed

text \<open>
 The arguments handed to DPDK are the program name, given or else the process's own,
  followed by the arguments of the options in the order in which the builder received them.
\<close>

theorem build_args_in_order:
  "build_args env (fold eal_option opts (case nm of None \<Rightarrow> eal_builder_new | Some n \<Rightarrow> eal_set_program_name n eal_builder_new))
     = (case nm of Some n \<Rightarrow> n | None \<Rightarrow> if env = [] then ''dpdk-app'' else hd env) # concat (map to_args opts)"
proof -
  have "fold eal_option opts b = b\<lparr>eal_options := eal_options b @ opts\<rparr>" for b
    by (induction opts arbitrary: b) (simp_all add: eal_option_def)
  then show ?thesis
    by (auto simp: build_args_def eal_builder_new_def eal_set_program_name_def split: option.splits list.splits)
qed

end
