(* ===== verification/Mbuf.thy ===== *)
theory Mbuf
  imports Dpdk_Sim
begin

section \<open>Packet buffers and memory pools\<close>

text \<open>
  A model of \<^verbatim>\<open>dpdk-net/src/api/rte/mbuf.rs\<close> and \<^verbatim>\<open>pktmbuf.rs\<close>. An \<open>Mbuf\<close> owns one
  \<open>rte_mbuf\<close>, given by its non-null address; a pool is given by its address. A mutable slice
  that a call returns is the pair of its address and its length: the caller writes through it
  with \<open>write_raw\<close>. Casts (\<open>len as u16\<close>) are \<open>of_nat\<close> at the width of the target.

  The lemmas show, from the documented behaviour of the packet-buffer functions, what
  \<open>copy_from_slice\<close>, \<open>append\<close>, \<open>extend\<close> and \<open>fill_batch\<close> do to the buffer they are
  called on, and that they leave every other live buffer alone; the locale \<open>packet_store\<close>
  is the contract the devices rely on.
\<close>

subsection \<open>Buffers\<close>

type_synonym Mbuf = ptr

definition non_null :: "ptr \<Rightarrow> Mbuf option" where
  "non_null p = (if p = null_ptr then None else Some p)"

definition mbuf_from_raw :: "ptr \<Rightarrow> Mbuf option" where
  "mbuf_from_raw p = non_null p"

definition mbuf_alloc :: "'d dpdk \<Rightarrow> ptr \<Rightarrow> 'd world \<Rightarrow> Mbuf option \<times> 'd world" where
  "mbuf_alloc D mempool w =
     (let (p, d) = pktmbuf_alloc D mempool (rte w) in (non_null p, w\<lparr>rte := d\<rparr>))"

definition mbuf_data_len :: "'d dpdk \<Rightarrow> Mbuf \<Rightarrow> 'd world \<Rightarrow> usize" where
  "mbuf_data_len D m w = unat (pktmbuf_data_len D m (rte w))"

definition mbuf_pkt_len :: "'d dpdk \<Rightarrow> Mbuf \<Rightarrow> 'd world \<Rightarrow> usize" where
  "mbuf_pkt_len D m w = unat (pktmbuf_pkt_len D m (rte w))"

definition mbuf_headroom :: "'d dpdk \<Rightarrow> Mbuf \<Rightarrow> 'd world \<Rightarrow> usize" where
  "mbuf_headroom D m w = unat (pktmbuf_headroom D m (rte w))"

definition mbuf_tailroom :: "'d dpdk \<Rightarrow> Mbuf \<Rightarrow> 'd world \<Rightarrow> usize" where
  "mbuf_tailroom D m w = unat (pktmbuf_tailroom D m (rte w))"

definition mbuf_capacity :: "'d dpdk \<Rightarrow> Mbuf \<Rightarrow> 'd world \<Rightarrow> usize" where
  "mbuf_capacity D m w = mbuf_data_len D m w + mbuf_tailroom D m w"

definition mbuf_data :: "'d dpdk \<Rightarrow> Mbuf \<Rightarrow> 'd world \<Rightarrow> bytes" where
  "mbuf_data D m w =
     (let p = pktmbuf_mtod D m (rte w);
          len = mbuf_data_len D m w
      in if p = null_ptr \<or> len = 0 then [] else from_raw_parts (mem w) p len)"

definition mbuf_data_mut :: "'d dpdk \<Rightarrow> Mbuf \<Rightarrow> 'd world \<Rightarrow> ptr \<times> usize" where
  "mbuf_data_mut D m w =
     (let p = pktmbuf_mtod D m (rte w);
          len = mbuf_data_len D m w
      in if p = null_ptr \<or> len = 0 then (null_ptr, 0) else (p, len))"

definition mbuf_append :: "'d dpdk \<Rightarrow> Mbuf \<Rightarrow> usize \<Rightarrow> 'd world \<Rightarrow> (ptr \<times> usize) option \<times> 'd world" where
  "mbuf_append D m len w =
     (if len > u16_max then (None, w)
      else let (p, d) = pktmbuf_append D m (of_nat len) (rte w);
               w = w\<lparr>rte := d\<rparr>
           in if p = null_ptr then (None, w) else (Some (p, len), w))"

definition mbuf_prepend :: "'d dpdk \<Rightarrow> Mbuf \<Rightarrow> usize \<Rightarrow> 'd world \<Rightarrow> (ptr \<times> usize) option \<times> 'd world" where
  "mbuf_prepend D m len w =
     (if len > u16_max then (None, w)
      else let (p, d) = pktmbuf_prepend D m (of_nat len) (rte w);
               w = w\<lparr>rte := d\<rparr>
           in if p = null_ptr then (None, w) else (Some (p, len), w))"

definition mbuf_adj :: "'d dpdk \<Rightarrow> Mbuf \<Rightarrow> usize \<Rightarrow> 'd world \<Rightarrow> bool \<times> 'd world" where
  "mbuf_adj D m len w =
     (if len > u16_max then (False, w)
      else let (p, d) = pktmbuf_adj D m (of_nat len) (rte w) in (p \<noteq> null_ptr, w\<lparr>rte := d\<rparr>))"

definition mbuf_trim :: "'d dpdk \<Rightarrow> Mbuf \<Rightarrow> usize \<Rightarrow> 'd world \<Rightarrow> bool \<times> 'd world" where
  "mbuf_trim D m len w =
     (if len > u16_max then (False, w)
      else let (r, d) = pktmbuf_trim D m (of_nat len) (rte w) in (r = 0, w\<lparr>rte := d\<rparr>))"

definition mbuf_reset :: "'d dpdk \<Rightarrow> Mbuf \<Rightarrow> 'd world \<Rightarrow> 'd world" where
  "mbuf_reset D m w = w\<lparr>rte := pktmbuf_reset D m (rte w)\<rparr>"

definition mbuf_extend :: "'d dpdk \<Rightarrow> Mbuf \<Rightarrow> usize \<Rightarrow> 'd world \<Rightarrow> 'd world" where
  "mbuf_extend D m len w =
     (let new_data_len = mbuf_data_len D m w + len;
          new_pkt_len = mbuf_pkt_len D m w + len;
          d = pktmbuf_set_data_len D m (of_nat new_data_len) (rte w);
          d = pktmbuf_set_pkt_len D m (of_nat new_pkt_len) d
      in w\<lparr>rte := d\<rparr>)"

definition mbuf_shrink :: "'d dpdk \<Rightarrow> Mbuf \<Rightarrow> usize \<Rightarrow> 'd world \<Rightarrow> 'd world" where
  "mbuf_shrink D m len w =
     (let new_data_len = mbuf_data_len D m w - len;
          new_pkt_len = mbuf_pkt_len D m w - len;
          d = pktmbuf_set_data_len D m (of_nat new_data_len) (rte w);
          d = pktmbuf_set_pkt_len D m (of_nat new_pkt_len) d
      in w\<lparr>rte := d\<rparr>)"

definition mbuf_copy_from_slice :: "'d dpdk \<Rightarrow> Mbuf \<Rightarrow> bytes \<Rightarrow> 'd world \<Rightarrow> bool \<times> 'd world" where
  "mbuf_copy_from_slice D m bs w =
     (case mbuf_append D m (length bs) (mbuf_reset D m w) of
        (Some (p, n), w) \<Rightarrow> (True, w\<lparr>mem := write_raw (mem w) p bs\<rparr>)
      | (None, w) \<Rightarrow> (False, w))"

definition mbuf_drop :: "'d dpdk \<Rightarrow> Mbuf \<Rightarrow> 'd world \<Rightarrow> 'd world" where
  "mbuf_drop D m w = w\<lparr>rte := pktmbuf_free D m (rte w)\<rparr>"

text \<open>\<open>Debug\<close>: the fields it prints.\<close>

definition mbuf_debug :: "'d dpdk \<Rightarrow> Mbuf \<Rightarrow> 'd world \<Rightarrow> (string \<times> usize) list" where
  "mbuf_debug D m w =
     [(''data_len'', mbuf_data_len D m w), (''pkt_len'', mbuf_pkt_len D m w),
      (''headroom'', mbuf_headroom D m w), (''tailroom'', mbuf_tailroom D m w)]"

subsection \<open>Pools\<close>

text \<open>
  The loop of \<open>fill_batch\<close>, over the allocation it calls; \<open>N\<close> is the capacity of the batch.
\<close>

function fill_loop :: "('w \<Rightarrow> 'b option \<times> 'w) \<Rightarrow> nat \<Rightarrow> 'b list \<Rightarrow> usize \<Rightarrow> 'w \<Rightarrow> usize \<times> 'b list \<times> 'w" where
  "fill_loop try_alloc N batch count w =
     (if length batch < N then
        (case try_alloc w of
           (Some mbuf, w) \<Rightarrow> fill_loop try_alloc N (batch @ [mbuf]) (count + 1) w
         | (None, w) \<Rightarrow> (count, batch, w))
      else (count, batch, w))"
  by pat_completeness auto

termination
  by (relation "measure (\<lambda>(try_alloc, N, batch, count, w). N - length batch)") auto

declare fill_loop.simps [simp del]

text \<open>\<open>MemPoolRef\<close> and \<open>MemPool\<close> have the same loop, the first over its own allocation.\<close>

definition mempool_ref_try_alloc :: "'d dpdk \<Rightarrow> ptr \<Rightarrow> 'd world \<Rightarrow> Mbuf option \<times> 'd world" where
  "mempool_ref_try_alloc D pool w =
     (let (p, d) = pktmbuf_alloc D pool (rte w) in (mbuf_from_raw p, w\<lparr>rte := d\<rparr>))"

definition mempool_ref_fill_batch ::
  "'d dpdk \<Rightarrow> ptr \<Rightarrow> nat \<Rightarrow> Mbuf list \<Rightarrow> 'd world \<Rightarrow> usize \<times> Mbuf list \<times> 'd world" where
  "mempool_ref_fill_batch D pool N batch w = fill_loop (mempool_ref_try_alloc D pool) N batch 0 w"

definition mempool_try_alloc :: "'d dpdk \<Rightarrow> ptr \<Rightarrow> 'd world \<Rightarrow> Mbuf option \<times> 'd world" where
  "mempool_try_alloc D pool w = mbuf_alloc D pool w"

definition mempool_fill_batch ::
  "'d dpdk \<Rightarrow> ptr \<Rightarrow> nat \<Rightarrow> Mbuf list \<Rightarrow> 'd world \<Rightarrow> usize \<times> Mbuf list \<times> 'd world" where
  "mempool_fill_batch D pool N batch w = fill_loop (mempool_try_alloc D pool) N batch 0 w"

record MemPoolConfig =
  cfg_num_mbufs :: u32
  cfg_cache_size :: u32
  cfg_priv_size :: u16
  cfg_data_room_size :: u16
  cfg_socket_id :: int

text \<open>
  The two constants of the default data room (\<open>RTE_MBUF_DEFAULT_DATAROOM\<close> and
  \<open>RTE_PKTMBUF_HEADROOM\<close>) come from DPDK's headers; the sum is a \<open>u16\<close>.
\<close>

definition mempool_config_default :: "u16 \<Rightarrow> u16 \<Rightarrow> MemPoolConfig" where
  "mempool_config_default dataroom headroom =
     \<lparr>cfg_num_mbufs = 8191, cfg_cache_size = 256, cfg_priv_size = 0,
      cfg_data_room_size = dataroom + headroom, cfg_socket_id = -1\<rparr>"

definition set_num_mbufs :: "u32 \<Rightarrow> MemPoolConfig \<Rightarrow> MemPoolConfig" where
  "set_num_mbufs n c = c\<lparr>cfg_num_mbufs := n\<rparr>"

definition set_cache_size :: "u32 \<Rightarrow> MemPoolConfig \<Rightarrow> MemPoolConfig" where
  "set_cache_size n c = c\<lparr>cfg_cache_size := n\<rparr>"

definition set_priv_size :: "u16 \<Rightarrow> MemPoolConfig \<Rightarrow> MemPoolConfig" where
  "set_priv_size n c = c\<lparr>cfg_priv_size := n\<rparr>"

definition set_data_room_size :: "u16 \<Rightarrow> MemPoolConfig \<Rightarrow> MemPoolConfig" where
  "set_data_room_size n c = c\<lparr>cfg_data_room_size := n\<rparr>"

definition set_socket_id :: "int \<Rightarrow> MemPoolConfig \<Rightarrow> MemPoolConfig" where
  "set_socket_id n c = c\<lparr>cfg_socket_id := n\<rparr>"

text \<open>\<open>CString::new\<close> fails on an interior NUL; else it appends the terminating one.\<close>

definition cstring_new :: "bytes \<Rightarrow> bytes option" where
  "cstring_new bs = (if 0 \<in> set bs then None else Some (bs @ [0]))"

definition mempool_create :: "'d dpdk \<Rightarrow> bytes \<Rightarrow> MemPoolConfig \<Rightarrow> 'd world \<Rightarrow> (ptr, Errno) Result \<times> 'd world" where
  "mempool_create D nm config w =
     (case cstring_new nm of
        None \<Rightarrow> (Err EINVAL, w)
      | Some c_name \<Rightarrow>
          let (p, d) = pktmbuf_pool_create D c_name (cfg_num_mbufs config) (cfg_cache_size config)
                         (cfg_priv_size config) (cfg_data_room_size config) (cfg_socket_id config) (rte w);
              w = w\<lparr>rte := d\<rparr>
          in (case non_null p of Some pool \<Rightarrow> (Ok pool, w) | None \<Rightarrow> (Err (rte_errno D w), w)))"

definition mempool_create_default ::
  "'d dpdk \<Rightarrow> u16 \<Rightarrow> u16 \<Rightarrow> bytes \<Rightarrow> u32 \<Rightarrow> 'd world \<Rightarrow> (ptr, Errno) Result \<times> 'd world" where
  "mempool_create_default D dataroom headroom nm n w =
     mempool_create D nm ((mempool_config_default dataroom headroom)\<lparr>cfg_num_mbufs := n\<rparr>) w"

definition mempool_lookup_ref :: "'d dpdk \<Rightarrow> bytes \<Rightarrow> 'd world \<Rightarrow> (ptr, Errno) Result" where
  "mempool_lookup_ref D nm w =
     (case cstring_new nm of
        None \<Rightarrow> Err EINVAL
      | Some c_name \<Rightarrow>
          (case non_null (mempool_lookup D c_name (rte w)) of
             Some pool \<Rightarrow> Ok pool | None \<Rightarrow> Err (rte_errno D w)))"

definition mempool_avail :: "'d dpdk \<Rightarrow> ptr \<Rightarrow> 'd world \<Rightarrow> u32" where
  "mempool_avail D pool w = mempool_avail_count D pool (rte w)"

definition mempool_data_room_size :: "'d dpdk \<Rightarrow> ptr \<Rightarrow> 'd world \<Rightarrow> u16" where
  "mempool_data_room_size D pool w = pktmbuf_data_room_size D pool (rte w)"

definition mempool_drop :: "'d dpdk \<Rightarrow> ptr \<Rightarrow> 'd world \<Rightarrow> 'd world" where
  "mempool_drop D pool w = w\<lparr>rte := mempool_free D pool (rte w)\<rparr>"

lemmas pool_setter_defs [setter_defs] =
  set_num_mbufs_def set_cache_size_def set_priv_size_def set_data_room_size_def set_socket_id_def

lemma mempool_ref_try_alloc_eq: "mempool_ref_try_alloc D pool w = mempool_try_alloc D pool w"
  by (simp add: mempool_ref_try_alloc_def mempool_try_alloc_def mbuf_alloc_def mbuf_from_raw_def)

text \<open>
  The idiom of the devices: allocate, copy a frame in, and drop the buffer again if it does
  not fit (\<open>if let Some(mut mbuf) = self.mempool.try_alloc() && mbuf.copy_from_slice(data)\<close>).
\<close>

definition alloc_copied :: "'d dpdk \<Rightarrow> ptr \<Rightarrow> bytes \<Rightarrow> 'd world \<Rightarrow> Mbuf option \<times> 'd world" where
  "alloc_copied D pool bs w =
     (case mempool_try_alloc D pool w of
        (None, w) \<Rightarrow> (None, w)
      | (Some mbuf, w) \<Rightarrow>
          (case mbuf_copy_from_slice D mbuf bs w of
             (True, w) \<Rightarrow> (Some mbuf, w)
           | (False, w) \<Rightarrow> (None, mbuf_drop D mbuf w)))"

subsection \<open>What an operation leaves alone\<close>

definition mbuf_live :: "'d view \<Rightarrow> 'd world \<Rightarrow> Mbuf \<Rightarrow> bool" where
  "mbuf_live V w m \<longleftrightarrow> live V m (rte w)"

text \<open>Outside \<open>S\<close>, no buffer is allocated, freed or changed; the ARP caches are untouched.\<close>

definition keeps :: "'d dpdk \<Rightarrow> 'd view \<Rightarrow> Mbuf set \<Rightarrow> 'd world \<Rightarrow> 'd world \<Rightarrow> bool" where
  "keeps D V S w w' \<longleftrightarrow> caches w' = caches w \<and>
     (\<forall>m. m \<notin> S \<longrightarrow> mbuf_live V w' m = mbuf_live V w m \<and>
        (mbuf_live V w m \<longrightarrow> mbuf_data D m w' = mbuf_data D m w))"

lemma keeps_refl [simp]: "keeps D V S w w"
  by (simp add: keeps_def)

lemma keeps_trans: "keeps D V S w w' \<Longrightarrow> keeps D V T w' w'' \<Longrightarrow> keeps D V (S \<union> T) w w''"
  by (auto simp: keeps_def)

lemma keepsD:
  assumes "keeps D V S w w'" and "m \<notin> S"
  shows "mbuf_live V w' m = mbuf_live V w m"
    and "mbuf_live V w m \<Longrightarrow> mbuf_data D m w' = mbuf_data D m w"
  using assms by (auto simp: keeps_def)

lemma keeps_caches: "keeps D V S w w' \<Longrightarrow> caches w' = caches w"
  by (simp add: keeps_def)

lemma keeps_not_live:
  assumes "keeps D V S w w'" and "\<forall>m \<in> S. \<not> mbuf_live V w m \<and> \<not> mbuf_live V w' m"
  shows "keeps D V {} w w'"
  using assms by (auto simp: keeps_def)

text \<open>Same header and same bytes in its area: same data.\<close>

lemma mbuf_data_same:
  assumes laws: "mbuf_laws D V" and "live V m (rte w)" and same: "same_mbuf D V m (rte w) (rte w')"
    and area: "\<And>a. area_lo V m \<le> a \<Longrightarrow> a < area_hi V m \<Longrightarrow> mem w' a = mem w a"
  shows "mbuf_data D m w' = mbuf_data D m w"
proof -
  have "area_lo V m \<le> pktmbuf_mtod D m (rte w)"
    and "pktmbuf_mtod D m (rte w) + unat (pktmbuf_data_len D m (rte w)) \<le> area_hi V m"
    using area_lawsD(3,4) [OF laws assms(2)] by linarith+
  then have "from_raw_parts (mem w') (pktmbuf_mtod D m (rte w)) (unat (pktmbuf_data_len D m (rte w)))
      = from_raw_parts (mem w) (pktmbuf_mtod D m (rte w)) (unat (pktmbuf_data_len D m (rte w)))"
    by (intro from_raw_parts_cong area) auto
  then show ?thesis
    using same assms(2) by (simp add: mbuf_data_def mbuf_data_len_def same_mbuf_def Let_def)
qed

lemma keepsI:
  assumes "mbuf_laws D V"
    and "\<And>m. m \<notin> S \<Longrightarrow> same_mbuf D V m (rte w) (rte w')"
    and "\<And>m a. m \<notin> S \<Longrightarrow> live V m (rte w) \<Longrightarrow> area_lo V m \<le> a \<Longrightarrow> a < area_hi V m \<Longrightarrow> mem w' a = mem w a"
    and "caches w' = caches w"
  shows "keeps D V S w w'"
  unfolding keeps_def mbuf_live_def
proof (intro conjI allI impI)
  fix m assume m: "m \<notin> S"
  then show "live V m (rte w') = live V m (rte w)"
    using assms(2) by (simp add: same_mbuf_def)
  assume "live V m (rte w)"
  then show "mbuf_data D m w' = mbuf_data D m w"
    using m assms by (intro mbuf_data_same [of D V]) auto
qed (fact assms(4))

subsection \<open>The operations under DPDK's documented behaviour\<close>

lemma mbuf_alloc_Some:
  assumes "mbuf_laws D V" and "mbuf_alloc D pool w = (Some m, w')"
  shows "\<not> mbuf_live V w m" "mbuf_live V w' m" "mbuf_data D m w' = []" "keeps D V {m} w w'"
    "mbuf_data_len D m w' = 0" "mbuf_pkt_len D m w' = 0"
proof -
  obtain d where al: "pktmbuf_alloc D pool (rte w) = (m, d)" and "m \<noteq> 0" and w': "w' = w\<lparr>rte := d\<rparr>"
    using assms(2) by (auto simp: mbuf_alloc_def non_null_def split: prod.splits if_splits)
  from mbuf_lawsD(2) [OF assms(1)] al \<open>m \<noteq> 0\<close>
  have l: "\<not> live V m (rte w)" "live V m d" "pktmbuf_data_len D m d = 0" "pktmbuf_pkt_len D m d = 0"
    and s: "\<And>m'. m' \<noteq> m \<Longrightarrow> same_mbuf D V m' (rte w) d"
    unfolding alloc_law_def by (fastforce split: prod.splits)+
  show "keeps D V {m} w w'"
    by (rule keepsI [OF assms(1)]) (auto simp: w' s)
  show "\<not> mbuf_live V w m" "mbuf_live V w' m" "mbuf_data D m w' = []"
    "mbuf_data_len D m w' = 0" "mbuf_pkt_len D m w' = 0"
    using l by (simp_all add: mbuf_live_def mbuf_data_def mbuf_data_len_def mbuf_pkt_len_def w')
qed

lemma mbuf_alloc_None:
  assumes "mbuf_laws D V" and "mbuf_alloc D pool w = (None, w')"
  shows "keeps D V {} w w'"
proof -
  obtain d where al: "pktmbuf_alloc D pool (rte w) = (0, d)" and w': "w' = w\<lparr>rte := d\<rparr>"
    using assms(2) by (auto simp: mbuf_alloc_def non_null_def split: prod.splits if_splits)
  have "same_mbuf D V m (rte w) d" for m
    using mbuf_lawsD(2) [OF assms(1)] al unfolding alloc_law_def by (fastforce split: prod.splits)
  then show ?thesis
    by (intro keepsI [OF assms(1)]) (auto simp: w')
qed

lemma mbuf_drop_spec:
  assumes "mbuf_laws D V" and "mbuf_live V w m"
  shows "\<not> mbuf_live V (mbuf_drop D m w) m" "keeps D V {m} w (mbuf_drop D m w)"
  using mbuf_lawsD(3) [OF assms(1), unfolded free_law_def, rule_format, OF assms(2) [unfolded mbuf_live_def]]
  by (auto simp: mbuf_live_def mbuf_drop_def intro!: keepsI [OF assms(1)])

lemma mbuf_reset_spec:
  assumes "mbuf_laws D V" and "mbuf_live V w m"
  shows "mbuf_live V (mbuf_reset D m w) m" "mbuf_data D m (mbuf_reset D m w) = []"
    "mbuf_data_len D m (mbuf_reset D m w) = 0" "keeps D V {m} w (mbuf_reset D m w)"
  using mbuf_lawsD(4) [OF assms(1), unfolded reset_law_def, rule_format, OF assms(2) [unfolded mbuf_live_def]]
  by (auto simp: mbuf_live_def mbuf_reset_def mbuf_data_def mbuf_data_len_def
      intro!: keepsI [OF assms(1)])

lemma mbuf_append_cases:
  assumes laws: "mbuf_laws D V" and l: "mbuf_live V w m"
  obtains (fits) d where "len \<le> mbuf_tailroom D m w"
      "mbuf_append D m len w = (Some (pktmbuf_mtod D m (rte w) + mbuf_data_len D m w, len), w\<lparr>rte := d\<rparr>)"
      "live V m d" "pktmbuf_mtod D m d = pktmbuf_mtod D m (rte w)"
      "unat (pktmbuf_data_len D m d) = mbuf_data_len D m w + len"
      "\<And>m'. m' \<noteq> m \<Longrightarrow> same_mbuf D V m' (rte w) d"
    | (full) "mbuf_tailroom D m w < len" "mbuf_append D m len w = (None, w)"
proof (cases "len \<le> mbuf_tailroom D m w")
  case True
  have le: "mbuf_data_len D m w + mbuf_tailroom D m w \<le> u16_max" and nz: "pktmbuf_mtod D m (rte w) \<noteq> 0"
    using area_lawsD(2,5) [OF laws l [unfolded mbuf_live_def]]
    by (simp_all add: mbuf_data_len_def mbuf_tailroom_def)
  then have len: "len \<le> u16_max" and sum: "mbuf_data_len D m w + len \<le> u16_max" using True by simp_all
  obtain p d where ap: "pktmbuf_append D m (of_nat len) (rte w) = (p, d)" by fastforce
  have law: "p = pktmbuf_mtod D m (rte w) + mbuf_data_len D m w \<and>
        live V m d \<and> pktmbuf_mtod D m d = pktmbuf_mtod D m (rte w) \<and>
        pktmbuf_data_len D m d = pktmbuf_data_len D m (rte w) + of_nat len \<and>
        (\<forall>m'. m' \<noteq> m \<longrightarrow> same_mbuf D V m' (rte w) d)"
    using mbuf_lawsD(5) [OF laws, unfolded append_law_def, rule_format, OF l [unfolded mbuf_live_def],
        of "of_nat len"] True ap len by (simp add: mbuf_data_len_def mbuf_tailroom_def)
  have "unat (pktmbuf_data_len D m d) = mbuf_data_len D m w + len"
    using law sum by (simp add: unat_plus_if_size word_size mbuf_data_len_def len)
  then show thesis
    using True law nz ap len by (intro fits [of d]) (auto simp: mbuf_append_def)
next
  case False
  show thesis
  proof (cases "len > u16_max")
    case True
    then show thesis using False by (intro full) (auto simp: mbuf_append_def)
  next
    case lenok: False
    then have "pktmbuf_append D m (of_nat len) (rte w) = (0, rte w)"
      using mbuf_lawsD(5) [OF laws, unfolded append_law_def, rule_format, OF l [unfolded mbuf_live_def],
        of "of_nat len"] False
      by (auto simp: mbuf_tailroom_def split: prod.splits)
    then show thesis using False lenok by (intro full) (auto simp: mbuf_append_def)
  qed
qed

text \<open>Writing inside a buffer's own area is not seen through any other.\<close>

lemma write_raw_outside:
  assumes "mbuf_laws D V" and "live V m d" and "live V m' d" and "m \<noteq> m'"
    and "area_lo V m \<le> p" and "p + length bs \<le> area_hi V m"
    and "area_lo V m' \<le> a" and "a < area_hi V m'"
  shows "write_raw mm p bs a = mm a"
  using area_disjoint [OF assms(1-4)] assms(5-8) by (auto simp: write_raw_def)

lemma mbuf_append_write:
  assumes laws: "mbuf_laws D V" and l: "mbuf_live V w m"
    and app: "mbuf_append D m (length bs) w = (Some (p, n), w')"
    and w'': "w'' = w'\<lparr>mem := write_raw (mem w') p bs\<rparr>"
  shows "n = length bs" "mbuf_live V w'' m" "mbuf_data D m w'' = mbuf_data D m w @ bs" "keeps D V {m} w w''"
proof -
  let ?q = "pktmbuf_mtod D m (rte w)" and ?k = "mbuf_data_len D m w"
  obtain d where fits: "length bs \<le> mbuf_tailroom D m w"
      and p: "p = ?q + ?k" and n: "n = length bs" and w': "w' = w\<lparr>rte := d\<rparr>"
      and d: "live V m d" "pktmbuf_mtod D m d = ?q" "unat (pktmbuf_data_len D m d) = ?k + length bs"
      and others: "\<And>m'. m' \<noteq> m \<Longrightarrow> same_mbuf D V m' (rte w) d"
    by (rule mbuf_append_cases [OF laws l, of "length bs"]) (use app in auto)
  have q: "?q \<noteq> 0" "area_lo V m \<le> ?q" "?q + ?k + length bs \<le> area_hi V m"
    using area_lawsD(2,3,4) [OF laws l [unfolded mbuf_live_def]] fits
    by (auto simp: mbuf_data_len_def mbuf_tailroom_def)
  show "n = length bs" by (fact n)
  show "mbuf_live V w'' m" using d(1) by (simp add: mbuf_live_def w'' w')
  show "keeps D V {m} w w''"
  proof (rule keepsI [OF laws])
    fix m' a assume "m' \<notin> {m}" "live V m' (rte w)" "area_lo V m' \<le> a" "a < area_hi V m'"
    then show "mem w'' a = mem w a"
      using write_raw_outside [OF laws l [unfolded mbuf_live_def], of m'] q by (simp add: w'' w' p)
  qed (use others in \<open>auto simp: w'' w'\<close>)
  show "mbuf_data D m w'' = mbuf_data D m w @ bs"
    using q d by (auto simp: Let_def mbuf_data_def mbuf_data_len_def w'' w' p from_raw_parts_append
        from_raw_parts_write_other)
qed

lemma mbuf_copy_from_slice_spec:
  assumes laws: "mbuf_laws D V" and l: "mbuf_live V w m"
    and cp: "mbuf_copy_from_slice D m bs w = (ok, w')"
  shows "ok \<longleftrightarrow> length bs \<le> mbuf_tailroom D m (mbuf_reset D m w)"
    and "mbuf_live V w' m" and "mbuf_data D m w' = (if ok then bs else [])" and "keeps D V {m} w w'"
proof -
  let ?w = "mbuf_reset D m w"
  note r = mbuf_reset_spec [OF laws l]
  show "ok \<longleftrightarrow> length bs \<le> mbuf_tailroom D m ?w"
    by (rule mbuf_append_cases [OF laws r(1), of "length bs"])
      (use cp in \<open>auto simp: mbuf_copy_from_slice_def\<close>)
  have "mbuf_live V w' m \<and> mbuf_data D m w' = (if ok then bs else []) \<and> keeps D V {m} w w'"
  proof (cases ok)
    case True
    then obtain p n w1 where app: "mbuf_append D m (length bs) ?w = (Some (p, n), w1)"
      and w': "w' = w1\<lparr>mem := write_raw (mem w1) p bs\<rparr>"
      using cp by (auto simp: mbuf_copy_from_slice_def split: prod.splits option.splits)
    from mbuf_append_write [OF laws r(1) app w'] r keeps_trans [OF r(4), of "{m}" w'] True
    show ?thesis by simp
  next
    case False
    have "w' = ?w"
      by (rule mbuf_append_cases [OF laws r(1), of "length bs"])
        (use cp False in \<open>auto simp: mbuf_copy_from_slice_def\<close>)
    then show ?thesis using r False by simp
  qed
  then show "mbuf_live V w' m" "mbuf_data D m w' = (if ok then bs else [])" "keeps D V {m} w w'"
    by simp_all
qed

text \<open>Setting both lengths to values the buffer has room for.\<close>

definition mbuf_set_lens :: "'d dpdk \<Rightarrow> Mbuf \<Rightarrow> u16 \<Rightarrow> u32 \<Rightarrow> 'd world \<Rightarrow> 'd world" where
  "mbuf_set_lens D m a b w =
     w\<lparr>rte := pktmbuf_set_pkt_len D m b (pktmbuf_set_data_len D m a (rte w))\<rparr>"

lemma mbuf_extend_set_lens:
  "mbuf_extend D m len w =
     mbuf_set_lens D m (of_nat (mbuf_data_len D m w + len)) (of_nat (mbuf_pkt_len D m w + len)) w"
  by (simp add: mbuf_extend_def mbuf_set_lens_def Let_def)

lemma mbuf_shrink_set_lens:
  "mbuf_shrink D m len w =
     mbuf_set_lens D m (of_nat (mbuf_data_len D m w - len)) (of_nat (mbuf_pkt_len D m w - len)) w"
  by (simp add: mbuf_shrink_def mbuf_set_lens_def Let_def)

lemma mbuf_set_lens_spec:
  fixes b
  assumes laws: "mbuf_laws D V" and l: "mbuf_live V w m" and a: "unat a \<le> mbuf_capacity D m w"
  defines "w' \<equiv> mbuf_set_lens D m a b w"
  shows "mbuf_live V w' m" "mbuf_data_len D m w' = unat a" "mbuf_pkt_len D m w' = unat b"
    "pktmbuf_mtod D m (rte w') = pktmbuf_mtod D m (rte w)" "mem w' = mem w" "keeps D V {m} w w'"
proof -
  let ?d = "pktmbuf_set_data_len D m a (rte w)"
  note L = mbuf_lawsD(6) [OF laws, unfolded set_len_laws_def]
  have d: "live V m ?d" "pktmbuf_data_len D m ?d = a" "pktmbuf_mtod D m ?d = pktmbuf_mtod D m (rte w)"
    "\<And>m'. m' \<noteq> m \<Longrightarrow> same_mbuf D V m' (rte w) ?d"
    using conjunct1 [OF L, rule_format, OF l [unfolded mbuf_live_def], of a] a
    by (simp_all add: mbuf_capacity_def mbuf_data_len_def mbuf_tailroom_def)
  note e = conjunct2 [OF L, rule_format, OF d(1), of b]
  show "mbuf_live V w' m" "mbuf_data_len D m w' = unat a" "mbuf_pkt_len D m w' = unat b"
    "pktmbuf_mtod D m (rte w') = pktmbuf_mtod D m (rte w)" "mem w' = mem w"
    using d e by (simp_all add: w'_def mbuf_set_lens_def mbuf_live_def mbuf_data_len_def mbuf_pkt_len_def)
  have "same_mbuf D V m' (rte w) (rte w')" if "m' \<noteq> m" for m'
    using same_mbuf_trans [OF d(4) [OF that]] e that by (simp add: w'_def mbuf_set_lens_def)
  then show "keeps D V {m} w w'"
    by (intro keepsI [OF laws]) (auto simp: w'_def mbuf_set_lens_def)
qed

lemma mbuf_extend_spec:
  assumes laws: "mbuf_laws D V" and l: "mbuf_live V w m" and len: "len \<le> mbuf_tailroom D m w"
  shows "mbuf_live V (mbuf_extend D m len w) m"
    and "mbuf_data_len D m (mbuf_extend D m len w) = mbuf_data_len D m w + len"
    and "mbuf_pkt_len D m (mbuf_extend D m len w) = (mbuf_pkt_len D m w + len) mod 2 ^ 32"
    and "pktmbuf_mtod D m (rte (mbuf_extend D m len w)) = pktmbuf_mtod D m (rte w)"
    and "mem (mbuf_extend D m len w) = mem w"
    and "keeps D V {m} w (mbuf_extend D m len w)"
proof -
  have "mbuf_data_len D m w + mbuf_tailroom D m w \<le> u16_max"
    using area_lawsD(5) [OF laws l [unfolded mbuf_live_def]] by (simp add: mbuf_data_len_def mbuf_tailroom_def)
  then have a: "unat (of_nat (mbuf_data_len D m w + len) :: u16) = mbuf_data_len D m w + len"
    using len by (intro unat_of_nat_u16) linarith
  have b: "unat (of_nat (mbuf_pkt_len D m w + len) :: u32) = (mbuf_pkt_len D m w + len) mod 2 ^ 32"
    by (subst unat_of_nat) simp
  note S = mbuf_set_lens_spec [OF laws l, of "of_nat (mbuf_data_len D m w + len)"
      "of_nat (mbuf_pkt_len D m w + len)", folded mbuf_extend_set_lens, unfolded a b]
  have "mbuf_data_len D m w + len \<le> mbuf_capacity D m w"
    using len by (simp add: mbuf_capacity_def)
  from S [OF this] show "mbuf_live V (mbuf_extend D m len w) m"
    "mbuf_data_len D m (mbuf_extend D m len w) = mbuf_data_len D m w + len"
    "mbuf_pkt_len D m (mbuf_extend D m len w) = (mbuf_pkt_len D m w + len) mod 2 ^ 32"
    "pktmbuf_mtod D m (rte (mbuf_extend D m len w)) = pktmbuf_mtod D m (rte w)"
    "mem (mbuf_extend D m len w) = mem w" "keeps D V {m} w (mbuf_extend D m len w)"
    by simp_all
qed

lemma mbuf_shrink_spec:
  assumes laws: "mbuf_laws D V" and l: "mbuf_live V w m"
  shows "mbuf_live V (mbuf_shrink D m len w) m"
    and "mbuf_data_len D m (mbuf_shrink D m len w) = mbuf_data_len D m w - len"
    and "mbuf_pkt_len D m (mbuf_shrink D m len w) = mbuf_pkt_len D m w - len"
    and "pktmbuf_mtod D m (rte (mbuf_shrink D m len w)) = pktmbuf_mtod D m (rte w)"
    and "mem (mbuf_shrink D m len w) = mem w"
    and "keeps D V {m} w (mbuf_shrink D m len w)"
proof -
  have a: "unat (of_nat (mbuf_data_len D m w - len) :: u16) = mbuf_data_len D m w - len"
    using unat_u16_le [of "pktmbuf_data_len D m (rte w)"]
    unfolding mbuf_data_len_def by (intro unat_of_nat_u16) linarith
  have "mbuf_pkt_len D m w < 2 ^ 32"
    unfolding mbuf_pkt_len_def by (rule order_less_le_trans [OF unsigned_less]) simp
  then have b: "unat (of_nat (mbuf_pkt_len D m w - len) :: u32) = mbuf_pkt_len D m w - len"
    by (subst unat_of_nat) simp
  note S = mbuf_set_lens_spec [OF laws l, of "of_nat (mbuf_data_len D m w - len)"
      "of_nat (mbuf_pkt_len D m w - len)", folded mbuf_shrink_set_lens, unfolded a b]
  have "mbuf_data_len D m w - len \<le> mbuf_capacity D m w"
    by (simp add: mbuf_capacity_def)
  from S [OF this] show "mbuf_live V (mbuf_shrink D m len w) m"
    "mbuf_data_len D m (mbuf_shrink D m len w) = mbuf_data_len D m w - len"
    "mbuf_pkt_len D m (mbuf_shrink D m len w) = mbuf_pkt_len D m w - len"
    "pktmbuf_mtod D m (rte (mbuf_shrink D m len w)) = pktmbuf_mtod D m (rte w)"
    "mem (mbuf_shrink D m len w) = mem w" "keeps D V {m} w (mbuf_shrink D m len w)"
    by simp_all
qed

subsection \<open>The contract the devices rely on\<close>

text \<open>
  A store of packets under the hypotheses \<open>laws\<close>: what is allocated was not held before, a
  buffer that was filled holds exactly the bytes, and no operation touches another buffer.
\<close>

locale packet_store =
  fixes laws :: bool
    and alive :: "'w \<Rightarrow> 'b \<Rightarrow> bool"
    and contents :: "'b \<Rightarrow> 'w \<Rightarrow> bytes"
    and unchanged :: "'b set \<Rightarrow> 'w \<Rightarrow> 'w \<Rightarrow> bool"
    and alloc :: "'w \<Rightarrow> 'b option \<times> 'w"
    and fill :: "'b \<Rightarrow> bytes \<Rightarrow> 'w \<Rightarrow> bool \<times> 'w"
    and release :: "'b \<Rightarrow> 'w \<Rightarrow> 'w"
  assumes unchanged_refl: "unchanged S w w"
    and unchanged_trans: "unchanged S w w' \<Longrightarrow> unchanged T w' w'' \<Longrightarrow> unchanged (S \<union> T) w w''"
    and unchanged_alive: "unchanged S w w' \<Longrightarrow> b \<notin> S \<Longrightarrow> alive w' b = alive w b"
    and unchanged_dead: "unchanged S w w' \<Longrightarrow> \<forall>b \<in> S. \<not> alive w b \<and> \<not> alive w' b \<Longrightarrow> unchanged {} w w'"
    and alloc_Some: "laws \<Longrightarrow> alloc w = (Some b, w') \<Longrightarrow> \<not> alive w b \<and> alive w' b \<and> unchanged {b} w w'"
    and alloc_None: "laws \<Longrightarrow> alloc w = (None, w') \<Longrightarrow> unchanged {} w w'"
    and fill_spec: "laws \<Longrightarrow> alive w b \<Longrightarrow> fill b bs w = (ok, w') \<Longrightarrow>
      alive w' b \<and> contents b w' = (if ok then bs else []) \<and> unchanged {b} w w'"
    and release_spec: "laws \<Longrightarrow> alive w b \<Longrightarrow> \<not> alive (release b w) b \<and> unchanged {b} w (release b w)"
begin

lemma place_Some:
  assumes "laws" and "alloc w = (Some b, w1)" and "fill b bs w1 = (True, w2)"
  shows "\<not> alive w b \<and> alive w2 b \<and> contents b w2 = bs \<and> unchanged {b} w w2"
  using alloc_Some [OF assms(1,2)] fill_spec [OF assms(1) _ assms(3)] unchanged_trans [of "{b}" w w1 "{b}" w2]
  by auto

lemma place_drop:
  assumes "laws" and "alloc w = (Some b, w1)" and "fill b bs w1 = (False, w2)"
  shows "unchanged {} w (release b w2)"
proof -
  have "\<not> alive w b" "alive w2 b" "unchanged {b} w w2"
    using alloc_Some [OF assms(1,2)] fill_spec [OF assms(1) _ assms(3)] unchanged_trans [of "{b}" w w1 "{b}" w2]
    by auto
  then show ?thesis
    using release_spec [OF assms(1), of w2 b] unchanged_trans [of "{b}" w w2 "{b}" "release b w2"]
    by (intro unchanged_dead [of "{b}"]) auto
qed

lemma fill_loop_spec:
  assumes "laws" and "fill_loop alloc N batch c w = (c', batch', w')"
  shows "\<exists>new. batch' = batch @ new \<and> c' = c + length new \<and> distinct new \<and>
    (\<forall>b \<in> set new. \<not> alive w b \<and> alive w' b) \<and> unchanged (set new) w w' \<and>
    (length batch \<le> N \<longrightarrow> length batch' \<le> N) \<and>
    (length batch' < N \<longrightarrow> (\<exists>w1. alloc w1 = (None, w')))"
  using assms(2)
proof (induction "N - length batch" arbitrary: batch c w)
  case 0
  then show ?case by (auto simp: fill_loop.simps [of alloc N batch] unchanged_refl)
next
  case (Suc k)
  then have room: "length batch < N" by simp
  obtain r w1 where al: "alloc w = (r, w1)" by fastforce
  show ?case
  proof (cases r)
    case None
    then show ?thesis
      using Suc.prems al room alloc_None [OF assms(1), of w] by (auto simp: fill_loop.simps [of alloc N batch])
  next
    case (Some b)
    have b: "\<not> alive w b" "alive w1 b" "unchanged {b} w w1"
      using alloc_Some [OF assms(1)] al Some by auto
    have rec: "fill_loop alloc N (batch @ [b]) (c + 1) w1 = (c', batch', w')"
      using Suc.prems al room Some by (simp add: fill_loop.simps [of alloc N batch])
    have "k = N - length (batch @ [b])" using Suc.hyps(2) by simp
    from Suc.hyps(1) [OF this rec] obtain new where new:
      "batch' = (batch @ [b]) @ new" "c' = c + 1 + length new" "distinct new"
      "\<forall>x \<in> set new. \<not> alive w1 x \<and> alive w' x" "unchanged (set new) w1 w'"
      "length (batch @ [b]) \<le> N \<longrightarrow> length batch' \<le> N"
      "length batch' < N \<longrightarrow> (\<exists>w1. alloc w1 = (None, w'))"
      by blast
    have "b \<notin> set new" using new(4) b(2) by blast
    then have "\<forall>x \<in> set (b # new). \<not> alive w x \<and> alive w' x"
      using new(4,5) b unchanged_alive by (metis set_ConsD singletonD)
    moreover have "unchanged (set (b # new)) w w'"
      using unchanged_trans [OF b(3) new(5)] by simp
    ultimately show ?thesis
      using new \<open>b \<notin> set new\<close> room by (intro exI [of _ "b # new"]) auto
  qed
qed

end

lemma packet_store_mono:
  assumes "packet_store P al con un a f r" and "Q \<Longrightarrow> P"
  shows "packet_store Q al con un a f r"
  by (rule packet_store.intro)
    (rule packet_store.unchanged_refl [OF assms(1)] packet_store.unchanged_alive [OF assms(1)]
        packet_store.alloc_Some [OF assms] packet_store.alloc_None [OF assms]
        packet_store.fill_spec [OF assms] packet_store.release_spec [OF assms]
        packet_store.unchanged_dead [OF assms(1)] packet_store.unchanged_trans [OF assms(1)]; assumption)+

interpretation mb: packet_store "mbuf_laws D V" "mbuf_live V" "mbuf_data D" "keeps D V"
  "mempool_try_alloc D pool" "mbuf_copy_from_slice D" "mbuf_drop D" for D V pool
proof unfold_locales
  show "mbuf_laws D V \<Longrightarrow> mempool_try_alloc D pool w = (Some b, w') \<Longrightarrow>
      \<not> mbuf_live V w b \<and> mbuf_live V w' b \<and> keeps D V {b} w w'" for w b w'
    by (simp add: mempool_try_alloc_def mbuf_alloc_Some)
  show "mbuf_laws D V \<Longrightarrow> mempool_try_alloc D pool w = (None, w') \<Longrightarrow> keeps D V {} w w'" for w w'
    by (simp add: mempool_try_alloc_def mbuf_alloc_None)
  show "mbuf_laws D V \<Longrightarrow> mbuf_live V w b \<Longrightarrow> mbuf_copy_from_slice D b bs w = (ok, w') \<Longrightarrow>
      mbuf_live V w' b \<and> mbuf_data D b w' = (if ok then bs else []) \<and> keeps D V {b} w w'" for w b bs ok w'
    by (intro conjI) (erule (2) mbuf_copy_from_slice_spec)+
qed (auto intro: keeps_trans keeps_not_live dest: mbuf_drop_spec simp: keepsD)

lemma alloc_copied_Some:
  assumes "mbuf_laws D V" and "alloc_copied D pool bs w = (Some m, w')"
  shows "\<not> mbuf_live V w m \<and> mbuf_live V w' m \<and> mbuf_data D m w' = bs \<and> keeps D V {m} w w'"
proof -
  obtain w1 where "mempool_try_alloc D pool w = (Some m, w1)" "mbuf_copy_from_slice D m bs w1 = (True, w')"
    using assms(2) by (auto simp: alloc_copied_def split: prod.splits option.splits bool.splits)
  then show ?thesis by (rule mb.place_Some [OF assms(1)])
qed

lemma alloc_copied_None:
  assumes "mbuf_laws D V" and "alloc_copied D pool bs w = (None, w')"
  shows "keeps D V {} w w'"
  using assms(2) mb.alloc_None [OF assms(1), of pool] mb.place_drop [OF assms(1), of pool]
  by (auto simp: alloc_copied_def split: prod.splits option.splits bool.splits)

subsection \<open>Properties\<close>

text \<open>
  Copying a frame into a held buffer succeeds exactly when the frame fits the space behind
  the headroom; then the buffer's data is the frame. When it does not fit, the buffer is left
  empty. In both cases every other held buffer keeps its bytes.
\<close>

theorem mbuf_copy_from_slice_correct:
  assumes "mbuf_laws D V" and "mbuf_live V w m"
  shows "case mbuf_copy_from_slice D m bs w of (ok, w') \<Rightarrow>
    ok = (length bs \<le> mbuf_tailroom D m (mbuf_reset D m w)) \<and>
    mbuf_data D m w' = (if ok then bs else []) \<and> mbuf_live V w' m \<and>
    (\<forall>m'. m' \<noteq> m \<and> mbuf_live V w m' \<longrightarrow> mbuf_live V w' m' \<and> mbuf_data D m' w' = mbuf_data D m' w)"
proof -
  obtain ok w' where cp: "mbuf_copy_from_slice D m bs w = (ok, w')" by fastforce
  note S = mbuf_copy_from_slice_spec [OF assms cp]
  show ?thesis
    using S(1-3) keepsD [OF S(4)] by (simp add: cp)
qed

theorem mbuf_copy_from_slice_correct_witness:
  "case mbuf_copy_from_slice sim_dpdk 1 [1, 2, 3] (snd (mbuf_alloc sim_dpdk 0 (sim_world [1] [] 0))) of
     (ok, w') \<Rightarrow> ok \<and> mbuf_data sim_dpdk 1 w' = [1, 2, 3]"
proof -
  let ?w = "snd (mbuf_alloc sim_dpdk 0 (sim_world [1] [] 0))"
  have l: "mbuf_live sim_view ?w 1"
    by (simp add: mbuf_live_def mbuf_alloc_def sim_defs non_null_def)
  have t: "mbuf_tailroom sim_dpdk 1 (mbuf_reset sim_dpdk 1 ?w) = 2048"
    by (simp add: mbuf_tailroom_def mbuf_reset_def mbuf_alloc_def sim_defs non_null_def)
  show ?thesis
    using mbuf_copy_from_slice_correct [OF sim_mbuf_laws l, of "[1, 2, 3]"]
    unfolding t by (auto split: prod.splits)
qed

text \<open>
 Filling a batch stops only when the batch is full or the pool refuses an allocation. It
  appends new buffers behind the old ones, never more than the capacity, returns how many, and
  each is a buffer that was not held before; all other buffers keep their bytes. The loop over
  the non-owning pool reference is the same function.
\<close>

theorem mempool_fill_batch_correct:
  assumes "mbuf_laws D V" and "length batch \<le> N"
  shows "mempool_ref_fill_batch D pool N batch w = mempool_fill_batch D pool N batch w \<and>
    (\<exists>n new w'. mempool_fill_batch D pool N batch w = (n, batch @ new, w') \<and> n = length new \<and>
       length batch + length new \<le> N \<and> distinct new \<and>
       (\<forall>m \<in> set new. \<not> mbuf_live V w m \<and> mbuf_live V w' m) \<and>
       (\<forall>m. m \<notin> set new \<and> mbuf_live V w m \<longrightarrow> mbuf_live V w' m \<and> mbuf_data D m w' = mbuf_data D m w) \<and>
       (length batch + length new < N \<longrightarrow> (\<exists>w1. mempool_try_alloc D pool w1 = (None, w'))))"
proof -
  obtain n b w' where f: "fill_loop (mempool_try_alloc D pool) N batch 0 w = (n, b, w')"
    by (metis prod_cases3)
  obtain new where new: "b = batch @ new" "n = 0 + length new" "distinct new"
      "\<forall>m \<in> set new. \<not> mbuf_live V w m \<and> mbuf_live V w' m" "keeps D V (set new) w w'"
      "length batch \<le> N \<longrightarrow> length b \<le> N"
      "length b < N \<longrightarrow> (\<exists>w1. mempool_try_alloc D pool w1 = (None, w'))"
    using mb.fill_loop_spec [OF assms(1) f] by blast
  have "mempool_ref_try_alloc D pool = mempool_try_alloc D pool"
    by (rule ext) (rule mempool_ref_try_alloc_eq)
  then show ?thesis
    using f new assms(2) keepsD [OF new(5)]
    by (auto simp: mempool_ref_fill_batch_def mempool_fill_batch_def intro!: exI [of _ n] exI [of _ new] exI [of _ w'])
qed

theorem mempool_fill_batch_correct_witness:
  "\<exists>n new w'. mempool_fill_batch sim_dpdk 0 3 [] (sim_world [1, 2] [] 0) = (n, new, w') \<and> n = length new \<and> length new \<le> 3"
  using mempool_fill_batch_correct [OF sim_mbuf_laws, of "[]" 3 0 "sim_world [1, 2] [] 0"] by auto

text \<open>
  Growing a buffer by a length that fits its tailroom makes exactly that many more bytes
  readable without moving the data; shrinking by the same length restores both lengths. No
  other buffer changes.
\<close>

theorem mbuf_extend_shrink:
  assumes "mbuf_laws D V" and "mbuf_live V w m" and "len \<le> mbuf_tailroom D m w"
    and "mbuf_pkt_len D m w + len < 2 ^ 32"
  shows "mbuf_data_len D m (mbuf_extend D m len w) = mbuf_data_len D m w + len \<and>
    mbuf_pkt_len D m (mbuf_extend D m len w) = mbuf_pkt_len D m w + len \<and>
    mbuf_live V (mbuf_extend D m len w) m \<and> keeps D V {m} w (mbuf_extend D m len w) \<and>
    mbuf_data_len D m (mbuf_shrink D m len (mbuf_extend D m len w)) = mbuf_data_len D m w \<and>
    mbuf_pkt_len D m (mbuf_shrink D m len (mbuf_extend D m len w)) = mbuf_pkt_len D m w \<and>
    mbuf_data D m (mbuf_shrink D m len (mbuf_extend D m len w)) = mbuf_data D m w"
proof -
  note E = mbuf_extend_spec [OF assms(1-3)]
  note S = mbuf_shrink_spec [OF assms(1) E(1), of len]
  show ?thesis
    using E S assms(4) by (simp add: mbuf_data_def Let_def)
qed

theorem mbuf_extend_shrink_witness:
  "mbuf_data_len sim_dpdk 1 (mbuf_extend sim_dpdk 1 60 (snd (mbuf_alloc sim_dpdk 0 (sim_world [1] [] 0)))) = 60"
proof -
  let ?w = "snd (mbuf_alloc sim_dpdk 0 (sim_world [1] [] 0))"
  have "mbuf_live sim_view ?w 1" "60 \<le> mbuf_tailroom sim_dpdk 1 ?w" "mbuf_pkt_len sim_dpdk 1 ?w = 0"
    "mbuf_data_len sim_dpdk 1 ?w = 0"
    by (simp_all add: mbuf_live_def mbuf_alloc_def mbuf_tailroom_def mbuf_pkt_len_def mbuf_data_len_def
        sim_defs non_null_def)
  then show ?thesis
    using mbuf_extend_shrink [OF sim_mbuf_laws, of ?w 1 60] by simp
qed

end
