(* ===== verification/Eth.thy ===== *)
theory Eth
  imports Mbuf
begin

section \<open>Ethernet devices\<close>

text \<open>
  A model of \<^verbatim>\<open>dpdk-net/src/api/rte/eth.rs\<close>: the typed configuration and its translation to
  DPDK's structures, the device handle whose methods are one call each, the redirection table
  that spreads flows over the receive queues, and the builder that brings a device up.

  The builder is refined to a script: the list of the calls it makes, in order, each with the
  note whether its failure stops the build (\<open>eth_script\<close>, \<open>run_script\<close>).
\<close>

subsection \<open>Configuration\<close>

datatype RxMqMode = RxMqNone | Rss | RxDcb | DcbRss | RxVmdq | RxVmdqDcb | VmdqRss | VmdqDcbRss

primrec rx_mq_mode_u32 :: "RxMqMode \<Rightarrow> u32" where
  "rx_mq_mode_u32 RxMqNone = 0"
| "rx_mq_mode_u32 Rss = 1"
| "rx_mq_mode_u32 RxDcb = 2"
| "rx_mq_mode_u32 DcbRss = 3"
| "rx_mq_mode_u32 RxVmdq = 4"
| "rx_mq_mode_u32 RxVmdqDcb = 5"
| "rx_mq_mode_u32 VmdqRss = 6"
| "rx_mq_mode_u32 VmdqDcbRss = 7"

datatype TxMqMode = TxMqNone | TxDcb | TxVmdq | TxVmdqDcb

primrec tx_mq_mode_u32 :: "TxMqMode \<Rightarrow> u32" where
  "tx_mq_mode_u32 TxMqNone = 0"
| "tx_mq_mode_u32 TxDcb = 1"
| "tx_mq_mode_u32 TxVmdq = 2"
| "tx_mq_mode_u32 TxVmdqDcb = 3"

record RxMode =
  rx_mq_mode :: RxMqMode
  rx_mtu :: u32
  rx_mode_offloads :: u64
  rx_max_lro_pkt_size :: u32

definition rx_mode_default :: RxMode where
  "rx_mode_default = \<lparr>rx_mq_mode = RxMqNone, rx_mtu = 1500, rx_mode_offloads = 0, rx_max_lro_pkt_size = 0\<rparr>"

record TxMode =
  tx_mq_mode :: TxMqMode
  tx_mode_offloads :: u64

definition tx_mode_default :: TxMode where
  "tx_mode_default = \<lparr>tx_mq_mode = TxMqNone, tx_mode_offloads = 0\<rparr>"

definition RSS_KEY_40 :: bytes where
  "RSS_KEY_40 =
    [0x6d, 0x5a, 0x56, 0xda, 0x25, 0x5b, 0x0e, 0xc2, 0x41, 0x67, 0x25, 0x3d, 0x43, 0xa3, 0x8f, 0xb0,
     0xd0, 0xca, 0x2b, 0xcb, 0xae, 0x7b, 0x30, 0xb4, 0x77, 0xcb, 0x2d, 0xa3, 0x80, 0x30, 0xf2, 0x0c,
     0x6a, 0x42, 0xb7, 0x3b, 0xbe, 0xac, 0x01, 0xfa]"

record EthConf =
  eth_link_speeds :: u32
  eth_rx_mode :: RxMode
  eth_tx_mode :: TxMode
  eth_loopback_mode :: u32
  eth_rss_hf :: u64
  eth_rss_key :: "bytes option"

definition eth_conf_new :: EthConf where
  "eth_conf_new = \<lparr>eth_link_speeds = 0, eth_rx_mode = rx_mode_default, eth_tx_mode = tx_mode_default,
     eth_loopback_mode = 0, eth_rss_hf = 0, eth_rss_key = None\<rparr>"

definition eth_set_mtu :: "u32 \<Rightarrow> EthConf \<Rightarrow> EthConf" where
  "eth_set_mtu mtu c = c\<lparr>eth_rx_mode := (eth_rx_mode c)\<lparr>rx_mtu := mtu\<rparr>\<rparr>"

definition eth_rx_offloads :: "u64 \<Rightarrow> EthConf \<Rightarrow> EthConf" where
  "eth_rx_offloads offloads c = c\<lparr>eth_rx_mode := (eth_rx_mode c)\<lparr>rx_mode_offloads := offloads\<rparr>\<rparr>"

definition eth_tx_offloads :: "u64 \<Rightarrow> EthConf \<Rightarrow> EthConf" where
  "eth_tx_offloads offloads c = c\<lparr>eth_tx_mode := (eth_tx_mode c)\<lparr>tx_mode_offloads := offloads\<rparr>\<rparr>"

definition eth_rss :: "EthConf \<Rightarrow> EthConf" where
  "eth_rss c = c\<lparr>eth_rx_mode := (eth_rx_mode c)\<lparr>rx_mq_mode := Rss\<rparr>, eth_rss_hf := 0, eth_rss_key := None\<rparr>"

definition eth_rss_with_hash :: "u64 \<Rightarrow> EthConf \<Rightarrow> EthConf" where
  "eth_rss_with_hash hf c =
     c\<lparr>eth_rx_mode := (eth_rx_mode c)\<lparr>rx_mq_mode := Rss\<rparr>, eth_rss_hf := hf, eth_rss_key := None\<rparr>"

definition eth_rss_with_key :: "'d dpdk \<Rightarrow> EthConf \<Rightarrow> EthConf" where
  "eth_rss_with_key D c =
     c\<lparr>eth_rx_mode := (eth_rx_mode c)\<lparr>rx_mq_mode := Rss\<rparr>, eth_rss_hf := or (RSS_IP D) (RSS_TCP D),
       eth_rss_key := Some RSS_KEY_40\<rparr>"

definition eth_set_rss_hf :: "u64 \<Rightarrow> EthConf \<Rightarrow> EthConf" where
  "eth_set_rss_hf hf c = c\<lparr>eth_rss_hf := hf\<rparr>"

definition eth_loopback :: "EthConf \<Rightarrow> EthConf" where
  "eth_loopback c = c\<lparr>eth_loopback_mode := 1\<rparr>"

definition zero_rss_conf :: rte_eth_rss_conf where
  "zero_rss_conf = \<lparr>rss_conf_hf = 0, rss_conf_key = None, rss_conf_key_len = 0\<rparr>"

definition eth_conf_to_raw :: "EthConf \<Rightarrow> rte_eth_conf \<times> bytes option" where
  "eth_conf_to_raw c =
     (let conf = \<lparr>raw_link_speeds = eth_link_speeds c,
                  raw_rx_mq_mode = rx_mq_mode_u32 (rx_mq_mode (eth_rx_mode c)),
                  raw_rx_mtu = rx_mtu (eth_rx_mode c),
                  raw_rx_offloads = rx_mode_offloads (eth_rx_mode c),
                  raw_rx_max_lro_pkt_size = rx_max_lro_pkt_size (eth_rx_mode c),
                  raw_tx_mq_mode = tx_mq_mode_u32 (tx_mq_mode (eth_tx_mode c)),
                  raw_tx_offloads = tx_mode_offloads (eth_tx_mode c),
                  raw_lpbk_mode = eth_loopback_mode c,
                  raw_rss_conf = zero_rss_conf\<rparr>
      in if rx_mq_mode (eth_rx_mode c) = Rss \<and> eth_rss_hf c \<noteq> 0 then
           (case eth_rss_key c of
              Some key \<Rightarrow>
                (conf\<lparr>raw_rss_conf := \<lparr>rss_conf_hf = eth_rss_hf c, rss_conf_key = Some key,
                   rss_conf_key_len = of_nat (length key)\<rparr>\<rparr>, Some key)
            | None \<Rightarrow>
                (conf\<lparr>raw_rss_conf := \<lparr>rss_conf_hf = eth_rss_hf c, rss_conf_key = None,
                   rss_conf_key_len = 0\<rparr>\<rparr>, None))
         else (conf, None))"

record RxQueueConf =
  rxc_nb_desc :: u16
  rxc_socket_id :: int
  rxc_conf :: "bytes option"

definition rx_queue_conf_new :: RxQueueConf where
  "rx_queue_conf_new = \<lparr>rxc_nb_desc = 1024, rxc_socket_id = -1, rxc_conf = None\<rparr>"

definition rx_queue_nb_desc :: "u16 \<Rightarrow> RxQueueConf \<Rightarrow> RxQueueConf" where
  "rx_queue_nb_desc n c = c\<lparr>rxc_nb_desc := n\<rparr>"

definition rx_queue_socket_id :: "int \<Rightarrow> RxQueueConf \<Rightarrow> RxQueueConf" where
  "rx_queue_socket_id n c = c\<lparr>rxc_socket_id := n\<rparr>"

definition rx_queue_conf :: "bytes \<Rightarrow> RxQueueConf \<Rightarrow> RxQueueConf" where
  "rx_queue_conf raw c = c\<lparr>rxc_conf := Some raw\<rparr>"

record TxQueueConf =
  txc_nb_desc :: u16
  txc_socket_id :: int
  txc_conf :: "bytes option"

definition tx_queue_conf_new :: TxQueueConf where
  "tx_queue_conf_new = \<lparr>txc_nb_desc = 1024, txc_socket_id = -1, txc_conf = None\<rparr>"

definition tx_queue_nb_desc :: "u16 \<Rightarrow> TxQueueConf \<Rightarrow> TxQueueConf" where
  "tx_queue_nb_desc n c = c\<lparr>txc_nb_desc := n\<rparr>"

definition tx_queue_socket_id :: "int \<Rightarrow> TxQueueConf \<Rightarrow> TxQueueConf" where
  "tx_queue_socket_id n c = c\<lparr>txc_socket_id := n\<rparr>"

definition tx_queue_conf :: "bytes \<Rightarrow> TxQueueConf \<Rightarrow> TxQueueConf" where
  "tx_queue_conf raw c = c\<lparr>txc_conf := Some raw\<rparr>"

lemmas eth_setter_defs [setter_defs] =
  eth_set_mtu_def eth_rx_offloads_def eth_tx_offloads_def eth_rss_def eth_rss_with_hash_def
  eth_rss_with_key_def eth_set_rss_hf_def eth_loopback_def rx_queue_nb_desc_def rx_queue_socket_id_def
  rx_queue_conf_def tx_queue_nb_desc_def tx_queue_socket_id_def tx_queue_conf_def

subsection \<open>The device handle\<close>

record EthDev =
  eth_port_id :: u16

definition eth_dev_new :: "u16 \<Rightarrow> EthDev" where
  "eth_dev_new port_id = \<lparr>eth_port_id = port_id\<rparr>"

definition eth_count_avail :: "'d dpdk \<Rightarrow> 'd world \<Rightarrow> u16" where
  "eth_count_avail D w = rte_eth_dev_count_avail D (rte w)"

text \<open>A call of a function that only returns a code.\<close>

definition checked_call :: "'d dpdk \<Rightarrow> ('d \<Rightarrow> int \<times> 'd) \<Rightarrow> 'd world \<Rightarrow> (unit, Errno) Result \<times> 'd world" where
  "checked_call D f w =
     (let (ret, d) = f (rte w); w = w\<lparr>rte := d\<rparr> in (check_rte_success D ret w, w))"

text \<open>A call that also fills a structure.\<close>

definition checked_get ::
  "'d dpdk \<Rightarrow> ('d \<Rightarrow> int \<times> 'a \<times> 'd) \<Rightarrow> 'd world \<Rightarrow> ('a, Errno) Result \<times> 'd world" where
  "checked_get D f w =
     (let (ret, a, d) = f (rte w); w = w\<lparr>rte := d\<rparr>
      in (case check_rte_success D ret w of Err e \<Rightarrow> (Err e, w) | Ok _ \<Rightarrow> (Ok a, w)))"

definition eth_info :: "'d dpdk \<Rightarrow> EthDev \<Rightarrow> 'd world \<Rightarrow> (rte_eth_dev_info, Errno) Result \<times> 'd world" where
  "eth_info D dev = checked_get D (rte_eth_dev_info_get D (eth_port_id dev))"

definition eth_socket_id :: "'d dpdk \<Rightarrow> EthDev \<Rightarrow> 'd world \<Rightarrow> int" where
  "eth_socket_id D dev w = rte_eth_dev_socket_id D (eth_port_id dev) (rte w)"

definition eth_mac_addr :: "'d dpdk \<Rightarrow> EthDev \<Rightarrow> 'd world \<Rightarrow> (MacAddress, Errno) Result \<times> 'd world" where
  "eth_mac_addr D dev = checked_get D (rte_eth_macaddr_get D (eth_port_id dev))"

definition eth_stats :: "'d dpdk \<Rightarrow> EthDev \<Rightarrow> 'd world \<Rightarrow> (rte_eth_stats, Errno) Result \<times> 'd world" where
  "eth_stats D dev = checked_get D (rte_eth_stats_get D (eth_port_id dev))"

definition eth_configure :: "'d dpdk \<Rightarrow> EthDev \<Rightarrow> u16 \<Rightarrow> u16 \<Rightarrow> EthConf \<Rightarrow> 'd world \<Rightarrow> (unit, Errno) Result \<times> 'd world" where
  "eth_configure D dev nb_rx nb_tx conf =
     (let (raw_conf, key_buffer) = eth_conf_to_raw conf
      in checked_call D (rte_eth_dev_configure D (eth_port_id dev) nb_rx nb_tx raw_conf))"

text \<open>A negative socket id means the device's own; the cast \<open>as u32\<close> wraps.\<close>

definition queue_socket :: "'d dpdk \<Rightarrow> EthDev \<Rightarrow> int \<Rightarrow> 'd world \<Rightarrow> u32" where
  "queue_socket D dev socket_id w =
     (if socket_id < 0 then of_int (eth_socket_id D dev w) else of_int socket_id)"

definition eth_rx_queue_setup ::
  "'d dpdk \<Rightarrow> EthDev \<Rightarrow> u16 \<Rightarrow> ptr \<Rightarrow> RxQueueConf \<Rightarrow> 'd world \<Rightarrow> (unit, Errno) Result \<times> 'd world" where
  "eth_rx_queue_setup D dev queue_id mempool conf w =
     checked_call D (rte_eth_rx_queue_setup D (eth_port_id dev) queue_id (rxc_nb_desc conf)
       (queue_socket D dev (rxc_socket_id conf) w) (rxc_conf conf) mempool) w"

definition eth_tx_queue_setup ::
  "'d dpdk \<Rightarrow> EthDev \<Rightarrow> u16 \<Rightarrow> TxQueueConf \<Rightarrow> 'd world \<Rightarrow> (unit, Errno) Result \<times> 'd world" where
  "eth_tx_queue_setup D dev queue_id conf w =
     checked_call D (rte_eth_tx_queue_setup D (eth_port_id dev) queue_id (txc_nb_desc conf)
       (queue_socket D dev (txc_socket_id conf) w) (txc_conf conf)) w"

definition eth_start :: "'d dpdk \<Rightarrow> EthDev \<Rightarrow> 'd world \<Rightarrow> (unit, Errno) Result \<times> 'd world" where
  "eth_start D dev = checked_call D (rte_eth_dev_start D (eth_port_id dev))"

definition eth_stop :: "'d dpdk \<Rightarrow> EthDev \<Rightarrow> 'd world \<Rightarrow> (unit, Errno) Result \<times> 'd world" where
  "eth_stop D dev = checked_call D (rte_eth_dev_stop D (eth_port_id dev))"

definition eth_close :: "'d dpdk \<Rightarrow> EthDev \<Rightarrow> 'd world \<Rightarrow> (unit, Errno) Result \<times> 'd world" where
  "eth_close D dev = checked_call D (rte_eth_dev_close D (eth_port_id dev))"

definition eth_promiscuous_enable :: "'d dpdk \<Rightarrow> EthDev \<Rightarrow> 'd world \<Rightarrow> (unit, Errno) Result \<times> 'd world" where
  "eth_promiscuous_enable D dev = checked_call D (rte_eth_promiscuous_enable D (eth_port_id dev))"

definition eth_promiscuous_disable :: "'d dpdk \<Rightarrow> EthDev \<Rightarrow> 'd world \<Rightarrow> (unit, Errno) Result \<times> 'd world" where
  "eth_promiscuous_disable D dev = checked_call D (rte_eth_promiscuous_disable D (eth_port_id dev))"

text \<open>The key buffer of 52 bytes is cut to the length the driver reports.\<close>

definition eth_rss_hash_conf :: "'d dpdk \<Rightarrow> EthDev \<Rightarrow> 'd world \<Rightarrow> (u64 \<times> bytes, Errno) Result \<times> 'd world" where
  "eth_rss_hash_conf D dev w =
     (let rss_conf = \<lparr>rss_conf_hf = 0, rss_conf_key = Some (replicate 52 0), rss_conf_key_len = 52\<rparr>
      in (case checked_get D (rte_eth_dev_rss_hash_conf_get D (eth_port_id dev) rss_conf) w of
            (Err e, w) \<Rightarrow> (Err e, w)
          | (Ok c, w) \<Rightarrow>
              (Ok (rss_conf_hf c, take (unat (rss_conf_key_len c)) (case rss_conf_key c of Some k \<Rightarrow> k | None \<Rightarrow> [])), w)))"

definition eth_has_tcp_rss :: "'d dpdk \<Rightarrow> EthDev \<Rightarrow> 'd world \<Rightarrow> (bool, Errno) Result \<times> 'd world" where
  "eth_has_tcp_rss D dev w =
     (case eth_rss_hash_conf D dev w of
        (Err e, w) \<Rightarrow> (Err e, w)
      | (Ok (hf, key), w) \<Rightarrow>
          let tcp_flags = or (RSS_NONFRAG_IPV4_TCP D) (RSS_NONFRAG_IPV6_TCP D)
          in (Ok (and hf tcp_flags \<noteq> 0), w))"

subsection \<open>The redirection table\<close>

definition div_ceil :: "nat \<Rightarrow> nat \<Rightarrow> nat" where
  "div_ceil n k = (n + k - 1) div k"

definition reta_group :: "nat \<Rightarrow> nat \<Rightarrow> nat \<Rightarrow> rte_eth_rss_reta_entry64" where
  "reta_group nb sz group_idx =
     \<lparr>reta_mask = -1,
      reta_entries = map (\<lambda>i. let entry_idx = group_idx * 64 + i
                             in if entry_idx < sz then of_nat (entry_idx mod nb) else 0) [0..<64]\<rparr>"

definition reta_conf :: "nat \<Rightarrow> nat \<Rightarrow> rte_eth_rss_reta_entry64 list" where
  "reta_conf nb sz = map (reta_group nb sz) [0..<div_ceil sz 64]"

definition eth_configure_rss_reta ::
  "'d dpdk \<Rightarrow> EthDev \<Rightarrow> u16 \<Rightarrow> 'd world \<Rightarrow> ((unit, Errno) Result \<times> 'd world) outcome" where
  "eth_configure_rss_reta D dev nb_rx_queues w =
     (case eth_info D dev w of
        (Err e, w) \<Rightarrow> Ret (Err e, w)
      | (Ok info, w) \<Rightarrow>
          let reta_size = info_reta_size info in
          if reta_size = 0 then Ret (Ok (), w)
          else if nb_rx_queues = 0 then Panic ''attempt to calculate the remainder with a divisor of zero''
          else Ret (checked_call D (rte_eth_dev_rss_reta_update D (eth_port_id dev)
                      (reta_conf (unat nb_rx_queues) (unat reta_size)) reta_size) w))"

definition eth_update_rss_hash ::
  "'d dpdk \<Rightarrow> EthDev \<Rightarrow> u64 \<Rightarrow> bytes option \<Rightarrow> 'd world \<Rightarrow> (unit, Errno) Result \<times> 'd world" where
  "eth_update_rss_hash D dev hf key =
     (let rss_conf = (case key of
            Some k \<Rightarrow> \<lparr>rss_conf_hf = hf, rss_conf_key = Some k, rss_conf_key_len = of_nat (length k)\<rparr>
          | None \<Rightarrow> \<lparr>rss_conf_hf = hf, rss_conf_key = None, rss_conf_key_len = 0\<rparr>)
      in checked_call D (rte_eth_dev_rss_hash_update D (eth_port_id dev) rss_conf))"

text \<open>The entries of a table of \<open>sz\<close> entries, group by group.\<close>

definition collect_reta :: "nat \<Rightarrow> rte_eth_rss_reta_entry64 list \<Rightarrow> u16 list" where
  "collect_reta sz groups =
     concat (map (\<lambda>(group_idx, group).
       concat (map (\<lambda>i. if group_idx * 64 + i < sz then [reta_entries group ! i] else []) [0..<64]))
       (List.enumerate 0 groups))"

definition eth_query_rss_reta :: "'d dpdk \<Rightarrow> EthDev \<Rightarrow> 'd world \<Rightarrow> (u16 list, Errno) Result \<times> 'd world" where
  "eth_query_rss_reta D dev w =
     (case eth_info D dev w of
        (Err e, w) \<Rightarrow> (Err e, w)
      | (Ok info, w) \<Rightarrow>
          let reta_size = info_reta_size info in
          if reta_size = 0 then (Ok [], w)
          else
            let groups = replicate (div_ceil (unat reta_size) 64) \<lparr>reta_mask = -1, reta_entries = replicate 64 0\<rparr>
            in (case checked_get D (rte_eth_dev_rss_reta_query D (eth_port_id dev) groups reta_size) w of
                  (Err e, w) \<Rightarrow> (Err e, w)
                | (Ok groups, w) \<Rightarrow> (Ok (collect_reta (unat reta_size) groups), w)))"

subsection \<open>The builder\<close>

record EthDevBuilder =
  b_port_id :: u16
  b_eth_conf :: EthConf
  b_nb_rx_queues :: u16
  b_nb_tx_queues :: u16
  b_rx_queue_conf :: RxQueueConf
  b_tx_queue_conf :: TxQueueConf
  b_promiscuous :: bool

definition eth_builder_new :: "u16 \<Rightarrow> EthDevBuilder" where
  "eth_builder_new port_id = \<lparr>b_port_id = port_id, b_eth_conf = eth_conf_new, b_nb_rx_queues = 1,
     b_nb_tx_queues = 1, b_rx_queue_conf = rx_queue_conf_new, b_tx_queue_conf = tx_queue_conf_new,
     b_promiscuous = False\<rparr>"

definition builder_eth_conf :: "EthConf \<Rightarrow> EthDevBuilder \<Rightarrow> EthDevBuilder" where
  "builder_eth_conf conf b = b\<lparr>b_eth_conf := conf\<rparr>"

definition builder_nb_rx_queues :: "u16 \<Rightarrow> EthDevBuilder \<Rightarrow> EthDevBuilder" where
  "builder_nb_rx_queues n b = b\<lparr>b_nb_rx_queues := n\<rparr>"

definition builder_nb_tx_queues :: "u16 \<Rightarrow> EthDevBuilder \<Rightarrow> EthDevBuilder" where
  "builder_nb_tx_queues n b = b\<lparr>b_nb_tx_queues := n\<rparr>"

definition builder_rx_queue_conf :: "RxQueueConf \<Rightarrow> EthDevBuilder \<Rightarrow> EthDevBuilder" where
  "builder_rx_queue_conf conf b = b\<lparr>b_rx_queue_conf := conf\<rparr>"

definition builder_tx_queue_conf :: "TxQueueConf \<Rightarrow> EthDevBuilder \<Rightarrow> EthDevBuilder" where
  "builder_tx_queue_conf conf b = b\<lparr>b_tx_queue_conf := conf\<rparr>"

definition builder_promiscuous :: "EthDevBuilder \<Rightarrow> EthDevBuilder" where
  "builder_promiscuous b = b\<lparr>b_promiscuous := True\<rparr>"

lemmas builder_setter_defs [setter_defs] =
  builder_eth_conf_def builder_nb_rx_queues_def builder_nb_tx_queues_def builder_rx_queue_conf_def
  builder_tx_queue_conf_def builder_promiscuous_def

text \<open>A loop over queue numbers that stops at the first error.\<close>

fun for_queues :: "(u16 \<Rightarrow> 'w \<Rightarrow> (unit, Errno) Result \<times> 'w) \<Rightarrow> u16 list \<Rightarrow> 'w \<Rightarrow> (unit, Errno) Result \<times> 'w" where
  "for_queues setup [] w = (Ok (), w)"
| "for_queues setup (q # qs) w =
     (case setup q w of (Err e, w) \<Rightarrow> (Err e, w) | (Ok _, w) \<Rightarrow> for_queues setup qs w)"

definition queue_ids :: "u16 \<Rightarrow> u16 list" where
  "queue_ids n = map of_nat [0..<unat n]"

definition eth_build_rss :: "'d dpdk \<Rightarrow> EthDevBuilder \<Rightarrow> EthDev \<Rightarrow> 'd world \<Rightarrow> 'd world outcome" where
  "eth_build_rss D b dev w =
     (if b_nb_rx_queues b > 1 then
        bind_outcome (eth_configure_rss_reta D dev (b_nb_rx_queues b) w) (\<lambda>(r, w).
          let hf = eth_rss_hf (b_eth_conf b) in
          if hf \<noteq> 0 then let (r, w) = eth_update_rss_hash D dev hf (Some RSS_KEY_40) w in Ret w
          else Ret w)
      else Ret w)"

definition eth_dev_build ::
  "'d dpdk \<Rightarrow> EthDevBuilder \<Rightarrow> ptr \<Rightarrow> 'd world \<Rightarrow> ((EthDev, Errno) Result \<times> 'd world) outcome" where
  "eth_dev_build D b mempool w =
     (let dev = eth_dev_new (b_port_id b) in
      case eth_configure D dev (b_nb_rx_queues b) (b_nb_tx_queues b) (b_eth_conf b) w of
        (Err e, w) \<Rightarrow> Ret (Err e, w)
      | (Ok _, w) \<Rightarrow>
      (case for_queues (\<lambda>q. eth_rx_queue_setup D dev q mempool (b_rx_queue_conf b)) (queue_ids (b_nb_rx_queues b)) w of
        (Err e, w) \<Rightarrow> Ret (Err e, w)
      | (Ok _, w) \<Rightarrow>
      (case for_queues (\<lambda>q. eth_tx_queue_setup D dev q (b_tx_queue_conf b)) (queue_ids (b_nb_tx_queues b)) w of
        (Err e, w) \<Rightarrow> Ret (Err e, w)
      | (Ok _, w) \<Rightarrow>
        bind_outcome (eth_build_rss D b dev w) (\<lambda>w.
        (case (if b_promiscuous b then eth_promiscuous_enable D dev w else (Ok (), w)) of
          (Err e, w) \<Rightarrow> Ret (Err e, w)
        | (Ok _, w) \<Rightarrow>
            (case eth_start D dev w of
              (Err e, w) \<Rightarrow> Ret (Err e, w)
            | (Ok _, w) \<Rightarrow> Ret (Ok dev, w)))))))"

definition iter_ports :: "'d dpdk \<Rightarrow> 'd world \<Rightarrow> u16 list" where
  "iter_ports D w = queue_ids (eth_count_avail D w)"

definition format_mac_addr :: "MacAddress \<Rightarrow> string" where
  "format_mac_addr addr =
     (case mac_bytes addr of
        b0 # bs \<Rightarrow> show_hex2 b0 @ concat (map (\<lambda>b. '':'' @ show_hex2 b) bs)
      | [] \<Rightarrow> [])"

subsection \<open>Lemmas\<close>

lemma reta_group_entry:
  assumes "g * 64 + i < sz" and "i < 64"
  shows "reta_entries (reta_group nb sz g) ! i = of_nat ((g * 64 + i) mod nb)"
  using assms by (simp add: reta_group_def)

text \<open>The entries of one group are a slice of the round-robin sequence.\<close>

lemma collect_group:
  "concat (map (\<lambda>i. if g * 64 + i < sz then [reta_entries (reta_group nb sz g) ! i] else []) [0..<64])
     = map (\<lambda>e. of_nat (e mod nb)) [min sz (g * 64)..<min sz (g * 64 + 64)]"
proof -
  have step: "k \<le> 64 \<Longrightarrow>
      concat (map (\<lambda>i. if g * 64 + i < sz then [reta_entries (reta_group nb sz g) ! i] else []) [0..<k])
       = map (\<lambda>e. of_nat (e mod nb)) [min sz (g * 64)..<min sz (g * 64 + k)]" for k
  proof (induction k)
    case (Suc k)
    show ?case
    proof (cases "g * 64 + k < sz")
      case True
      then have "min sz (g * 64) = g * 64" "min sz (g * 64 + k) = g * 64 + k" "min sz (g * 64 + Suc k) = Suc (g * 64 + k)"
        by simp_all
      with Suc True show ?thesis by (simp add: reta_group_entry)
    next
      case False
      with Suc show ?thesis by (simp add: min_def)
    qed
  qed simp
  show ?thesis by (rule step) simp
qed

lemma collect_reta_conf:
  "collect_reta sz (reta_conf nb sz) = map (\<lambda>e. of_nat (e mod nb)) [0..<sz]"
proof -
  have en: "List.enumerate 0 (reta_conf nb sz) = map (\<lambda>g. (g, reta_group nb sz g)) [0..<div_ceil sz 64]"
    by (auto simp: reta_conf_def enumerate_map_upt enumerate_eq_zip zip_map2 zip_same_conv_map)
  have step: "concat (map (\<lambda>g. map (\<lambda>e. of_nat (e mod nb) :: u16) [min sz (g * 64)..<min sz (g * 64 + 64)]) [0..<k])
      = map (\<lambda>e. of_nat (e mod nb)) [0..<min sz (k * 64)]" for k
  proof (induction k)
    case (Suc k)
    have "[0..<min sz (k * 64)] @ [min sz (k * 64)..<min sz (k * 64 + 64)] = [0..<min sz (k * 64 + 64)]"
      using upt_add_eq_append [of 0 "min sz (k * 64)" "min sz (k * 64 + 64) - min sz (k * 64)"] by simp
    from arg_cong [OF this, of "map (\<lambda>e. of_nat (e mod nb) :: u16)"] Suc show ?case
      by (simp add: add.commute)
  qed simp
  have "sz \<le> div_ceil sz 64 * 64" by (simp add: div_ceil_def)
  then show ?thesis
    unfolding collect_reta_def en by (simp add: comp_def collect_group step min_absorb1)
qed

text \<open>How many of the first \<open>s\<close> numbers leave the remainder \<open>q\<close>.\<close>

lemma count_round_robin:
  assumes "q < n"
  shows "length (filter (\<lambda>e. e mod n = q) [0..<s]) = s div n + (if q < s mod n then 1 else 0)"
proof (induction s)
  case (Suc s)
  have "s mod n < n" using assms by simp
  with Suc assms show ?case by (auto simp: mod_Suc div_Suc)
qed simp

subsection \<open>The build as a script\<close>

datatype eth_call = CallConfigure | CallRxSetup u16 | CallTxSetup u16 | CallReta | CallRssHash
  | CallPromiscuous | CallStart

fun exec_call ::
  "'d dpdk \<Rightarrow> EthDevBuilder \<Rightarrow> ptr \<Rightarrow> eth_call \<Rightarrow> 'd world \<Rightarrow> ((unit, Errno) Result \<times> 'd world) outcome" where
  "exec_call D b pool CallConfigure w =
     Ret (eth_configure D (eth_dev_new (b_port_id b)) (b_nb_rx_queues b) (b_nb_tx_queues b) (b_eth_conf b) w)"
| "exec_call D b pool (CallRxSetup q) w =
     Ret (eth_rx_queue_setup D (eth_dev_new (b_port_id b)) q pool (b_rx_queue_conf b) w)"
| "exec_call D b pool (CallTxSetup q) w =
     Ret (eth_tx_queue_setup D (eth_dev_new (b_port_id b)) q (b_tx_queue_conf b) w)"
| "exec_call D b pool CallReta w =
     eth_configure_rss_reta D (eth_dev_new (b_port_id b)) (b_nb_rx_queues b) w"
| "exec_call D b pool CallRssHash w =
     Ret (eth_update_rss_hash D (eth_dev_new (b_port_id b)) (eth_rss_hf (b_eth_conf b)) (Some RSS_KEY_40) w)"
| "exec_call D b pool CallPromiscuous w = Ret (eth_promiscuous_enable D (eth_dev_new (b_port_id b)) w)"
| "exec_call D b pool CallStart w = Ret (eth_start D (eth_dev_new (b_port_id b)) w)"

definition required :: "eth_call \<Rightarrow> bool" where
  "required c \<longleftrightarrow> c \<noteq> CallReta \<and> c \<noteq> CallRssHash"

fun run_script ::
  "'d dpdk \<Rightarrow> EthDevBuilder \<Rightarrow> ptr \<Rightarrow> eth_call list \<Rightarrow> 'd world \<Rightarrow> ((unit, Errno) Result \<times> 'd world) outcome" where
  "run_script D b pool [] w = Ret (Ok (), w)"
| "run_script D b pool (c # cs) w =
     bind_outcome (exec_call D b pool c w) (\<lambda>(r, w).
       case r of
         Ok _ \<Rightarrow> run_script D b pool cs w
       | Err e \<Rightarrow> if required c then Ret (Err e, w) else run_script D b pool cs w)"

definition eth_script :: "EthDevBuilder \<Rightarrow> eth_call list" where
  "eth_script b =
     [CallConfigure] @ map CallRxSetup (queue_ids (b_nb_rx_queues b)) @
     map CallTxSetup (queue_ids (b_nb_tx_queues b)) @
     (if b_nb_rx_queues b > 1 then [CallReta] @ (if eth_rss_hf (b_eth_conf b) \<noteq> 0 then [CallRssHash] else [])
      else []) @
     (if b_promiscuous b then [CallPromiscuous] else []) @ [CallStart]"

lemma run_script_append:
  "run_script D b pool (cs @ cs') w =
     bind_outcome (run_script D b pool cs w) (\<lambda>(r, w).
       case r of Ok _ \<Rightarrow> run_script D b pool cs' w | Err e \<Rightarrow> Ret (Err e, w))"
proof (induction cs arbitrary: w)
  case (Cons c cs)
  show ?case
  proof (cases "exec_call D b pool c w")
    case (Ret a)
    then show ?thesis using Cons by (cases a; cases "fst a") auto
  qed simp
qed simp

lemma run_script_rx:
  "run_script D b pool (map CallRxSetup qs) w =
     Ret (for_queues (\<lambda>q. eth_rx_queue_setup D (eth_dev_new (b_port_id b)) q pool (b_rx_queue_conf b)) qs w)"
  by (induction qs arbitrary: w) (auto simp: required_def split: prod.splits Result.splits)

lemma run_script_tx:
  "run_script D b pool (map CallTxSetup qs) w =
     Ret (for_queues (\<lambda>q. eth_tx_queue_setup D (eth_dev_new (b_port_id b)) q (b_tx_queue_conf b)) qs w)"
  by (induction qs arbitrary: w) (auto simp: required_def split: prod.splits Result.splits)

lemma run_script_rss:
  "run_script D b pool (if b_nb_rx_queues b > 1 then [CallReta] @
       (if eth_rss_hf (b_eth_conf b) \<noteq> 0 then [CallRssHash] else []) else []) w =
     bind_outcome (eth_build_rss D b (eth_dev_new (b_port_id b)) w) (\<lambda>w. Ret (Ok (), w))"
proof (cases "eth_configure_rss_reta D (eth_dev_new (b_port_id b)) (b_nb_rx_queues b) w")
  case (Ret a)
  then show ?thesis
    by (cases a; cases "fst a") (auto simp: eth_build_rss_def required_def Let_def split: prod.splits Result.splits)
qed (simp add: eth_build_rss_def)

lemma eth_configure_rss_reta_Ret:
  "nb \<noteq> 0 \<Longrightarrow> \<exists>r. eth_configure_rss_reta D dev nb w = Ret r"
  by (auto simp: eth_configure_rss_reta_def Let_def split: prod.splits Result.splits)

lemma eth_build_rss_Ret: "\<exists>w'. eth_build_rss D b dev w1 = Ret w'"
proof (cases "b_nb_rx_queues b > 1")
  case True
  then have "b_nb_rx_queues b \<noteq> 0" by auto
  then obtain r where "eth_configure_rss_reta D dev (b_nb_rx_queues b) w1 = Ret r"
    using eth_configure_rss_reta_Ret by blast
  then show ?thesis by (simp add: eth_build_rss_def case_prod_beta Let_def)
qed (simp add: eth_build_rss_def)

text \<open>The calls of a build, one after the other.\<close>

lemma eth_dev_build_run:
  "eth_dev_build D b pool w =
     (case run_script D b pool (eth_script b) w of
        Ret (Ok _, w') \<Rightarrow> Ret (Ok (eth_dev_new (b_port_id b)), w')
      | Ret (Err e, w') \<Rightarrow> Ret (Err e, w')
      | Panic msg \<Rightarrow> Panic msg)" (is ?eq)
  and eth_dev_build_Ret: "\<exists>r. eth_dev_build D b pool w = Ret r" (is ?ret)
proof -
  let ?dev = "eth_dev_new (b_port_id b)"
  let ?rx = "for_queues (\<lambda>q. eth_rx_queue_setup D ?dev q pool (b_rx_queue_conf b)) (queue_ids (b_nb_rx_queues b))"
  let ?tx = "for_queues (\<lambda>q. eth_tx_queue_setup D ?dev q (b_tx_queue_conf b)) (queue_ids (b_nb_tx_queues b))"
  obtain r1 w1 where 1: "eth_configure D ?dev (b_nb_rx_queues b) (b_nb_tx_queues b) (b_eth_conf b) w = (r1, w1)"
    by fastforce
  obtain r2 w2 where 2: "?rx w1 = (r2, w2)" by fastforce
  obtain r3 w3 where 3: "?tx w2 = (r3, w3)" by fastforce
  obtain w4 where 4: "eth_build_rss D b ?dev w3 = Ret w4" using eth_build_rss_Ret by blast
  obtain r5 w5 where 5: "eth_promiscuous_enable D ?dev w4 = (r5, w5)" by fastforce
  obtain r6 w6 where 6: "eth_start D ?dev w4 = (r6, w6)" by fastforce
  obtain r7 w7 where 7: "eth_start D ?dev w5 = (r7, w7)" by fastforce
  show ?eq
    unfolding eth_script_def run_script_append run_script_rx run_script_tx run_script_rss
    using 1 2 3 4 5 6 7
    by (cases r1; cases r2; cases r3; cases r5; cases r6; cases r7; cases "b_promiscuous b")
      (simp_all add: eth_dev_build_def required_def)
  show ?ret
    using 1 2 3 4 5 6 7
    by (cases r1; cases r2; cases r3; cases r5; cases r6; cases r7; cases "b_promiscuous b")
      (simp_all add: eth_dev_build_def)
qed

lemma eth_dev_build_dev:
  "eth_dev_build D b pool w = Ret (Ok dev, w') \<Longrightarrow> dev = eth_dev_new (b_port_id b)"
  by (auto simp: eth_dev_build_run split: outcome.splits prod.splits Result.splits)

subsection \<open>Properties\<close>

text \<open>
  (C32) Building a device never panics and is the script of calls: configure, set up every receive
  queue in order, then every transmit queue, then for several queues the redirection table and,
  if hash functions are asked for, the hash configuration, then promiscuous mode if asked for,
  and start as the last call. The first failing call stops the build with its error, except
  that a failure of the two RSS calls is ignored; the device is returned only when the script
  ran to its end.
\<close>

theorem eth_dev_build_script:
  "eth_dev_build D b pool w =
     (case run_script D b pool (eth_script b) w of
        Ret (Ok _, w') \<Rightarrow> Ret (Ok (eth_dev_new (b_port_id b)), w')
      | Ret (Err e, w') \<Rightarrow> Ret (Err e, w')
      | Panic msg \<Rightarrow> Panic msg) \<and>
   \<not> panics (eth_dev_build D b pool w) \<and> last (eth_script b) = CallStart"
  using eth_dev_build_run [of D b pool w] eth_dev_build_Ret [of D b pool w] by (auto simp: eth_script_def)

text \<open>
  (C33) The redirection table sent to the device covers all its entries with one group per 64 of
  them, and read back in order it assigns entry \<open>i\<close> to queue \<open>i mod n\<close>: every entry points to
  a configured queue, and no two queues differ by more than one entry.
\<close>

theorem reta_round_robin:
  assumes "0 < nb" and "nb \<le> u16_max"
  shows "collect_reta sz (reta_conf nb sz) = map (\<lambda>e. of_nat (e mod nb)) [0..<sz] \<and>
    length (reta_conf nb sz) = div_ceil sz 64 \<and>
    (\<forall>q \<in> set (collect_reta sz (reta_conf nb sz)). unat q < nb) \<and>
    (\<forall>q < nb. length (filter (\<lambda>e. unat e = q) (collect_reta sz (reta_conf nb sz))) =
       sz div nb + (if q < sz mod nb then 1 else 0))"
proof -
  have u: "unat (of_nat (e mod nb) :: u16) = e mod nb" for e
    using assms order_less_le_trans [OF mod_less_divisor [OF assms(1), of e] assms(2)] by simp
  show ?thesis
    using assms(1) count_round_robin [of _ nb sz]
    by (auto simp: collect_reta_conf u filter_map comp_def) (auto simp: reta_conf_def)
qed

theorem reta_round_robin_witness:
  "collect_reta 130 (reta_conf 3 130) = map (\<lambda>e. of_nat (e mod 3)) [0..<130]"
  using reta_round_robin [of 3 130] by simp

text \<open>
  Querying the table after configuring it returns the round-robin assignment, for a driver
  whose query returns the groups it was given and whose device information does not change.
\<close>

theorem reta_query_after_configure:
  assumes "nb \<noteq> 0" and "rte_eth_dev_info_get D (eth_port_id dev) (rte w) = (0, info, d1)"
    and "info_reta_size info \<noteq> 0"
    and "rte_eth_dev_rss_reta_update D (eth_port_id dev)
      (reta_conf (unat nb) (unat (info_reta_size info))) (info_reta_size info) d1 = (0, d2)"
    and "rte_eth_dev_info_get D (eth_port_id dev) d2 = (0, info, d3)"
    and "\<And>gs. \<exists>d4. rte_eth_dev_rss_reta_query D (eth_port_id dev) gs (info_reta_size info) d3 =
      (0, reta_conf (unat nb) (unat (info_reta_size info)), d4)"
  shows "\<exists>w1 w2. eth_configure_rss_reta D dev nb w = Ret (Ok (), w1) \<and>
    eth_query_rss_reta D dev w1 =
      (Ok (map (\<lambda>e. of_nat (e mod unat nb)) [0..<unat (info_reta_size info)]), w2)"
proof -
  have "eth_configure_rss_reta D dev nb w = Ret (Ok (), w\<lparr>rte := d2\<rparr>)"
    using assms(1-4)
    by (simp add: eth_configure_rss_reta_def eth_info_def checked_get_def checked_call_def check_rte_success_def)
  moreover obtain d4 where q: "rte_eth_dev_rss_reta_query D (eth_port_id dev)
      (replicate (div_ceil (unat (info_reta_size info)) 64) \<lparr>reta_mask = -1, reta_entries = replicate 64 0\<rparr>)
      (info_reta_size info) d3 = (0, reta_conf (unat nb) (unat (info_reta_size info)), d4)"
    using assms(6) by blast
  have "eth_query_rss_reta D dev (w\<lparr>rte := d2\<rparr>) =
      (Ok (map (\<lambda>e. of_nat (e mod unat nb)) [0..<unat (info_reta_size info)]), w\<lparr>rte := d4\<rparr>)"
    using assms(3,5) q
    by (simp add: eth_query_rss_reta_def eth_info_def checked_get_def check_rte_success_def collect_reta_conf)
  ultimately show ?thesis by blast
qed

theorem reta_query_after_configure_witness:
  "\<exists>w1 w2. eth_configure_rss_reta sim_dpdk (eth_dev_new 0) 4 (sim_world [] [] 0) = Ret (Ok (), w1) \<and>
     eth_query_rss_reta sim_dpdk (eth_dev_new 0) w1 = (Ok (map (\<lambda>e. of_nat (e mod 4)) [0..<128]), w2)"
  using reta_query_after_configure [of 4 sim_dpdk "eth_dev_new 0" "sim_world [] [] 0"
      "\<lparr>info_reta_size = 128, info_max_rx_queues = 8, info_max_tx_queues = 8\<rparr>"]
  by (simp del: upt_rec_numeral)

text \<open>
  The raw configuration carries the RSS settings exactly when the RSS mode is on and hash
  functions are chosen, the key's length being its own for a key of at most 255 bytes; in every
  other case the RSS part is zero. Mode, MTU and offloads are copied unchanged.
\<close>

theorem eth_conf_to_raw_rss:
  assumes "\<forall>k. eth_rss_key c = Some k \<longrightarrow> length k < 256"
  shows "case eth_conf_to_raw c of (raw, key) \<Rightarrow>
    raw_rx_mtu raw = rx_mtu (eth_rx_mode c) \<and> raw_rx_offloads raw = rx_mode_offloads (eth_rx_mode c) \<and>
    raw_tx_offloads raw = tx_mode_offloads (eth_tx_mode c) \<and> raw_lpbk_mode raw = eth_loopback_mode c \<and>
    (if rx_mq_mode (eth_rx_mode c) = Rss \<and> eth_rss_hf c \<noteq> 0
     then rss_conf_hf (raw_rss_conf raw) = eth_rss_hf c \<and> rss_conf_key (raw_rss_conf raw) = eth_rss_key c \<and>
       key = eth_rss_key c \<and>
       unat (rss_conf_key_len (raw_rss_conf raw)) = (case eth_rss_key c of None \<Rightarrow> 0 | Some k \<Rightarrow> length k)
     else raw_rss_conf raw = zero_rss_conf \<and> key = None)"
  using assms
  by (auto simp: eth_conf_to_raw_def Let_def unat_of_nat split: option.splits)

theorem eth_conf_to_raw_rss_witness:
  "unat (rss_conf_key_len (raw_rss_conf (fst (eth_conf_to_raw (eth_rss_with_key sim_dpdk eth_conf_new))))) = 40"
proof -
  have hf: "eth_rss_hf (eth_rss_with_key sim_dpdk eth_conf_new) = 0x30"
    by (simp add: eth_rss_with_key_def eth_conf_new_def sim_dpdk_def)
  have k: "eth_rss_key (eth_rss_with_key sim_dpdk eth_conf_new) = Some RSS_KEY_40"
    "rx_mq_mode (eth_rx_mode (eth_rss_with_key sim_dpdk eth_conf_new)) = Rss"
    by (simp_all add: eth_rss_with_key_def eth_conf_new_def)
  have "length RSS_KEY_40 = 40" by (simp add: RSS_KEY_40_def)
  then show ?thesis
    using eth_conf_to_raw_rss [of "eth_rss_with_key sim_dpdk eth_conf_new"] hf k
    by (auto split: prod.splits)
qed

end
