(* ===== verification/Queues.thy ===== *)
theory Queues
  imports Mbuf
begin

section \<open>Receive and transmit queues\<close>

text \<open>
  A model of \<^verbatim>\<open>dpdk-net/src/api/rte/queue.rs\<close>. An \<open>ArrayVec<Mbuf, N>\<close> is the list of its
  buffers, with its capacity \<open>N\<close> as an argument. The transmit loop removes the sent buffers one
  by one from the front; \<open>ArrayVec::remove\<close> panics on an empty vector, so \<open>tx\<close> returns an
  \<open>outcome\<close>.

  The locale \<open>packet_queue\<close> extends the contract of the packet buffers: a receive appends
  buffers the caller did not hold, a transmit gives away a prefix. Its lemmas show that a batch
  whose buffers are held and distinct stays so.
\<close>

definition MAX_BURST_SIZE :: nat where
  "MAX_BURST_SIZE = 64"

record RxQueue =
  rx_port_id :: u16
  rx_queue_id :: u16

record TxQueue =
  tx_port_id :: u16
  tx_queue_id :: u16

definition rx_queue_new :: "u16 \<Rightarrow> u16 \<Rightarrow> RxQueue" where
  "rx_queue_new port_id queue_id = \<lparr>rx_port_id = port_id, rx_queue_id = queue_id\<rparr>"

definition tx_queue_new :: "u16 \<Rightarrow> u16 \<Rightarrow> TxQueue" where
  "tx_queue_new port_id queue_id = \<lparr>tx_port_id = port_id, tx_queue_id = queue_id\<rparr>"

text \<open>
  The loop that turns received pointers into buffers: null pointers are skipped, and a buffer
  that \<open>try_push\<close> refuses is dropped.
\<close>

fun push_received :: "'d dpdk \<Rightarrow> nat \<Rightarrow> ptr list \<Rightarrow> Mbuf list \<Rightarrow> 'd world \<Rightarrow> Mbuf list \<times> 'd world" where
  "push_received D N [] mbufs w = (mbufs, w)"
| "push_received D N (raw # raws) mbufs w =
     (case mbuf_from_raw raw of
        None \<Rightarrow> push_received D N raws mbufs w
      | Some mbuf \<Rightarrow>
          if length mbufs < N then push_received D N raws (mbufs @ [mbuf]) w
          else push_received D N raws mbufs (mbuf_drop D mbuf w))"

definition rx_queue_rx :: "'d dpdk \<Rightarrow> RxQueue \<Rightarrow> nat \<Rightarrow> Mbuf list \<Rightarrow> 'd world \<Rightarrow> usize \<times> Mbuf list \<times> 'd world" where
  "rx_queue_rx D q N mbufs w =
     (let capacity = N - length mbufs in
      if capacity = 0 then (0, mbufs, w)
      else
        let max_pkts = (of_nat (min capacity u16_max) :: u16);
            raw_mbufs = replicate MAX_BURST_SIZE null_ptr;
            nb_pkts = min max_pkts (of_nat MAX_BURST_SIZE);
            (received, raw_mbufs, m, d) =
              eth_rx_burst D (rx_port_id q) (rx_queue_id q) raw_mbufs nb_pkts (mem w) (rte w);
            w = w\<lparr>mem := m, rte := d\<rparr>;
            (mbufs, w) = push_received D N (take (unat received) raw_mbufs) mbufs w
        in (unat received, mbufs, w))"

definition rx_queue_rx_burst :: "'d dpdk \<Rightarrow> RxQueue \<Rightarrow> nat \<Rightarrow> 'd world \<Rightarrow> Mbuf list \<times> 'd world" where
  "rx_queue_rx_burst D q N w = (let (n, mbufs, w) = rx_queue_rx D q N [] w in (mbufs, w))"

fun remove_sent :: "nat \<Rightarrow> 'a list \<Rightarrow> 'a list outcome" where
  "remove_sent 0 mbufs = Ret mbufs"
| "remove_sent (Suc n) [] = Panic ''remove: index 0 is out of bounds''"
| "remove_sent (Suc n) (m # mbufs) = remove_sent n mbufs"

definition tx_queue_tx :: "'d dpdk \<Rightarrow> TxQueue \<Rightarrow> Mbuf list \<Rightarrow> 'd world \<Rightarrow> (usize \<times> Mbuf list \<times> 'd world) outcome" where
  "tx_queue_tx D q mbufs w =
     (if mbufs = [] then Ret (0, mbufs, w)
      else
        let nb_pkts = (of_nat (min (min (length mbufs) MAX_BURST_SIZE) u16_max) :: u16);
            raw_mbufs = write_at 0 (take (unat nb_pkts) mbufs) (replicate MAX_BURST_SIZE null_ptr);
            (sent, m, d) =
              eth_tx_burst D (tx_port_id q) (tx_queue_id q) raw_mbufs nb_pkts (mem w) (rte w);
            w = w\<lparr>mem := m, rte := d\<rparr>
        in bind_outcome (remove_sent (unat sent) mbufs) (\<lambda>mbufs. Ret (unat sent, mbufs, w)))"

definition tx_queue_tx_one :: "'d dpdk \<Rightarrow> TxQueue \<Rightarrow> Mbuf \<Rightarrow> 'd world \<Rightarrow> Mbuf option \<times> 'd world" where
  "tx_queue_tx_one D q mbuf w =
     (let (sent, m, d) = eth_tx_burst D (tx_port_id q) (tx_queue_id q) [mbuf] 1 (mem w) (rte w);
          w = w\<lparr>mem := m, rte := d\<rparr>
      in if sent = 1 then (None, w) else (Some mbuf, w))"

subsection \<open>Lemmas\<close>

lemma remove_sent_drop [simp]: "n \<le> length xs \<Longrightarrow> remove_sent n xs = Ret (drop n xs)"
  by (induction n xs rule: remove_sent.induct) auto

lemma remove_sent_panics: "length xs < n \<Longrightarrow> panics (remove_sent n xs)"
  by (induction n xs rule: remove_sent.induct) auto

lemma push_received_all:
  assumes "length mbufs + length raws \<le> N" and "0 \<notin> set raws"
  shows "push_received D N raws mbufs w = (mbufs @ raws, w)"
  using assms
  by (induction raws arbitrary: mbufs) (auto simp: mbuf_from_raw_def non_null_def)

text \<open>The number of packets a burst asks for.\<close>

lemma rx_nb_pkts:
  "unat (min (of_nat (min capacity u16_max) :: u16) (of_nat MAX_BURST_SIZE)) = min capacity 64"
  by (simp add: MAX_BURST_SIZE_def min_def word_le_nat_alt unat_of_nat_u16_mod)

lemma tx_nb_pkts:
  "unat (of_nat (min (min k MAX_BURST_SIZE) u16_max) :: u16) = min k 64"
  by (simp add: MAX_BURST_SIZE_def min_def)

lemma rx_queue_rx_spec:
  assumes laws: "mbuf_laws D V" "rx_burst_law D V" and cap: "length mbufs \<le> N"
    and rx: "rx_queue_rx D q N mbufs w = (n, mbufs', w')"
  shows "\<exists>new. mbufs' = mbufs @ new \<and> n = length new \<and> length new \<le> min (N - length mbufs) 64 \<and>
    distinct new \<and> (\<forall>m \<in> set new. \<not> mbuf_live V w m \<and> mbuf_live V w' m) \<and> keeps D V (set new) w w'"
proof (cases "length mbufs = N")
  case True
  then show ?thesis using rx by (simp add: rx_queue_rx_def)
next
  case False
  let ?nb = "min (of_nat (min (N - length mbufs) u16_max) :: u16) (of_nat MAX_BURST_SIZE)"
  obtain r raw m d where burst:
    "eth_rx_burst D (rx_port_id q) (rx_queue_id q) (replicate MAX_BURST_SIZE 0) ?nb (mem w) (rte w) = (r, raw, m, d)"
    by (metis prod_cases4)
  have nb: "unat ?nb = min (N - length mbufs) 64" by (rule rx_nb_pkts)
  then have "unat ?nb \<le> length (replicate MAX_BURST_SIZE (0 :: ptr))" by (simp add: MAX_BURST_SIZE_def)
  note B = rx_burst_lawD [OF laws(2) this burst]
  let ?new = "take (unat r) raw"
  have len: "length ?new = unat r" "length ?new \<le> min (N - length mbufs) 64"
    using B(1,2) nb by (simp_all add: MAX_BURST_SIZE_def)
  have push: "push_received D N ?new mbufs w1 = (mbufs @ ?new, w1)" for w1 :: "'a world"
    using len cap B(4) by (intro push_received_all) auto
  have res: "mbufs' = mbufs @ ?new" "n = unat r" "w' = w\<lparr>mem := m, rte := d\<rparr>"
    using rx burst push False cap by (auto simp: rx_queue_rx_def Let_def)
  have "keeps D V (set ?new) w w'"
    using B(5,6) by (intro keepsI [OF laws(1)]) (auto simp: res(3))
  then show ?thesis
    using B(3,4) len res by (intro exI [of _ ?new]) (auto simp: mbuf_live_def)
qed

lemma tx_queue_tx_spec:
  assumes laws: "mbuf_laws D V" "tx_burst_law D V"
  shows "\<exists>n w'. tx_queue_tx D q mbufs w = Ret (n, drop n mbufs, w') \<and> n \<le> min (length mbufs) 64 \<and>
    (\<forall>m \<in> set (take n mbufs). \<not> mbuf_live V w' m) \<and> keeps D V (set (take n mbufs)) w w'"
proof (cases "mbufs = []")
  case True
  then show ?thesis by (intro exI [of _ 0] exI [of _ w]) (simp add: tx_queue_tx_def)
next
  case False
  let ?nb = "of_nat (min (min (length mbufs) MAX_BURST_SIZE) u16_max) :: u16"
  let ?raw = "write_at 0 (take (unat ?nb) mbufs) (replicate MAX_BURST_SIZE 0)"
  obtain s m d where burst:
    "eth_tx_burst D (tx_port_id q) (tx_queue_id q) ?raw ?nb (mem w) (rte w) = (s, m, d)"
    by (metis prod_cases3)
  have nb: "unat ?nb = min (length mbufs) 64" by (rule tx_nb_pkts)
  then have raw: "take k ?raw = take k mbufs" if "k \<le> min (length mbufs) 64" for k
    using that by (simp add: write_at_def MAX_BURST_SIZE_def min_absorb1)
  have "unat ?nb \<le> length ?raw"
    unfolding nb by (simp add: write_at_def MAX_BURST_SIZE_def)
  note B = tx_burst_lawD [OF laws(2) this burst]
  have s: "unat s \<le> min (length mbufs) 64" using B(1) nb by simp
  have tk: "take (unat s) ?raw = take (unat s) mbufs" by (rule raw [OF s])
  let ?w = "w\<lparr>mem := m, rte := d\<rparr>"
  have "tx_queue_tx D q mbufs w = Ret (unat s, drop (unat s) mbufs, ?w)"
    using False burst s by (simp add: tx_queue_tx_def Let_def)
  moreover have "keeps D V (set (take (unat s) mbufs)) w ?w"
    using B(3,4) unfolding tk by (intro keepsI [OF laws(1)]) auto
  moreover have "\<forall>m \<in> set (take (unat s) mbufs). \<not> mbuf_live V ?w m"
    using B(2) unfolding tk by (simp add: mbuf_live_def)
  ultimately show ?thesis using s by blast
qed

subsection \<open>The contract of a queue pair\<close>

locale packet_queue = packet_store +
  fixes rx :: "nat \<Rightarrow> 'a list \<Rightarrow> 'b \<Rightarrow> nat \<times> 'a list \<times> 'b"
    and tx :: "'a list \<Rightarrow> 'b \<Rightarrow> (nat \<times> 'a list \<times> 'b) outcome"
  assumes rx_appends: "laws \<Longrightarrow> length batch \<le> N \<Longrightarrow> rx N batch w = (n, batch', w') \<Longrightarrow>
      \<exists>new. batch' = batch @ new \<and> n = length new \<and> length batch' \<le> N \<and> distinct new \<and>
        (\<forall>b \<in> set new. \<not> alive w b \<and> alive w' b) \<and> unchanged (set new) w w'"
    and tx_prefix: "laws \<Longrightarrow> \<exists>n w'. tx batch w = Ret (n, drop n batch, w') \<and> n \<le> length batch \<and>
        (\<forall>b \<in> set (take n batch). \<not> alive w' b) \<and> unchanged (set (take n batch)) w w'"
begin

text \<open>A set of held buffers stays held through a receive, and the batch stays duplicate free.\<close>

lemma rx_owned:
  assumes laws "length batch \<le> N" "rx N batch w = (n, batch', w')"
    and "distinct (batch @ others)" "\<forall>b \<in> set (batch @ others). alive w b"
  shows "distinct (batch' @ others) \<and> (\<forall>b \<in> set (batch' @ others). alive w' b)"
proof -
  obtain new where new: "batch' = batch @ new" "distinct new"
      "\<forall>b \<in> set new. \<not> alive w b \<and> alive w' b" "unchanged (set new) w w'"
    using rx_appends [OF assms(1-3)] by blast
  have "\<forall>b \<in> set (batch @ others). b \<notin> set new" using new(3) assms(5) by blast
  then have "\<forall>b \<in> set (batch @ others). alive w' b"
    using unchanged_alive [OF new(4)] assms(5) by blast
  then show ?thesis using new \<open>\<forall>b \<in> set (batch @ others). b \<notin> set new\<close> assms(4) by auto
qed

lemma tx_owned:
  assumes laws "tx batch w = Ret (n, batch', w')"
    and "distinct (batch @ others)" "\<forall>b \<in> set (batch @ others). alive w b"
  shows "distinct (batch' @ others) \<and> (\<forall>b \<in> set (batch' @ others). alive w' b) \<and>
    length batch' \<le> length batch"
proof -
  have n: "batch' = drop n batch" "unchanged (set (take n batch)) w w'"
    using tx_prefix [OF assms(1), of batch w] assms(2) by auto
  have "b \<notin> set (take n batch)" if "b \<in> set (drop n batch @ others)" for b
    using that assms(3) by (auto dest: in_set_takeD simp: set_take_disj_set_drop_if_distinct [of batch n n, simplified, THEN disjoint_iff [THEN iffD1]])
  then have "\<forall>b \<in> set (drop n batch @ others). alive w' b"
    using unchanged_alive [OF n(2)] assms(4) by (auto dest: in_set_dropD)
  then show ?thesis using n assms(3) by (auto dest: in_set_dropD)
qed

end

interpretation pq: packet_queue "dpdk_laws D V" "mbuf_live V"
  "mbuf_data D" "keeps D V" "mempool_try_alloc D pool" "mbuf_copy_from_slice D" "mbuf_drop D"
  "rx_queue_rx D rxq" "tx_queue_tx D txq" for D V pool rxq txq
proof (rule packet_queue.intro [OF _ packet_queue_axioms.intro])
  show "packet_store (dpdk_laws D V) (mbuf_live V) (mbuf_data D)
      (keeps D V) (mempool_try_alloc D pool) (mbuf_copy_from_slice D) (mbuf_drop D)"
    by (rule packet_store_mono [OF mb.packet_store_axioms]) (rule dpdk_lawsD)
next
  fix batch :: "Mbuf list" and N w n batch' w'
  assume "dpdk_laws D V" and "length batch \<le> N"
    and "rx_queue_rx D rxq N batch w = (n, batch', w')"
  then show "\<exists>new. batch' = batch @ new \<and> n = length new \<and> length batch' \<le> N \<and> distinct new \<and>
      (\<forall>b \<in> set new. \<not> mbuf_live V w b \<and> mbuf_live V w' b) \<and> keeps D V (set new) w w'"
    using rx_queue_rx_spec [of D V batch N rxq w n batch' w'] dpdk_lawsD [of D V] by auto
next
  fix batch :: "Mbuf list" and w
  assume "dpdk_laws D V"
  then show "\<exists>n w'. tx_queue_tx D txq batch w = Ret (n, drop n batch, w') \<and> n \<le> length batch \<and>
      (\<forall>b \<in> set (take n batch). \<not> mbuf_live V w' b) \<and> keeps D V (set (take n batch)) w w'"
    using tx_queue_tx_spec [of D V txq batch w] dpdk_lawsD [of D V] by auto
qed

subsection \<open>Properties\<close>

text \<open>
  A receive appends the burst behind the buffers already in the batch, in the order the
  driver delivered it, at most 64 of them and never beyond the batch's capacity, and returns
  their number; none of them was held before, each is now, and all other held buffers keep
  their bytes. When the batch is full nothing is asked of the driver.
\<close>

theorem rx_appends_burst:
  assumes "mbuf_laws D V" and "rx_burst_law D V" and "length mbufs \<le> N"
  shows "\<exists>new w'. rx_queue_rx D q N mbufs w = (length new, mbufs @ new, w') \<and>
    length new \<le> min (N - length mbufs) 64 \<and> distinct new \<and>
    (\<forall>m \<in> set new. \<not> mbuf_live V w m \<and> mbuf_live V w' m) \<and>
    (\<forall>m. m \<notin> set new \<and> mbuf_live V w m \<longrightarrow> mbuf_live V w' m \<and> mbuf_data D m w' = mbuf_data D m w) \<and>
    (length mbufs = N \<longrightarrow> w' = w)"
proof -
  obtain n mbufs' w' where rx: "rx_queue_rx D q N mbufs w = (n, mbufs', w')" by (metis prod_cases3)
  obtain new where new: "mbufs' = mbufs @ new" "n = length new" "length new \<le> min (N - length mbufs) 64"
    "distinct new" "\<forall>m \<in> set new. \<not> mbuf_live V w m \<and> mbuf_live V w' m" "keeps D V (set new) w w'"
    using rx_queue_rx_spec [OF assms rx] by blast
  moreover have "length mbufs = N \<longrightarrow> w' = w" using rx by (auto simp: rx_queue_rx_def)
  ultimately show ?thesis using rx keepsD [OF new(6)] by (intro exI [of _ new] exI [of _ w']) auto
qed

theorem rx_appends_burst_witness:
  "\<exists>new w'. rx_queue_rx sim_dpdk (rx_queue_new 0 0) 64 [] (sim_world [1, 2] [[7, 8], [9]] 0)
     = (length new, new, w') \<and> length new \<le> 64"
  using rx_appends_burst [OF sim_mbuf_laws sim_rx_burst_law, of "[]" 64 "rx_queue_new 0 0"] by fastforce

text \<open>
  (C7) A transmit never panics. It hands the driver a prefix of the batch, at most 64 buffers,
  and leaves the rest in place and in order: nothing is lost and nothing is sent twice. The
  sent buffers are no longer held; every other buffer keeps its bytes.
\<close>

theorem tx_sends_prefix:
  assumes "mbuf_laws D V" and "tx_burst_law D V"
  shows "\<exists>n rest w'. tx_queue_tx D q mbufs w = Ret (n, rest, w') \<and>
    mbufs = take n mbufs @ rest \<and> n + length rest = length mbufs \<and> n \<le> 64 \<and>
    (\<forall>m \<in> set (take n mbufs). \<not> mbuf_live V w' m) \<and>
    (\<forall>m. m \<notin> set (take n mbufs) \<and> mbuf_live V w m \<longrightarrow>
       mbuf_live V w' m \<and> mbuf_data D m w' = mbuf_data D m w)"
proof -
  obtain n w' where tx: "tx_queue_tx D q mbufs w = Ret (n, drop n mbufs, w')" "n \<le> min (length mbufs) 64"
    "\<forall>m \<in> set (take n mbufs). \<not> mbuf_live V w' m" "keeps D V (set (take n mbufs)) w w'"
    using tx_queue_tx_spec [OF assms] by blast
  then show ?thesis
    using keepsD [OF tx(4)] by (intro exI [of _ n] exI [of _ "drop n mbufs"] exI [of _ w']) auto
qed

theorem tx_sends_prefix_witness:
  "\<exists>n rest w'. tx_queue_tx sim_dpdk (tx_queue_new 0 0) [1, 2] (sim_world [] [] 1) = Ret (n, rest, w') \<and>
     [1, 2] = take n [1, 2] @ rest"
  using tx_sends_prefix [OF sim_mbuf_laws sim_tx_burst_law, of "tx_queue_new 0 0" "[1, 2]"] by blast

end
