(* ===== verification/Dpdk_Device.thy ===== *)
theory Dpdk_Device
  imports Queues "HOL-Library.Multiset"
begin

section \<open>The smoltcp device\<close>

text \<open>
  A model of \<^verbatim>\<open>dpdk-net/src/device/dpdk_device.rs\<close>: the device that smoltcp polls, with its
  receive batch of 64 and transmit batch of 256 buffers, the flush of the transmit batch, the
  refill of the receive batch, and the two sides of the shared ARP cache: queue 0 scans what it
  receives for ARP replies, every other queue injects what the cache holds into its own receive
  batch when the cache's version has moved.

  A shared cache (an \<open>Arc\<close>) is the address of a cache of the \<open>world\<close>. \<open>iter\<close> is the order in
  which a \<open>HashMap\<close> is iterated, which is unspecified: the properties assume only that it is a
  permutation of the entries. A token is what it lets its holder do: the receive token is the
  buffer taken from the batch, the transmit token is the right to call \<open>tx_token_consume\<close>. The
  closures smoltcp passes are functions: on a receive from the bytes read, on a transmit from
  the bytes of the slice to the result and the bytes written into it.
\<close>

definition DEFAULT_MBUF_HEADROOM :: nat where
  "DEFAULT_MBUF_HEADROOM = 128"

definition DEFAULT_MBUF_DATA_ROOM_SIZE :: nat where
  "DEFAULT_MBUF_DATA_ROOM_SIZE = 2048 + DEFAULT_MBUF_HEADROOM"

definition MAX_PACKET_OVERHEAD :: nat where
  "MAX_PACKET_OVERHEAD = 14 + 20 + 60"

definition rx_batch_capacity :: nat where
  "rx_batch_capacity = 64"

definition tx_batch_capacity :: nat where
  "tx_batch_capacity = 256"

record DpdkDevice =
  dev_rxq :: RxQueue
  dev_txq :: TxQueue
  dev_mempool :: ptr
  rx_batch :: "Mbuf list"
  tx_batch :: "Mbuf list"
  dev_mtu :: usize
  dev_mbuf_capacity :: usize
  dev_queue_id :: u16
  shared_arp_cache :: "nat option"
  our_mac :: "MacAddress option"
  our_ip :: "Ipv4Addr option"
  last_cache_version :: u64

definition dpdk_device_new :: "RxQueue \<Rightarrow> TxQueue \<Rightarrow> ptr \<Rightarrow> usize \<Rightarrow> usize \<Rightarrow> DpdkDevice outcome" where
  "dpdk_device_new rxq txq mempool mtu capacity =
     (if mtu + MAX_PACKET_OVERHEAD \<le> capacity then
        Ret \<lparr>dev_rxq = rxq, dev_txq = txq, dev_mempool = mempool, rx_batch = [], tx_batch = [],
             dev_mtu = mtu, dev_mbuf_capacity = capacity, dev_queue_id = 0, shared_arp_cache = None,
             our_mac = None, our_ip = None, last_cache_version = 0\<rparr>
      else Panic ''MTU + max overhead exceeds mbuf capacity'')"

definition with_shared_arp_cache :: "u16 \<Rightarrow> nat \<Rightarrow> MacAddress \<Rightarrow> Ipv4Addr \<Rightarrow> DpdkDevice \<Rightarrow> DpdkDevice" where
  "with_shared_arp_cache queue_id cache mac ip dev =
     dev\<lparr>dev_queue_id := queue_id, shared_arp_cache := Some cache, our_mac := Some mac, our_ip := Some ip\<rparr>"

definition flush_tx :: "'d dpdk \<Rightarrow> DpdkDevice \<Rightarrow> 'd world \<Rightarrow> (DpdkDevice \<times> 'd world) outcome" where
  "flush_tx D dev w =
     (if tx_batch dev \<noteq> [] then
        bind_outcome (tx_queue_tx D (dev_txq dev) (tx_batch dev) w)
          (\<lambda>(n, batch, w). Ret (dev\<lparr>tx_batch := batch\<rparr>, w))
      else Ret (dev, w))"

text \<open>Queue 0's scan of a received batch: every ARP reply goes into the shared cache.\<close>

fun scan_arp_replies :: "'d dpdk \<Rightarrow> nat \<Rightarrow> Mbuf list \<Rightarrow> 'd world \<Rightarrow> 'd world" where
  "scan_arp_replies D cache [] w = w"
| "scan_arp_replies D cache (mbuf # mbufs) w =
     (case parse_arp_reply (mbuf_data D mbuf w) of
        Some (ip, mac) \<Rightarrow>
          scan_arp_replies D cache mbufs
            (w\<lparr>caches := (caches w)(cache := arp_cache_insert (caches w cache) ip mac)\<rparr>)
      | None \<Rightarrow> scan_arp_replies D cache mbufs w)"

definition poll_rx :: "'d dpdk \<Rightarrow> DpdkDevice \<Rightarrow> 'd world \<Rightarrow> (DpdkDevice \<times> 'd world) outcome" where
  "poll_rx D dev w =
     bind_outcome (flush_tx D dev w) (\<lambda>(dev, w).
       if rx_batch dev = [] then
         let (n, batch, w) = rx_queue_rx D (dev_rxq dev) rx_batch_capacity (rx_batch dev) w;
             dev = dev\<lparr>rx_batch := batch\<rparr>
         in (case shared_arp_cache dev of
               Some cache \<Rightarrow>
                 if dev_queue_id dev = 0 then Ret (dev, scan_arp_replies D cache (rx_batch dev) w)
                 else Ret (dev, w)
             | None \<Rightarrow> Ret (dev, w))
       else Ret (dev, w))"

text \<open>The loop over the snapshot; the flag says whether every entry was injected.\<close>

fun inject_entries ::
  "'d dpdk \<Rightarrow> MacAddress \<Rightarrow> Ipv4Addr \<Rightarrow> arp_map \<Rightarrow> DpdkDevice \<Rightarrow> 'd world \<Rightarrow> bool \<times> DpdkDevice \<times> 'd world" where
  "inject_entries D our_m our_i [] dev w = (True, dev, w)"
| "inject_entries D our_m our_i ((ip, mac) # entries) dev w =
     (let arp_packet = build_arp_reply_for_injection our_m our_i mac ip in
      if length (rx_batch dev) < rx_batch_capacity then
        (case alloc_copied D (dev_mempool dev) arp_packet w of
           (Some mbuf, w) \<Rightarrow>
             inject_entries D our_m our_i entries (dev\<lparr>rx_batch := rx_batch dev @ [mbuf]\<rparr>) w
         | (None, w) \<Rightarrow> (False, dev, w))
      else (False, dev, w))"

definition inject_from_shared_cache ::
  "'d dpdk \<Rightarrow> (arp_map \<Rightarrow> arp_map) \<Rightarrow> DpdkDevice \<Rightarrow> 'd world \<Rightarrow> DpdkDevice \<times> 'd world" where
  "inject_from_shared_cache D iter dev w =
     (if dev_queue_id dev = 0 then (dev, w)
      else
        (case (shared_arp_cache dev, our_mac dev, our_ip dev) of
           (Some cache, Some mac, Some ip) \<Rightarrow>
             let current_version = cache_version (caches w cache) in
             if current_version = last_cache_version dev then (dev, w)
             else
               let cache_snapshot = arp_cache_snapshot (caches w cache) in
               (case inject_entries D mac ip (iter cache_snapshot) dev w of
                  (True, dev, w) \<Rightarrow> (dev\<lparr>last_cache_version := current_version\<rparr>, w)
                | (False, dev, w) \<Rightarrow> (dev, w))
         | _ \<Rightarrow> (dev, w)))"

definition inject_rx_packet :: "'d dpdk \<Rightarrow> bytes \<Rightarrow> DpdkDevice \<Rightarrow> 'd world \<Rightarrow> bool \<times> DpdkDevice \<times> 'd world" where
  "inject_rx_packet D bs dev w =
     (if length (rx_batch dev) \<ge> rx_batch_capacity then (False, dev, w)
      else
        (case alloc_copied D (dev_mempool dev) bs w of
           (Some mbuf, w) \<Rightarrow> (True, dev\<lparr>rx_batch := rx_batch dev @ [mbuf]\<rparr>, w)
         | (None, w) \<Rightarrow> (False, dev, w)))"

definition device_receive ::
  "'d dpdk \<Rightarrow> (arp_map \<Rightarrow> arp_map) \<Rightarrow> DpdkDevice \<Rightarrow> 'd world \<Rightarrow> (Mbuf option \<times> DpdkDevice \<times> 'd world) outcome" where
  "device_receive D iter dev w =
     bind_outcome (poll_rx D dev w) (\<lambda>(dev, w).
       let (dev, w) = inject_from_shared_cache D iter dev w in
       if rx_batch dev = [] then Ret (None, dev, w)
       else Ret (Some (last (rx_batch dev)), dev\<lparr>rx_batch := butlast (rx_batch dev)\<rparr>, w))"

definition device_transmit :: "'d dpdk \<Rightarrow> DpdkDevice \<Rightarrow> 'd world \<Rightarrow> (bool \<times> DpdkDevice \<times> 'd world) outcome" where
  "device_transmit D dev w =
     (if length (tx_batch dev) < tx_batch_capacity then Ret (True, dev, w)
      else bind_outcome (flush_tx D dev w) (\<lambda>(dev, w).
        Ret (length (tx_batch dev) < tx_batch_capacity, dev, w)))"

datatype Medium = Ethernet

definition device_capabilities :: "DpdkDevice \<Rightarrow> usize \<times> Medium" where
  "device_capabilities dev = (dev_mtu dev, Ethernet)"

text \<open>\<open>DpdkRxToken::consume\<close>: the buffer is dropped once the closure has read it.\<close>

definition rx_token_consume :: "'d dpdk \<Rightarrow> Mbuf \<Rightarrow> (bytes \<Rightarrow> 'r) \<Rightarrow> 'd world \<Rightarrow> 'r \<times> 'd world" where
  "rx_token_consume D mbuf f w = (f (mbuf_data D mbuf w), mbuf_drop D mbuf w)"

definition tx_token_consume ::
  "'d dpdk \<Rightarrow> usize \<Rightarrow> (bytes \<Rightarrow> 'r \<times> bytes) \<Rightarrow> DpdkDevice \<Rightarrow> 'd world \<Rightarrow> ('r \<times> DpdkDevice \<times> 'd world) outcome" where
  "tx_token_consume D len f dev w =
     (case mempool_try_alloc D (dev_mempool dev) w of
        (Some mbuf, w) \<Rightarrow>
          let w = mbuf_extend D mbuf len w;
              (p, n) = mbuf_data_mut D mbuf w;
              (res, bs) = f (from_raw_parts (mem w) p n);
              w = w\<lparr>mem := write_raw (mem w) p bs\<rparr>
          in if length (tx_batch dev) < tx_batch_capacity
             then Ret (res, dev\<lparr>tx_batch := tx_batch dev @ [mbuf]\<rparr>, w)
             else Panic ''tx_batch should have space (checked in transmit())''
      | (None, w) \<Rightarrow>
          let (res, bs) = f (replicate len 0) in Ret (res, dev, w))"

text \<open>A Rust slice keeps its length under what a closure writes into it.\<close>

definition writes_slice :: "(bytes \<Rightarrow> 'r \<times> bytes) \<Rightarrow> bool" where
  "writes_slice f \<longleftrightarrow> (\<forall>bs. length (snd (f bs)) = length bs)"

subsection \<open>Lemmas\<close>

lemma mbuf_data_caches [simp]: "mbuf_data D m (w\<lparr>caches := c\<rparr>) = mbuf_data D m w"
  by (simp add: mbuf_data_def mbuf_data_len_def Let_def)

lemma mbuf_live_caches [simp]: "mbuf_live V (w\<lparr>caches := c\<rparr>) m = mbuf_live V w m"
  by (simp add: mbuf_live_def)

text \<open>Learning a list of address pairs, and the pairs a batch of frames announces.\<close>

definition learn :: "(Ipv4Addr \<times> MacAddress) list \<Rightarrow> SharedArpCache \<Rightarrow> SharedArpCache" where
  "learn ps c = fold (\<lambda>(ip, mac) c. arp_cache_insert c ip mac) ps c"

definition announced :: "'d dpdk \<Rightarrow> 'd world \<Rightarrow> Mbuf list \<Rightarrow> (Ipv4Addr \<times> MacAddress) list" where
  "announced D w mbufs = List.map_filter (\<lambda>m. parse_arp_reply (mbuf_data D m w)) mbufs"

lemma announced_simps [simp]:
  "announced D w [] = []"
  "announced D w (m # ms) =
     (case parse_arp_reply (mbuf_data D m w) of None \<Rightarrow> announced D w ms | Some p \<Rightarrow> p # announced D w ms)"
  "announced D (w\<lparr>caches := c\<rparr>) ms = announced D w ms"
  by (simp_all add: announced_def map_filter_simps split: option.splits)

lemma learn_simps [simp]:
  "learn [] c = c" "learn ((ip, mac) # ps) c = learn ps (arp_cache_insert c ip mac)"
  by (simp_all add: learn_def)

lemma scan_arp_replies_eq:
  "scan_arp_replies D cache mbufs w =
     w\<lparr>caches := (caches w)(cache := learn (announced D w mbufs) (caches w cache))\<rparr>"
proof (induction mbufs arbitrary: w)
  case (Cons m ms)
  then show ?case
    by (cases "parse_arp_reply (mbuf_data D m w)") (auto cong: if_cong)
qed simp

lemma flush_tx_spec:
  assumes "dpdk_laws D V"
  shows "\<exists>n w'. flush_tx D dev w = Ret (dev\<lparr>tx_batch := drop n (tx_batch dev)\<rparr>, w') \<and>
    n \<le> min (length (tx_batch dev)) 64 \<and> keeps D V (set (take n (tx_batch dev))) w w' \<and>
    (\<forall>m \<in> set (take n (tx_batch dev)). \<not> mbuf_live V w' m)"
proof (cases "tx_batch dev = []")
  case True
  then show ?thesis by (intro exI [of _ 0] exI [of _ w]) (simp add: flush_tx_def)
next
  case False
  then show ?thesis
    using tx_queue_tx_spec [OF dpdk_lawsD(1,3) [OF assms], of "dev_txq dev" "tx_batch dev" w]
    by (auto simp: flush_tx_def)
qed

text \<open>Whether a device publishes the ARP replies of the batch it has just received.\<close>

definition publishes :: "DpdkDevice \<Rightarrow> nat option" where
  "publishes dev = (if dev_queue_id dev = 0 then shared_arp_cache dev else None)"

definition publish :: "'d dpdk \<Rightarrow> DpdkDevice \<Rightarrow> Mbuf list \<Rightarrow> 'd world \<Rightarrow> 'd world" where
  "publish D dev new w =
     (case publishes dev of None \<Rightarrow> w | Some cache \<Rightarrow>
        w\<lparr>caches := (caches w)(cache := learn (announced D w new) (caches w cache))\<rparr>)"

lemma publish_mbuf [simp]:
  "mbuf_live V (publish D dev new w) m = mbuf_live V w m"
  "mbuf_data D' m (publish D dev new w) = mbuf_data D' m w"
  by (auto simp: publish_def split: option.splits)

lemma poll_rx_spec:
  assumes laws: "dpdk_laws D V" and cap: "length (rx_batch dev) \<le> rx_batch_capacity"
  shows "\<exists>n new w1 w2.
    poll_rx D dev w = Ret (dev\<lparr>tx_batch := drop n (tx_batch dev), rx_batch := rx_batch dev @ new\<rparr>,
      if rx_batch dev = [] then publish D dev new w2 else w2) \<and>
    n \<le> min (length (tx_batch dev)) 64 \<and> keeps D V (set (take n (tx_batch dev))) w w1 \<and>
    (\<forall>m \<in> set (take n (tx_batch dev)). \<not> mbuf_live V w1 m) \<and>
    (rx_batch dev \<noteq> [] \<longrightarrow> new = []) \<and> length new \<le> rx_batch_capacity \<and> distinct new \<and>
    (\<forall>m \<in> set new. \<not> mbuf_live V w1 m \<and> mbuf_live V w2 m) \<and> keeps D V (set new) w1 w2"
proof -
  obtain n w1 where f: "flush_tx D dev w = Ret (dev\<lparr>tx_batch := drop n (tx_batch dev)\<rparr>, w1)"
    "n \<le> min (length (tx_batch dev)) 64" "keeps D V (set (take n (tx_batch dev))) w w1"
    "\<forall>m \<in> set (take n (tx_batch dev)). \<not> mbuf_live V w1 m"
    using flush_tx_spec [OF laws] by blast
  show ?thesis
  proof (cases "rx_batch dev = []")
    case False
    then show ?thesis
      using f by (intro exI [of _ n] exI [of _ "[]"] exI [of _ w1]) (simp add: poll_rx_def)
  next
    case True
    obtain k batch w2 where rx: "rx_queue_rx D (dev_rxq dev) rx_batch_capacity [] w1 = (k, batch, w2)"
      by (metis prod_cases3)
    have new: "length batch \<le> rx_batch_capacity" "distinct batch"
      "\<forall>m \<in> set batch. \<not> mbuf_live V w1 m \<and> mbuf_live V w2 m" "keeps D V (set batch) w1 w2"
      using rx_queue_rx_spec [OF dpdk_lawsD(1,2) [OF laws] _ rx] by auto
    have "poll_rx D dev w = Ret (dev\<lparr>tx_batch := drop n (tx_batch dev), rx_batch := batch\<rparr>, publish D dev batch w2)"
      using f(1) rx True
      by (auto simp: poll_rx_def publish_def publishes_def scan_arp_replies_eq split: option.splits)
    then show ?thesis
      using True f new by (intro exI [of _ n] exI [of _ batch] exI [of _ w1] exI [of _ w2]) simp
  qed
qed

text \<open>
  What the injection loop does: it appends the frames of a prefix of the entries, all of them
  when it reports success, and stops with the batch full or an allocation or copy refused.
\<close>

definition arp_frames :: "MacAddress \<Rightarrow> Ipv4Addr \<Rightarrow> arp_map \<Rightarrow> bytes list" where
  "arp_frames mac ip = map (\<lambda>(peer_ip, peer_mac). build_arp_reply_for_injection mac ip peer_mac peer_ip)"

lemma inject_entries_spec:
  assumes laws: "mbuf_laws D V" and "length (rx_batch dev) \<le> rx_batch_capacity"
    and "inject_entries D mac ip entries dev w = (ok, dev', w')"
  shows "\<exists>new. dev' = dev\<lparr>rx_batch := rx_batch dev @ new\<rparr> \<and>
    length (rx_batch dev) + length new \<le> rx_batch_capacity \<and> distinct new \<and>
    (\<forall>m \<in> set new. \<not> mbuf_live V w m \<and> mbuf_live V w' m) \<and> keeps D V (set new) w w' \<and>
    map (\<lambda>m. mbuf_data D m w') new = arp_frames mac ip (take (length new) entries) \<and>
    length new \<le> length entries \<and> (ok \<longleftrightarrow> length new = length entries)"
  using assms(2,3)
proof (induction entries arbitrary: dev w)
  case Nil
  then show ?case by (intro exI [of _ "[]"]) (auto simp: arp_frames_def)
next
  case (Cons e entries)
  obtain i k where e: "e = (i, k)" by fastforce
  let ?p = "build_arp_reply_for_injection mac ip k i"
  obtain r w1 where al: "alloc_copied D (dev_mempool dev) ?p w = (r, w1)" by fastforce
  show ?case
  proof (cases "length (rx_batch dev) < rx_batch_capacity \<and> r \<noteq> None")
    case False
    then have "\<not> ok" "dev' = dev" "w' = w \<or> r = None \<and> w' = w1"
      using Cons.prems(2) al by (auto simp: e Let_def split: if_splits option.splits)
    moreover have "r = None \<Longrightarrow> keeps D V {} w w1"
      using alloc_copied_None [OF laws] al by blast
    ultimately show ?thesis using Cons.prems(1) by (intro exI [of _ "[]"]) (auto simp: arp_frames_def)
  next
    case True
    then obtain m where m: "r = Some m" by auto
    have fresh: "\<not> mbuf_live V w m" "mbuf_live V w1 m" "mbuf_data D m w1 = ?p" "keeps D V {m} w w1"
      using alloc_copied_Some [OF laws] al m by blast+
    let ?d = "dev\<lparr>rx_batch := rx_batch dev @ [m]\<rparr>"
    have rec: "inject_entries D mac ip entries ?d w1 = (ok, dev', w')"
      using Cons.prems(2) al m True by (simp add: e)
    obtain new where new: "dev' = ?d\<lparr>rx_batch := rx_batch ?d @ new\<rparr>"
      "length (rx_batch ?d) + length new \<le> rx_batch_capacity" "distinct new"
      "\<forall>x \<in> set new. \<not> mbuf_live V w1 x \<and> mbuf_live V w' x" "keeps D V (set new) w1 w'"
      "map (\<lambda>m. mbuf_data D m w') new = arp_frames mac ip (take (length new) entries)"
      "length new \<le> length entries" "ok \<longleftrightarrow> length new = length entries"
      using Cons.IH [OF _ rec] True by auto
    have mnew: "m \<notin> set new" using new(4) fresh(2) by blast
    have "mbuf_live V w' m" "mbuf_data D m w' = ?p"
      using keepsD [OF new(5) mnew] fresh by simp_all
    moreover have "\<forall>x \<in> set new. \<not> mbuf_live V w x"
      using new(4) keepsD(1) [OF fresh(4)] mnew by fastforce
    moreover have "keeps D V (set (m # new)) w w'"
      using keeps_trans [OF fresh(4) new(5)] by simp
    ultimately show ?thesis
      using new fresh(1) mnew
      by (intro exI [of _ "m # new"]) (simp add: arp_frames_def e)
  qed
qed

subsection \<open>Who holds which buffer\<close>

definition held :: "'d view \<Rightarrow> 'd world \<Rightarrow> Mbuf list \<Rightarrow> bool" where
  "held V w ms \<longleftrightarrow> distinct ms \<and> (\<forall>m \<in> set ms. mbuf_live V w m)"

text \<open>
  The invariant of a device: its batches respect their capacities, and their buffers are held,
  each in one place only: in the receive batch, in the transmit batch or among the buffers
  others hold (tokens, other devices).
\<close>

definition device_inv :: "'d view \<Rightarrow> Mbuf list \<Rightarrow> DpdkDevice \<Rightarrow> 'd world \<Rightarrow> bool" where
  "device_inv V others dev w \<longleftrightarrow>
     length (rx_batch dev) \<le> rx_batch_capacity \<and> length (tx_batch dev) \<le> tx_batch_capacity \<and>
     held V w (rx_batch dev @ tx_batch dev @ others)"

lemma held_publish [simp]: "held V (publish D dev new w) ms = held V w ms"
  by (simp add: held_def)

lemma held_mset: "mset ms = mset ms' \<Longrightarrow> held V w ms = held V w ms'"
  unfolding held_def using mset_eq_imp_distinct_iff mset_eq_setD by metis

lemma held_pop:
  assumes "xs \<noteq> []"
  shows "held V w (butlast xs @ ys @ last xs # zs) = held V w (xs @ ys @ zs)"
  using assms by (intro held_mset) (cases xs rule: rev_cases; simp)

lemma held_drop:
  assumes "held V w (xs @ ys @ zs)" and k: "keeps D V (set (take n ys)) w w'"
  shows "held V w' (xs @ drop n ys @ zs)"
proof -
  have "held V w ((xs @ take n ys) @ drop n ys @ zs)"
    using assms(1) by (metis append.assoc append_take_drop_id)
  then have d: "distinct (xs @ take n ys @ drop n ys @ zs)"
    and l: "\<forall>m \<in> set (xs @ drop n ys @ zs). mbuf_live V w m"
    unfolding held_def by (auto simp del: append_take_drop_id dest: in_set_takeD in_set_dropD)
  then have "\<forall>m \<in> set (xs @ drop n ys @ zs). m \<notin> set (take n ys)"
    by (auto simp del: append_take_drop_id)
  then show ?thesis using d l keepsD(1) [OF k] unfolding held_def
    by (auto simp del: append_take_drop_id)
qed

lemma held_add:
  assumes "held V w (xs @ zs)" and "distinct new" and "keeps D V (set new) w w'"
    and "\<forall>m \<in> set new. \<not> mbuf_live V w m \<and> mbuf_live V w' m"
  shows "held V w' (xs @ new @ zs)"
proof -
  have "\<forall>m \<in> set (xs @ zs). m \<notin> set new" using assms(1,4) by (auto simp: held_def)
  then show ?thesis
    using assms(1,2,4) keepsD(1) [OF assms(3)] by (auto simp: held_def)
qed

lemma device_inv_new:
  assumes "dpdk_device_new rxq txq pool mtu cap = Ret dev" and "held V w others"
  shows "device_inv V others dev w"
  using assms by (auto simp: dpdk_device_new_def device_inv_def split: if_splits)

lemma flush_tx_inv:
  assumes laws: "dpdk_laws D V" and inv: "device_inv V others dev w"
  obtains n w' where "flush_tx D dev w = Ret (dev\<lparr>tx_batch := drop n (tx_batch dev)\<rparr>, w')"
    "n \<le> min (length (tx_batch dev)) 64"
    "device_inv V others (dev\<lparr>tx_batch := drop n (tx_batch dev)\<rparr>) w'" "caches w' = caches w"
proof -
  obtain n w' where f: "flush_tx D dev w = Ret (dev\<lparr>tx_batch := drop n (tx_batch dev)\<rparr>, w')"
    "n \<le> min (length (tx_batch dev)) 64" "keeps D V (set (take n (tx_batch dev))) w w'"
    using flush_tx_spec [OF laws] by blast
  have "device_inv V others (dev\<lparr>tx_batch := drop n (tx_batch dev)\<rparr>) w'"
    using inv held_drop [OF _ f(3)] by (auto simp: device_inv_def)
  then show thesis using f keeps_caches [OF f(3)] by (intro that [of n w']) auto
qed

lemma poll_rx_inv:
  assumes laws: "dpdk_laws D V" and inv: "device_inv V others dev w"
  obtains n new w' where
    "poll_rx D dev w = Ret (dev\<lparr>tx_batch := drop n (tx_batch dev), rx_batch := rx_batch dev @ new\<rparr>, w')"
    "device_inv V others (dev\<lparr>tx_batch := drop n (tx_batch dev), rx_batch := rx_batch dev @ new\<rparr>) w'"
    "rx_batch dev \<noteq> [] \<longrightarrow> new = [] \<and> caches w' = caches w"
    "n \<le> length (tx_batch dev)"
    "\<And>cache. rx_batch dev = [] \<Longrightarrow> publishes dev = Some cache \<Longrightarrow>
       caches w' = (caches w)(cache := learn (announced D w' new) (caches w cache))"
    "publishes dev = None \<Longrightarrow> caches w' = caches w"
proof -
  have cap: "length (rx_batch dev) \<le> rx_batch_capacity" using inv by (simp add: device_inv_def)
  obtain n new w1 w2 where p:
    "poll_rx D dev w = Ret (dev\<lparr>tx_batch := drop n (tx_batch dev), rx_batch := rx_batch dev @ new\<rparr>,
      if rx_batch dev = [] then publish D dev new w2 else w2)"
    and n: "n \<le> min (length (tx_batch dev)) 64"
    and k: "keeps D V (set (take n (tx_batch dev))) w w1"
    and new: "rx_batch dev \<noteq> [] \<longrightarrow> new = []" "length new \<le> rx_batch_capacity" "distinct new"
      "\<forall>m \<in> set new. \<not> mbuf_live V w1 m \<and> mbuf_live V w2 m" "keeps D V (set new) w1 w2"
    using poll_rx_spec [OF laws cap, of w] by blast
  have h1: "held V w1 (rx_batch dev @ drop n (tx_batch dev) @ others)"
    using inv by (intro held_drop [OF _ k]) (simp add: device_inv_def)
  have h2: "held V w2 (rx_batch dev @ new @ drop n (tx_batch dev) @ others)"
    by (rule held_add [OF h1 new(3,5,4)])
  have c: "caches w2 = caches w" using keeps_caches [OF k] keeps_caches [OF new(5)] by simp
  let ?w = "if rx_batch dev = [] then publish D dev new w2 else w2"
  have "device_inv V others (dev\<lparr>tx_batch := drop n (tx_batch dev), rx_batch := rx_batch dev @ new\<rparr>) ?w"
    using h2 inv new(1,2) by (auto simp: device_inv_def)
  then show thesis
    using p n c new(1)
    by (intro that [where n = n and new = new and w' = ?w]) (auto simp: publish_def split: option.splits)
qed

lemma inject_inv:
  assumes laws: "mbuf_laws D V" and inv: "device_inv V others dev w"
  obtains new v w' where
    "inject_from_shared_cache D iter dev w = (dev\<lparr>rx_batch := rx_batch dev @ new, last_cache_version := v\<rparr>, w')"
    "device_inv V others (dev\<lparr>rx_batch := rx_batch dev @ new, last_cache_version := v\<rparr>) w'"
    "caches w' = caches w"
    "dev_queue_id dev = 0 \<longrightarrow> new = [] \<and> v = last_cache_version dev"
    "\<And>cache mac ip. dev_queue_id dev \<noteq> 0 \<Longrightarrow> shared_arp_cache dev = Some cache \<Longrightarrow>
       our_mac dev = Some mac \<Longrightarrow> our_ip dev = Some ip \<Longrightarrow>
       (if cache_version (caches w cache) = last_cache_version dev
        then new = [] \<and> v = last_cache_version dev
        else map (\<lambda>m. mbuf_data D m w') new =
             arp_frames mac ip (take (length new) (iter (arp_cache_snapshot (caches w cache)))) \<and>
             length new \<le> length (iter (arp_cache_snapshot (caches w cache))) \<and>
             v = (if length new = length (iter (arp_cache_snapshot (caches w cache)))
                  then cache_version (caches w cache) else last_cache_version dev))"
proof (cases "dev_queue_id dev \<noteq> 0 \<and> shared_arp_cache dev \<noteq> None \<and> our_mac dev \<noteq> None \<and> our_ip dev \<noteq> None
    \<and> cache_version (caches w (the (shared_arp_cache dev))) \<noteq> last_cache_version dev")
  case False
  then have "inject_from_shared_cache D iter dev w = (dev, w)"
    by (auto simp: inject_from_shared_cache_def split: option.splits)
  then show thesis
    using inv False by (intro that [where new = "[]" and v = "last_cache_version dev" and w' = w]) auto
next
  case True
  then obtain cache mac ip where g: "dev_queue_id dev \<noteq> 0" "shared_arp_cache dev = Some cache"
    "our_mac dev = Some mac" "our_ip dev = Some ip" "cache_version (caches w cache) \<noteq> last_cache_version dev"
    by auto
  let ?es = "iter (arp_cache_snapshot (caches w cache))"
  obtain ok dev1 w1 where run: "inject_entries D mac ip ?es dev w = (ok, dev1, w1)" by (metis prod_cases3)
  have cap: "length (rx_batch dev) \<le> rx_batch_capacity" using inv by (simp add: device_inv_def)
  obtain new where new: "dev1 = dev\<lparr>rx_batch := rx_batch dev @ new\<rparr>"
    "length (rx_batch dev) + length new \<le> rx_batch_capacity" "distinct new"
    "\<forall>m \<in> set new. \<not> mbuf_live V w m \<and> mbuf_live V w1 m" "keeps D V (set new) w w1"
    "map (\<lambda>m. mbuf_data D m w1) new = arp_frames mac ip (take (length new) ?es)"
    "length new \<le> length ?es" "ok \<longleftrightarrow> length new = length ?es"
    using inject_entries_spec [OF laws cap run] by blast
  let ?v = "if ok then cache_version (caches w cache) else last_cache_version dev"
  have r: "inject_from_shared_cache D iter dev w = (dev\<lparr>rx_batch := rx_batch dev @ new, last_cache_version := ?v\<rparr>, w1)"
    using g run new(1) by (cases ok) (simp_all add: inject_from_shared_cache_def)
  have "held V w1 (rx_batch dev @ new @ tx_batch dev @ others)"
    using inv by (intro held_add [OF _ new(3,5,4)]) (simp add: device_inv_def)
  then have "device_inv V others (dev\<lparr>rx_batch := rx_batch dev @ new, last_cache_version := ?v\<rparr>) w1"
    using inv new(2) by (simp add: device_inv_def)
  then show thesis
    using r g new keeps_caches [OF new(5)] by (intro that [where new = new and v = ?v and w' = w1]) auto
qed

subsection \<open>The transmit token\<close>

lemma tx_token_consume_Some:
  assumes laws: "mbuf_laws D V" and al: "mempool_try_alloc D (dev_mempool dev) w = (Some m, w1)"
    and room: "len \<le> mbuf_tailroom D m w1" and f: "writes_slice f"
    and cap: "length (tx_batch dev) < tx_batch_capacity"
  shows "\<exists>bs w'. tx_token_consume D len f dev w = Ret (fst (f bs), dev\<lparr>tx_batch := tx_batch dev @ [m]\<rparr>, w') \<and>
    length bs = len \<and> mbuf_data D m w' = snd (f bs) \<and> \<not> mbuf_live V w m \<and> mbuf_live V w' m \<and> keeps D V {m} w w'"
proof -
  note A = mbuf_alloc_Some [OF laws al [unfolded mempool_try_alloc_def]]
  let ?w2 = "mbuf_extend D m len w1"
  note E = mbuf_extend_spec [OF laws A(2) room]
  have dl: "mbuf_data_len D m ?w2 = len" using E(2) A(5) by simp
  obtain p n where pn: "mbuf_data_mut D m ?w2 = (p, n)" by fastforce
  have q: "pktmbuf_mtod D m (rte ?w2) \<noteq> 0" "area_lo V m \<le> pktmbuf_mtod D m (rte ?w2)"
    "pktmbuf_mtod D m (rte ?w2) + len \<le> area_hi V m"
    using area_lawsD(2,3,4) [OF laws, of m "rte ?w2"] E(1) dl by (auto simp: mbuf_live_def mbuf_data_len_def)
  have n: "n = len" and p: "len \<noteq> 0 \<Longrightarrow> p = pktmbuf_mtod D m (rte ?w2)"
    using pn q(1) dl by (auto simp: mbuf_data_mut_def Let_def split: if_splits)
  define bs where "bs = from_raw_parts (mem ?w2) p n"
  define w' where "w' = ?w2\<lparr>mem := write_raw (mem ?w2) p (snd (f bs))\<rparr>"
  have len: "length bs = len" "length (snd (f bs)) = len"
    using f n by (simp_all add: bs_def writes_slice_def)
  have run: "tx_token_consume D len f dev w = Ret (fst (f bs), dev\<lparr>tx_batch := tx_batch dev @ [m]\<rparr>, w')"
    using al pn cap by (simp add: tx_token_consume_def bs_def w'_def Let_def case_prod_beta)
  have "mbuf_data D m w' = snd (f bs)"
  proof (cases "len = 0")
    case True
    then show ?thesis using len dl by (simp add: mbuf_data_def mbuf_data_len_def w'_def)
  next
    case False
    then show ?thesis
      using p q(1) dl len by (simp add: mbuf_data_def mbuf_data_len_def w'_def Let_def)
  qed
  moreover have "keeps D V {m} ?w2 w'"
  proof (rule keepsI [OF laws])
    fix m' a assume m': "m' \<notin> {m}" "live V m' (rte ?w2)" "area_lo V m' \<le> a" "a < area_hi V m'"
    show "mem w' a = mem ?w2 a"
    proof (cases "len = 0")
      case True
      then show ?thesis using len by (auto simp: w'_def write_raw_def)
    next
      case False
      then show ?thesis
        using write_raw_outside [OF laws E(1) [unfolded mbuf_live_def] m'(2)] m' q p len
        by (auto simp: w'_def)
    qed
  qed (simp_all add: w'_def)
  then have "keeps D V {m} w w'"
    using keeps_trans [OF keeps_trans [OF A(4) E(6)], of "{m}" w'] by simp
  moreover have "mbuf_live V w' m" using E(1) by (simp add: w'_def mbuf_live_def)
  ultimately show ?thesis using run len(1) A(1) by blast
qed

lemma tx_token_consume_panics:
  "panics (tx_token_consume D len f dev w) \<longleftrightarrow>
     tx_batch_capacity \<le> length (tx_batch dev) \<and> fst (mempool_try_alloc D (dev_mempool dev) w) \<noteq> None"
  by (cases "mempool_try_alloc D (dev_mempool dev) w")
    (auto simp: tx_token_consume_def Let_def case_prod_beta split: option.splits if_splits)

subsection \<open>Properties\<close>

text \<open>A fresh device, on which the witnesses run.\<close>

definition sim_device :: DpdkDevice where
  "sim_device = \<lparr>dev_rxq = rx_queue_new 0 0, dev_txq = tx_queue_new 0 0, dev_mempool = 0, rx_batch = [],
     tx_batch = [], dev_mtu = 1500, dev_mbuf_capacity = 2048, dev_queue_id = 0, shared_arp_cache = None,
     our_mac = None, our_ip = None, last_cache_version = 0\<rparr>"

lemma sim_device_inv: "device_inv sim_view [] sim_device w"
  by (simp add: sim_device_def device_inv_def held_def)

text \<open>
  Creating a device panics exactly when the MTU and the largest packet overhead do not fit
  a buffer. Otherwise the device starts with empty batches, announces the MTU on an Ethernet
  medium, and satisfies the ownership invariant.
\<close>

theorem dpdk_device_new_correct:
  assumes "held V w others"
  shows "if mtu + 94 > capacity then panics (dpdk_device_new rxq txq pool mtu capacity)
    else \<exists>dev. dpdk_device_new rxq txq pool mtu capacity = Ret dev \<and> rx_batch dev = [] \<and> tx_batch dev = [] \<and>
      device_capabilities dev = (mtu, Ethernet) \<and> device_inv V others dev w \<and>
      device_inv V others (with_shared_arp_cache q c mac ip dev) w"
  using assms
  by (auto simp: dpdk_device_new_def MAX_PACKET_OVERHEAD_def device_capabilities_def device_inv_def
      with_shared_arp_cache_def)

theorem dpdk_device_new_correct_witness:
  "panics (dpdk_device_new (rx_queue_new 0 0) (tx_queue_new 0 0) 0 2000 2048) \<and>
   (\<exists>dev. dpdk_device_new (rx_queue_new 0 0) (tx_queue_new 0 0) 0 1500 2048 = Ret dev \<and>
      device_inv sim_view [] dev (sim_world [] [] 0))"
proof -
  have h: "held sim_view (sim_world [] [] 0) []" by (simp add: held_def)
  show ?thesis
    using dpdk_device_new_correct [OF h, of 2048 2000 "rx_queue_new 0 0" "tx_queue_new 0 0" 0]
      dpdk_device_new_correct [OF h, of 2048 1500 "rx_queue_new 0 0" "tx_queue_new 0 0" 0 0 0 "Mac 0 0 0 0 0 0" "Ipv4 0 0 0 0"]
    by auto
qed



text \<open>
  (C36) Asking for a transmit token never panics, and a token granted this way never panics when
  it is used, whatever length smoltcp asks for: the batch has room. A token is refused only when
  the batch still holds 256 frames after a flush, that is, when the hardware took none of them.
\<close>

theorem transmit_token_never_panics:
  assumes "dpdk_laws D V" and "device_inv V others dev w"
  shows "\<exists>granted dev' w'. device_transmit D dev w = Ret (granted, dev', w') \<and>
    device_inv V others dev' w' \<and>
    (if granted then \<not> panics (tx_token_consume D len f dev' w')
     else length (tx_batch dev) = 256 \<and> tx_batch dev' = tx_batch dev)"
proof (cases "length (tx_batch dev) < tx_batch_capacity")
  case True
  then show ?thesis using assms(2) tx_token_consume_panics [of D len f dev w]
    by (auto simp: device_transmit_def)
next
  case False
  obtain n w' where f: "flush_tx D dev w = Ret (dev\<lparr>tx_batch := drop n (tx_batch dev)\<rparr>, w')"
    "device_inv V others (dev\<lparr>tx_batch := drop n (tx_batch dev)\<rparr>) w'"
    by (rule flush_tx_inv [OF assms]) blast
  let ?d = "dev\<lparr>tx_batch := drop n (tx_batch dev)\<rparr>"
  have "device_transmit D dev w = Ret (length (tx_batch ?d) < tx_batch_capacity, ?d, w')"
    using False f(1) by (simp add: device_transmit_def)
  moreover have "length (tx_batch dev) = 256"
    using False assms(2) by (simp add: device_inv_def tx_batch_capacity_def)
  moreover have "n = 0" if "\<not> length (drop n (tx_batch dev)) < 256" "length (tx_batch dev) = 256"
    using that by simp
  ultimately show ?thesis
    using f(2) tx_token_consume_panics [of D len f ?d w']
    by (cases "length (drop n (tx_batch dev)) < 256") (auto simp: tx_batch_capacity_def)
qed

theorem transmit_token_never_panics_witness:
  "\<exists>granted dev' w'. device_transmit sim_dpdk sim_device (sim_world [1, 2] [] 0) = Ret (granted, dev', w') \<and>
     (granted \<longrightarrow> \<not> panics (tx_token_consume sim_dpdk 60 (\<lambda>bs. ((), bs)) dev' w'))"
  using transmit_token_never_panics [OF sim_dpdk_laws sim_device_inv,
      of "sim_world [1, 2] [] 0" 60 "\<lambda>bs. ((), bs)"] by (auto split: if_splits)

text \<open>
 Using a transmit token with room in the batch and a buffer from the pool large enough for
  the frame puts exactly the bytes smoltcp wrote at the end of the transmit batch, in a buffer
  nobody held, and changes no other buffer.
\<close>

theorem tx_token_enqueues_frame:
  assumes "dpdk_laws D V" and "device_inv V others dev w" and "writes_slice f"
    and "length (tx_batch dev) < 256"
    and "mempool_try_alloc D (dev_mempool dev) w = (Some m, w1)" and "len \<le> mbuf_tailroom D m w1"
  shows "\<exists>bs dev' w'. tx_token_consume D len f dev w = Ret (fst (f bs), dev', w') \<and> length bs = len \<and>
    dev' = dev\<lparr>tx_batch := tx_batch dev @ [m]\<rparr> \<and> mbuf_data D m w' = snd (f bs) \<and>
    device_inv V others dev' w' \<and>
    (\<forall>m' \<in> set (rx_batch dev @ tx_batch dev @ others). mbuf_data D m' w' = mbuf_data D m' w)"
proof -
  have cap: "length (tx_batch dev) < tx_batch_capacity" using assms(4) by (simp add: tx_batch_capacity_def)
  obtain bs w' where c: "tx_token_consume D len f dev w = Ret (fst (f bs), dev\<lparr>tx_batch := tx_batch dev @ [m]\<rparr>, w')"
    "length bs = len" "mbuf_data D m w' = snd (f bs)" "\<not> mbuf_live V w m" "mbuf_live V w' m" "keeps D V {m} w w'"
    using tx_token_consume_Some [OF dpdk_lawsD(1) [OF assms(1)] assms(5,6,3) cap] by blast
  have h: "held V w ((rx_batch dev @ tx_batch dev) @ others)" using assms(2) by (simp add: device_inv_def)
  have "held V w' ((rx_batch dev @ tx_batch dev) @ [m] @ others)"
    by (rule held_add [OF h _ _]) (use c in auto)
  then have "device_inv V others (dev\<lparr>tx_batch := tx_batch dev @ [m]\<rparr>) w'"
    using assms(2) cap by (simp add: device_inv_def)
  moreover have "mbuf_data D m' w' = mbuf_data D m' w" if "m' \<in> set (rx_batch dev @ tx_batch dev @ others)" for m'
  proof -
    have "mbuf_live V w m'" using that h by (auto simp: held_def)
    then show ?thesis using keepsD(2) [OF c(6), of m'] c(4) by auto
  qed
  ultimately show ?thesis using c by blast
qed

theorem tx_token_enqueues_frame_witness:
  "\<exists>(bs :: bytes) dev' w'. tx_token_consume sim_dpdk 2 (\<lambda>bs. ((), map (\<lambda>_. 9) bs)) sim_device (sim_world [1] [] 0) = Ret ((), dev', w') \<and>
     tx_batch dev' = [1] \<and> mbuf_data sim_dpdk 1 w' = map (\<lambda>_. 9) bs \<and> length bs = 2"
proof -
  let ?w = "sim_world [1] [] 0" and ?f = "\<lambda>bs :: bytes. ((), map (\<lambda>_. 9 :: u8) bs)"
  obtain w1 where al: "mempool_try_alloc sim_dpdk (dev_mempool sim_device) ?w = (Some 1, w1)"
    and t: "2 \<le> mbuf_tailroom sim_dpdk 1 w1"
    by (simp add: sim_device_def mempool_try_alloc_def mbuf_alloc_def mbuf_tailroom_def non_null_def sim_defs)
  have f: "writes_slice ?f" by (simp add: writes_slice_def)
  have tx: "tx_batch sim_device = []" by (simp add: sim_device_def)
  obtain bs dev' w' where "tx_token_consume sim_dpdk 2 ?f sim_device ?w = Ret (fst (?f bs), dev', w')"
    "length bs = 2" "dev' = sim_device\<lparr>tx_batch := tx_batch sim_device @ [1]\<rparr>" "mbuf_data sim_dpdk 1 w' = snd (?f bs)"
    using tx_token_enqueues_frame [OF sim_dpdk_laws sim_device_inv f _ al t] tx by auto
  then show ?thesis using tx by (intro exI [of _ bs] exI [of _ dev'] exI [of _ w']) simp
qed

text \<open>
  When the cache's version has moved, a queue other than 0 appends one ARP reply per cache
  entry to its receive batch, each of which parses back to its entry, and only if all of them
  were appended does it record the version as seen; else it keeps the old version and will try
  again. When the version has not moved, nothing happens. The caches are only read.
\<close>

theorem inject_from_shared_cache_correct:
  assumes "mbuf_laws D V" and "device_inv V others dev w" and "dev_queue_id dev \<noteq> 0"
    and "shared_arp_cache dev = Some cache" and "our_mac dev = Some mac" and "our_ip dev = Some ip"
    and "\<And>es. mset (iter es) = mset es"
  shows "\<exists>dev' new w'. inject_from_shared_cache D iter dev w = (dev', w') \<and>
    device_inv V others dev' w' \<and> caches w' = caches w \<and> rx_batch dev' = rx_batch dev @ new \<and>
    (if cache_version (caches w cache) = last_cache_version dev then new = [] \<and> dev' = dev
     else set (map (\<lambda>m. parse_arp_reply (mbuf_data D m w')) new) \<subseteq> Some ` set (arp_cache_snapshot (caches w cache)) \<and>
       (if length new = length (arp_cache_snapshot (caches w cache))
        then last_cache_version dev' = cache_version (caches w cache) \<and>
          set (map (\<lambda>m. parse_arp_reply (mbuf_data D m w')) new) = Some ` set (arp_cache_snapshot (caches w cache))
        else length new < length (arp_cache_snapshot (caches w cache)) \<and>
          last_cache_version dev' = last_cache_version dev))"
proof -
  let ?snap = "arp_cache_snapshot (caches w cache)"
  have len: "length (iter ?snap) = length ?snap" and st: "set (iter ?snap) = set ?snap"
    using assms(7) [of ?snap] by (metis size_mset, metis set_mset_mset)
  obtain new v w' where i:
    "inject_from_shared_cache D iter dev w = (dev\<lparr>rx_batch := rx_batch dev @ new, last_cache_version := v\<rparr>, w')"
    "device_inv V others (dev\<lparr>rx_batch := rx_batch dev @ new, last_cache_version := v\<rparr>) w'"
    "caches w' = caches w"
    and c: "if cache_version (caches w cache) = last_cache_version dev
        then new = [] \<and> v = last_cache_version dev
        else map (\<lambda>m. mbuf_data D m w') new = arp_frames mac ip (take (length new) (iter ?snap)) \<and>
             length new \<le> length (iter ?snap) \<and>
             v = (if length new = length (iter ?snap) then cache_version (caches w cache) else last_cache_version dev)"
    by (rule inject_inv [OF assms(1,2), of iter]) (use assms(3-6) in blast)
  have parse: "map parse_arp_reply (arp_frames mac ip es) = map Some es" for es
    by (auto simp: arp_frames_def parse_arp_reply_build)
  have m: "map (\<lambda>m. parse_arp_reply (mbuf_data D m w')) new = map parse_arp_reply (map (\<lambda>m. mbuf_data D m w') new)"
    by simp
  show ?thesis
  proof (cases "cache_version (caches w cache) = last_cache_version dev")
    case True
    then show ?thesis using i c by auto
  next
    case False
    then have "map (\<lambda>m. parse_arp_reply (mbuf_data D m w')) new = map Some (take (length new) (iter ?snap))"
      using c unfolding m by (simp add: parse)
    then have "set (map (\<lambda>m. parse_arp_reply (mbuf_data D m w')) new) = Some ` set (take (length new) (iter ?snap))"
      by simp
    then show ?thesis
      using i c False len st set_take_subset [of "length new" "iter ?snap"]
      by (intro exI [of _ "dev\<lparr>rx_batch := rx_batch dev @ new, last_cache_version := v\<rparr>"] exI [of _ new] exI [of _ w'])
        (auto split: if_splits)
  qed
qed

definition sim_arp_world :: "sim world" where
  "sim_arp_world = (sim_world [100, 101] [] 0)\<lparr>caches := \<lambda>_. learn
     [(Ipv4 10 0 0 1, Mac 1 1 1 1 1 1), (Ipv4 10 0 0 2, Mac 2 2 2 2 2 2)] arp_cache_new\<rparr>"

definition sim_arp_device :: "Mbuf list \<Rightarrow> DpdkDevice" where
  "sim_arp_device rx = with_shared_arp_cache 1 0 (Mac 9 9 9 9 9 9) (Ipv4 10 0 0 9) (sim_device\<lparr>rx_batch := rx\<rparr>)"

theorem inject_from_shared_cache_correct_witness:
  "\<exists>dev' new w'. inject_from_shared_cache sim_dpdk id (sim_arp_device []) sim_arp_world = (dev', w') \<and>
     rx_batch dev' = new \<and> length new \<le> 2"
proof -
  have inv: "device_inv sim_view [] (sim_arp_device []) sim_arp_world"
    by (simp add: sim_arp_device_def with_shared_arp_cache_def sim_device_def device_inv_def held_def)
  have len: "length (arp_cache_snapshot (caches sim_arp_world 0)) = 2"
    and ver: "cache_version (caches sim_arp_world 0) \<noteq> last_cache_version (sim_arp_device [])"
    by (simp_all add: sim_arp_world_def arp_cache_snapshot_def arp_cache_insert_def arp_cache_new_def
        sim_arp_device_def with_shared_arp_cache_def sim_device_def)
  from inject_from_shared_cache_correct [OF sim_mbuf_laws inv, of 0 "Mac 9 9 9 9 9 9" "Ipv4 10 0 0 9" id]
  obtain dev' new w' where "inject_from_shared_cache sim_dpdk id (sim_arp_device []) sim_arp_world = (dev', w')"
    "rx_batch dev' = rx_batch (sim_arp_device []) @ new" "length new = 2 \<or> length new < 2"
    using ver len by (auto simp: sim_arp_device_def with_shared_arp_cache_def sim_device_def split: if_splits)
  then show ?thesis by (auto simp: sim_arp_device_def with_shared_arp_cache_def sim_device_def)
qed

text \<open>
  (C40) The retry can repeat for ever. With one free place in the receive batch of a queue other
  than 0 and two or more cache entries of a new version, a receive injects the first entry, hands
  it out again as the received packet, and leaves the device exactly as it found it: the waiting
  frames are not processed, the network is not polled, and the version stays behind, so that the
  next receive does the same.
\<close>

theorem injection_starves_receive:
  assumes "dev_queue_id dev \<noteq> 0" and "shared_arp_cache dev = Some cache"
    and "our_mac dev = Some mac" and "our_ip dev = Some ip"
    and "cache_version (caches w cache) \<noteq> last_cache_version dev"
    and "iter (arp_cache_snapshot (caches w cache)) = (ip1, mac1) # e2 # es"
    and "length (rx_batch dev) = 63" and "tx_batch dev = []"
    and "alloc_copied D (dev_mempool dev) (build_arp_reply_for_injection mac ip mac1 ip1) w = (Some m, w')"
  shows "device_receive D iter dev w = Ret (Some m, dev, w')"
proof -
  have "poll_rx D dev w = Ret (dev, w)"
    using assms(7,8) by (auto simp: poll_rx_def flush_tx_def)
  moreover have "inject_from_shared_cache D iter dev w = (dev\<lparr>rx_batch := rx_batch dev @ [m]\<rparr>, w')"
    using assms by (cases e2) (simp add: inject_from_shared_cache_def rx_batch_capacity_def)
  ultimately show ?thesis by (simp add: device_receive_def)
qed

theorem injection_starves_receive_witness:
  "\<exists>w'. device_receive sim_dpdk id (sim_arp_device [1..<64]) sim_arp_world = Ret (Some 100, sim_arp_device [1..<64], w')"
proof -
  let ?d = "sim_arp_device [1..<64]"
  have d: "dev_queue_id ?d \<noteq> 0" "shared_arp_cache ?d = Some 0" "our_mac ?d = Some (Mac 9 9 9 9 9 9)"
    "our_ip ?d = Some (Ipv4 10 0 0 9)" "length (rx_batch ?d) = 63" "tx_batch ?d = []"
    "cache_version (caches sim_arp_world 0) \<noteq> last_cache_version ?d"
    by (simp_all add: sim_arp_device_def with_shared_arp_cache_def sim_device_def sim_arp_world_def
        arp_cache_new_def arp_cache_insert_def)
  have es: "id (arp_cache_snapshot (caches sim_arp_world 0)) =
      (Ipv4 10 0 0 1, Mac 1 1 1 1 1 1) # (Ipv4 10 0 0 2, Mac 2 2 2 2 2 2) # []"
    by (simp add: sim_arp_world_def arp_cache_snapshot_def arp_cache_insert_def arp_cache_new_def)
  obtain w' where "alloc_copied sim_dpdk (dev_mempool ?d)
      (build_arp_reply_for_injection (Mac 9 9 9 9 9 9) (Ipv4 10 0 0 9) (Mac 1 1 1 1 1 1) (Ipv4 10 0 0 1)) sim_arp_world = (Some 100, w')"
    by (simp add: alloc_copied_def mempool_try_alloc_def mbuf_alloc_def mbuf_copy_from_slice_def
        mbuf_append_def mbuf_reset_def non_null_def sim_arp_world_def sim_defs)
  from injection_starves_receive [where iter = id, OF d(1-4,7) es d(5,6) this] show ?thesis by blast
qed

text \<open>
  The transmit token that comes with a received packet has no such guarantee as the one
  of \<open>transmit\<close>: when the transmit batch is full and the hardware takes nothing, the receive
  still hands out a token, and answering the packet through it panics.
\<close>

theorem receive_token_may_panic:
  assumes "length (tx_batch dev) = 256" and "flush_tx D dev w = Ret (dev, w')"
    and "rx_batch dev \<noteq> []" and "dev_queue_id dev = 0"
    and "fst (mempool_try_alloc D (dev_mempool dev) w') \<noteq> None"
  shows "\<exists>dev'. device_receive D iter dev w = Ret (Some (last (rx_batch dev)), dev', w') \<and>
    panics (tx_token_consume D len f dev' w')"
proof -
  have "poll_rx D dev w = Ret (dev, w')" using assms(2,3) by (simp add: poll_rx_def)
  then have "device_receive D iter dev w = Ret (Some (last (rx_batch dev)), dev\<lparr>rx_batch := butlast (rx_batch dev)\<rparr>, w')"
    using assms(3,4) by (simp add: device_receive_def inject_from_shared_cache_def)
  then show ?thesis
    using assms(1,5) by (simp add: tx_token_consume_panics tx_batch_capacity_def)
qed

theorem receive_token_may_panic_witness:
  "\<exists>dev' w'. device_receive sim_dpdk id (sim_device\<lparr>rx_batch := [1], tx_batch := [2..<258]\<rparr>) (sim_world [300] [] 0)
     = Ret (Some 1, dev', w') \<and> panics (tx_token_consume sim_dpdk 60 (\<lambda>bs. ((), bs)) dev' w')"
proof -
  let ?d = "sim_device\<lparr>rx_batch := [1], tx_batch := [2..<258]\<rparr>" and ?w = "sim_world [300] [] 0"
  have n0: "[2..<258] \<noteq> ([] :: nat list)" by simp
  have "flush_tx sim_dpdk ?d ?w = Ret (?d, ?w)"
    using n0 by (simp add: flush_tx_def tx_queue_tx_def sim_defs sim_device_def Let_def del: upt_rec_numeral)
  moreover have "fst (mempool_try_alloc sim_dpdk (dev_mempool ?d) ?w) \<noteq> None"
    by (simp add: mempool_try_alloc_def mbuf_alloc_def non_null_def sim_defs sim_device_def)
  ultimately show ?thesis
    using receive_token_may_panic [of ?d sim_dpdk ?w ?w id 60 "\<lambda>bs. ((), bs)"]
    by (auto simp: sim_device_def simp del: upt_rec_numeral)
qed

end
