(* ===== verification/Eth_Dev_Config.thy ===== *)
theory Eth_Dev_Config
  imports Eth Dpdk_Device
begin

section \<open>The device configuration of the servers\<close>

text \<open>
  A model of \<^verbatim>\<open>dpdk-net-test/src/eth_dev_config.rs\<close>: the defaults, the setters, the creation
  of the memory pool and of the Ethernet device, and the devices of the single queues. The
  memory pool is owned: when the device cannot be built it is freed again. The subtraction in
  \<open>mbuf_capacity\<close> panics on overflow, as it does in a build with overflow checks.
\<close>

definition DEFAULT_MTU :: nat where
  "DEFAULT_MTU = 1500"

definition DEFAULT_NUM_MBUFS :: u32 where
  "DEFAULT_NUM_MBUFS = 8191"

definition DEFAULT_NB_DESC :: u16 where
  "DEFAULT_NB_DESC = 1024"

record EthDevConfig =
  ec_mempool_name :: bytes
  ec_num_mbufs :: u32
  ec_data_room_size :: u16
  ec_nb_rx_queues :: u16
  ec_nb_tx_queues :: u16
  ec_rx_desc :: u16
  ec_tx_desc :: u16
  ec_mtu :: usize
  ec_port_id :: u16
  ec_eth_conf :: "EthConf option"

definition eth_dev_config_new :: EthDevConfig where
  "eth_dev_config_new = \<lparr>ec_mempool_name = ascii ''dpdk_mempool'', ec_num_mbufs = DEFAULT_NUM_MBUFS,
     ec_data_room_size = of_nat DEFAULT_MBUF_DATA_ROOM_SIZE, ec_nb_rx_queues = 1, ec_nb_tx_queues = 1,
     ec_rx_desc = DEFAULT_NB_DESC, ec_tx_desc = DEFAULT_NB_DESC, ec_mtu = DEFAULT_MTU, ec_port_id = 0,
     ec_eth_conf = None\<rparr>"

definition config_mempool_name :: "bytes \<Rightarrow> EthDevConfig \<Rightarrow> EthDevConfig" where
  "config_mempool_name nm c = c\<lparr>ec_mempool_name := nm\<rparr>"

definition config_num_mbufs :: "u32 \<Rightarrow> EthDevConfig \<Rightarrow> EthDevConfig" where
  "config_num_mbufs n c = c\<lparr>ec_num_mbufs := n\<rparr>"

definition config_data_room_size :: "u16 \<Rightarrow> EthDevConfig \<Rightarrow> EthDevConfig" where
  "config_data_room_size n c = c\<lparr>ec_data_room_size := n\<rparr>"

definition config_nb_queues :: "u16 \<Rightarrow> EthDevConfig \<Rightarrow> EthDevConfig" where
  "config_nb_queues n c = c\<lparr>ec_nb_rx_queues := n, ec_nb_tx_queues := n\<rparr>"

definition config_nb_rx_queues :: "u16 \<Rightarrow> EthDevConfig \<Rightarrow> EthDevConfig" where
  "config_nb_rx_queues n c = c\<lparr>ec_nb_rx_queues := n\<rparr>"

definition config_nb_tx_queues :: "u16 \<Rightarrow> EthDevConfig \<Rightarrow> EthDevConfig" where
  "config_nb_tx_queues n c = c\<lparr>ec_nb_tx_queues := n\<rparr>"

definition config_nb_desc :: "u16 \<Rightarrow> EthDevConfig \<Rightarrow> EthDevConfig" where
  "config_nb_desc n c = c\<lparr>ec_rx_desc := n, ec_tx_desc := n\<rparr>"

definition config_rx_desc :: "u16 \<Rightarrow> EthDevConfig \<Rightarrow> EthDevConfig" where
  "config_rx_desc n c = c\<lparr>ec_rx_desc := n\<rparr>"

definition config_tx_desc :: "u16 \<Rightarrow> EthDevConfig \<Rightarrow> EthDevConfig" where
  "config_tx_desc n c = c\<lparr>ec_tx_desc := n\<rparr>"

definition config_mtu :: "usize \<Rightarrow> EthDevConfig \<Rightarrow> EthDevConfig" where
  "config_mtu n c = c\<lparr>ec_mtu := n\<rparr>"

definition config_port_id :: "u16 \<Rightarrow> EthDevConfig \<Rightarrow> EthDevConfig" where
  "config_port_id n c = c\<lparr>ec_port_id := n\<rparr>"

definition config_eth_conf :: "EthConf \<Rightarrow> EthDevConfig \<Rightarrow> EthDevConfig" where
  "config_eth_conf conf c = c\<lparr>ec_eth_conf := Some conf\<rparr>"

lemmas config_setter_defs [setter_defs] =
  config_mempool_name_def config_num_mbufs_def config_data_room_size_def config_nb_queues_def
  config_nb_rx_queues_def config_nb_tx_queues_def config_nb_desc_def config_rx_desc_def config_tx_desc_def
  config_mtu_def config_port_id_def config_eth_conf_def

definition config_mbuf_capacity :: "EthDevConfig \<Rightarrow> usize outcome" where
  "config_mbuf_capacity c =
     (if DEFAULT_MBUF_HEADROOM \<le> unat (ec_data_room_size c)
      then Ret (unat (ec_data_room_size c) - DEFAULT_MBUF_HEADROOM)
      else Panic ''attempt to subtract with overflow'')"

text \<open>\<open>room\<close> and \<open>headroom\<close> are the two constants of DPDK's headers in the pool's defaults.\<close>

definition config_builder :: "EthDevConfig \<Rightarrow> EthDevBuilder" where
  "config_builder c =
     builder_tx_queue_conf (tx_queue_nb_desc (ec_tx_desc c) tx_queue_conf_new)
       (builder_rx_queue_conf (rx_queue_nb_desc (ec_rx_desc c) rx_queue_conf_new)
         (builder_nb_tx_queues (ec_nb_tx_queues c)
           (builder_nb_rx_queues (ec_nb_rx_queues c)
             (builder_eth_conf (case ec_eth_conf c of Some e \<Rightarrow> e | None \<Rightarrow> eth_conf_new)
               (eth_builder_new (ec_port_id c))))))"

definition config_build ::
  "'d dpdk \<Rightarrow> u16 \<Rightarrow> u16 \<Rightarrow> EthDevConfig \<Rightarrow> 'd world \<Rightarrow> ((ptr \<times> EthDev, Errno) Result \<times> 'd world) outcome" where
  "config_build D room headroom c w =
     (let mempool_config = set_data_room_size (ec_data_room_size c)
            (set_num_mbufs (ec_num_mbufs c) (mempool_config_default room headroom)) in
      case mempool_create D (ec_mempool_name c) mempool_config w of
        (Err e, w) \<Rightarrow> Ret (Err e, w)
      | (Ok mempool, w) \<Rightarrow>
          bind_outcome (eth_dev_build D (config_builder c) mempool w) (\<lambda>(r, w).
            case r of
              Err e \<Rightarrow> Ret (Err e, mempool_drop D mempool w)
            | Ok eth_dev \<Rightarrow> Ret (Ok (mempool, eth_dev), w)))"

definition config_create_device :: "EthDevConfig \<Rightarrow> ptr \<Rightarrow> u16 \<Rightarrow> DpdkDevice outcome" where
  "config_create_device c mempool queue_id =
     (let rxq = rx_queue_new (ec_port_id c) queue_id;
          txq = tx_queue_new (ec_port_id c) queue_id
      in bind_outcome (config_mbuf_capacity c) (\<lambda>capacity.
           dpdk_device_new rxq txq mempool (ec_mtu c) capacity))"

subsection \<open>Properties\<close>

text \<open>
 A configuration whose MTU fits its buffers creates a device for every queue: exactly when
  headroom, MTU and packet overhead fit the data room does it not panic. The default
  configuration fits, and the created device polls and feeds the queue it was asked for.
\<close>

theorem config_create_device_iff:
  "(\<exists>dev. config_create_device c pool q = Ret dev) = (128 + ec_mtu c + 94 \<le> unat (ec_data_room_size c)) \<and>
   (case config_create_device c pool q of
      Panic _ \<Rightarrow> True
    | Ret dev \<Rightarrow> rx_queue_id (dev_rxq dev) = q \<and> tx_queue_id (dev_txq dev) = q \<and>
        rx_port_id (dev_rxq dev) = ec_port_id c \<and> dev_mempool dev = pool \<and> dev_mtu dev = ec_mtu c) \<and>
   (\<exists>dev. config_create_device eth_dev_config_new pool q = Ret dev)"
  by (auto simp: config_create_device_def config_mbuf_capacity_def dpdk_device_new_def DEFAULT_MBUF_HEADROOM_def
      MAX_PACKET_OVERHEAD_def eth_dev_config_new_def DEFAULT_MBUF_DATA_ROOM_SIZE_def DEFAULT_MTU_def
      rx_queue_new_def tx_queue_new_def split: outcome.splits)

text \<open>
 Building from a configuration never panics. It fails without touching the device when the
  pool cannot be created; when the device cannot be brought up, the pool that was just created
  is freed; and on success it returns that pool and the configured port, the device having been
  built with the configured queue numbers and descriptor counts.
\<close>

theorem config_build_owns_pool:
  "case mempool_create D (ec_mempool_name c)
      ((mempool_config_default room headroom)\<lparr>cfg_num_mbufs := ec_num_mbufs c, cfg_data_room_size := ec_data_room_size c\<rparr>) w of
     (Err e, w1) \<Rightarrow> config_build D room headroom c w = Ret (Err e, w1)
   | (Ok pool, w1) \<Rightarrow>
       (\<exists>r w2. eth_dev_build D (config_builder c) pool w1 = Ret (r, w2) \<and>
          config_build D room headroom c w =
            (case r of Err e \<Rightarrow> Ret (Err e, mempool_drop D pool w2)
             | Ok dev \<Rightarrow> Ret (Ok (pool, eth_dev_new (ec_port_id c)), w2)) \<and>
          b_nb_rx_queues (config_builder c) = ec_nb_rx_queues c \<and> b_nb_tx_queues (config_builder c) = ec_nb_tx_queues c \<and>
          rxc_nb_desc (b_rx_queue_conf (config_builder c)) = ec_rx_desc c \<and>
          txc_nb_desc (b_tx_queue_conf (config_builder c)) = ec_tx_desc c)"
proof -
  let ?m = "mempool_create D (ec_mempool_name c)
      ((mempool_config_default room headroom)\<lparr>cfg_num_mbufs := ec_num_mbufs c, cfg_data_room_size := ec_data_room_size c\<rparr>) w"
  have b: "b_port_id (config_builder c) = ec_port_id c" "b_nb_rx_queues (config_builder c) = ec_nb_rx_queues c"
    "b_nb_tx_queues (config_builder c) = ec_nb_tx_queues c"
    "rxc_nb_desc (b_rx_queue_conf (config_builder c)) = ec_rx_desc c"
    "txc_nb_desc (b_tx_queue_conf (config_builder c)) = ec_tx_desc c"
    by (simp_all add: config_builder_def setter_defs eth_builder_new_def)
  obtain r1 w1 where m: "?m = (r1, w1)" by fastforce
  show ?thesis
  proof (cases r1)
    case (Err e)
    then show ?thesis using m by (simp add: config_build_def setter_defs)
  next
    case (Ok pool)
    obtain r w2 where e: "eth_dev_build D (config_builder c) pool w1 = Ret (r, w2)"
      using eth_dev_build_Ret [of D "config_builder c" pool w1] by fastforce
    moreover have "r = Ok dev \<Longrightarrow> dev = eth_dev_new (ec_port_id c)" for dev
      using e eth_dev_build_dev [of D "config_builder c" pool w1] b(1) by simp
    ultimately show ?thesis
      using m Ok b by (cases r) (simp_all add: config_build_def setter_defs)
  qed
qed

end
