(* ===== verification/Smoltcp.thy ===== *)
theory Smoltcp
  imports Arp_Cache
begin

section \<open>The TCP/IP stack as a parameter\<close>

text \<open>
  smoltcp is a dependency of the repository: the record \<open>smoltcp\<close> lists what the code calls of
  it, and every definition that calls it takes the record as its first argument. \<open>'t\<close> and \<open>'u\<close>
  are its TCP and UDP sockets, \<open>'s\<close> its socket set, \<open>'i\<close> its interface and \<open>'v\<close> the device it
  polls. A socket obtained by \<open>get_mut\<close> and changed is written back with \<open>set_put\<close>.

  The hypotheses state what its documentation promises: the set behaves like a map from handles
  to sockets (\<open>socket_set_laws\<close>), polling the interface neither adds nor removes sockets
  (\<open>poll_laws\<close>), and the slice functions accept a prefix (\<open>stream_laws\<close>). Getting a handle that
  is not in the set, or with the wrong type, panics.
\<close>

datatype tcp_state = Closed | Listen | SynSent | SynReceived | Established | FinWait1 | FinWait2
  | CloseWait | Closing | LastAck | TimeWait

datatype ConnectError = ConnectInvalidState | ConnectUnaddressable
datatype ListenError = ListenInvalidState | ListenUnaddressable
datatype TcpSendError = SendInvalidState
datatype TcpRecvError = RecvInvalidState | RecvFinished
datatype BindError = BindInvalidState | BindUnaddressable
datatype UdpSendError = UdpUnaddressable | UdpBufferFull
datatype UdpRecvError = UdpExhausted | UdpTruncated

datatype PollIngressSingleResult = IngressNone | PacketProcessed | SocketStateChanged

type_synonym SocketHandle = nat
type_synonym waker = nat
type_synonym endpoint = "Ipv4Addr \<times> u16"

datatype ('t, 'u) socket = TcpSock 't | UdpSock 'u

record ('t, 'u, 's, 'i, 'v) smoltcp =
  tcp_new :: "usize \<Rightarrow> usize \<Rightarrow> 't"
  tcp_connect :: "'i \<Rightarrow> endpoint \<Rightarrow> u16 \<Rightarrow> 't \<Rightarrow> (unit, ConnectError) Result \<times> 't \<times> 'i"
  tcp_listen :: "u16 \<Rightarrow> 't \<Rightarrow> (unit, ListenError) Result \<times> 't"
  tcp_state_of :: "'t \<Rightarrow> tcp_state"
  tcp_is_active :: "'t \<Rightarrow> bool"
  tcp_send_slice :: "bytes \<Rightarrow> 't \<Rightarrow> (usize, TcpSendError) Result \<times> 't"
  tcp_recv_slice :: "usize \<Rightarrow> 't \<Rightarrow> (bytes, TcpRecvError) Result \<times> 't"
  tcp_register_recv_waker :: "waker \<Rightarrow> 't \<Rightarrow> 't"
  tcp_register_send_waker :: "waker \<Rightarrow> 't \<Rightarrow> 't"
  tcp_close :: "'t \<Rightarrow> 't"
  tcp_abort :: "'t \<Rightarrow> 't"
  tcp_send_queue :: "'t \<Rightarrow> usize"
  udp_new :: "usize \<Rightarrow> usize \<Rightarrow> usize \<Rightarrow> usize \<Rightarrow> 'u"
  udp_bind :: "u16 \<Rightarrow> 'u \<Rightarrow> (unit, BindError) Result \<times> 'u"
  udp_is_open :: "'u \<Rightarrow> bool"
  udp_endpoint :: "'u \<Rightarrow> Ipv4Addr option \<times> u16"
  udp_send_slice :: "bytes \<Rightarrow> endpoint \<Rightarrow> 'u \<Rightarrow> (unit, UdpSendError) Result \<times> 'u"
  udp_recv_slice :: "usize \<Rightarrow> 'u \<Rightarrow> (bytes \<times> endpoint, UdpRecvError) Result \<times> 'u"
  udp_register_recv_waker :: "waker \<Rightarrow> 'u \<Rightarrow> 'u"
  udp_register_send_waker :: "waker \<Rightarrow> 'u \<Rightarrow> 'u"
  udp_close :: "'u \<Rightarrow> 'u"
  set_new :: 's
  set_add :: "('t, 'u) socket \<Rightarrow> 's \<Rightarrow> SocketHandle \<times> 's"
  set_get :: "'s \<Rightarrow> SocketHandle \<Rightarrow> ('t, 'u) socket option"
  set_put :: "SocketHandle \<Rightarrow> ('t, 'u) socket \<Rightarrow> 's \<Rightarrow> 's"
  set_remove :: "SocketHandle \<Rightarrow> 's \<Rightarrow> 's"
  iface_poll_ingress_single :: "nat \<Rightarrow> 'v \<Rightarrow> 'i \<Rightarrow> 's \<Rightarrow> PollIngressSingleResult \<times> 'v \<times> 'i \<times> 's"
  iface_poll_egress :: "nat \<Rightarrow> 'v \<Rightarrow> 'i \<Rightarrow> 's \<Rightarrow> 'v \<times> 'i \<times> 's"

text \<open>\<open>sockets.get::<tcp::Socket>(h)\<close> and \<open>sockets.get::<udp::Socket>(h)\<close>.\<close>

definition get_tcp :: "('t, 'u, 's, 'i, 'v) smoltcp \<Rightarrow> SocketHandle \<Rightarrow> 's \<Rightarrow> 't outcome" where
  "get_tcp S h s = (case set_get S s h of
     Some (TcpSock t) \<Rightarrow> Ret t
   | Some (UdpSock u) \<Rightarrow> Panic ''handle refers to a socket of a wrong type''
   | None \<Rightarrow> Panic ''handle does not refer to a valid socket'')"

definition get_udp :: "('t, 'u, 's, 'i, 'v) smoltcp \<Rightarrow> SocketHandle \<Rightarrow> 's \<Rightarrow> 'u outcome" where
  "get_udp S h s = (case set_get S s h of
     Some (UdpSock u) \<Rightarrow> Ret u
   | Some (TcpSock t) \<Rightarrow> Panic ''handle refers to a socket of a wrong type''
   | None \<Rightarrow> Panic ''handle does not refer to a valid socket'')"

text \<open>\<open>sockets.remove(h)\<close> panics when there is no such socket.\<close>

definition remove_socket :: "('t, 'u, 's, 'i, 'v) smoltcp \<Rightarrow> SocketHandle \<Rightarrow> 's \<Rightarrow> 's outcome" where
  "remove_socket S h s = (case set_get S s h of
     Some k \<Rightarrow> Ret (set_remove S h s)
   | None \<Rightarrow> Panic ''handle does not refer to a valid socket'')"

subsection \<open>What smoltcp documents\<close>

definition socket_set_laws :: "('t, 'u, 's, 'i, 'v) smoltcp \<Rightarrow> bool" where
  "socket_set_laws S \<longleftrightarrow>
     (\<forall>h. set_get S (set_new S) h = None) \<and>
     (\<forall>k s. case set_add S k s of (h, s') \<Rightarrow> set_get S s h = None \<and> set_get S s' = (set_get S s)(h \<mapsto> k)) \<and>
     (\<forall>h k s. set_get S s h \<noteq> None \<longrightarrow> set_get S (set_put S h k s) = (set_get S s)(h \<mapsto> k)) \<and>
     (\<forall>h s. set_get S s h \<noteq> None \<longrightarrow> set_get S (set_remove S h s) = (set_get S s)(h := None))"

text \<open>The kind of a socket.\<close>

fun is_tcp :: "('t, 'u) socket \<Rightarrow> bool" where
  "is_tcp (TcpSock t) = True"
| "is_tcp (UdpSock u) = False"

definition same_sockets :: "('t, 'u, 's, 'i, 'v) smoltcp \<Rightarrow> 's \<Rightarrow> 's \<Rightarrow> bool" where
  "same_sockets S s s' \<longleftrightarrow> (\<forall>h. map_option is_tcp (set_get S s' h) = map_option is_tcp (set_get S s h))"

definition poll_laws :: "('t, 'u, 's, 'i, 'v) smoltcp \<Rightarrow> bool" where
  "poll_laws S \<longleftrightarrow>
     (\<forall>ts v i s. case iface_poll_ingress_single S ts v i s of (r, v', i', s') \<Rightarrow> same_sockets S s s') \<and>
     (\<forall>ts v i s. case iface_poll_egress S ts v i s of (v', i', s') \<Rightarrow> same_sockets S s s')"

text \<open>
  \<open>accepted t\<close> stands for all the bytes a socket has taken from the application so far; the
  slice functions take and return no more than asked for. Registering a waker takes no data.
\<close>

definition stream_laws :: "('t, 'u, 's, 'i, 'v) smoltcp \<Rightarrow> ('t \<Rightarrow> bytes) \<Rightarrow> bool" where
  "stream_laws S accepted \<longleftrightarrow>
     (\<forall>bs t. case tcp_send_slice S bs t of (r, t') \<Rightarrow>
        (case r of Ok n \<Rightarrow> n \<le> length bs \<and> accepted t' = accepted t @ take n bs
         | Err e \<Rightarrow> accepted t' = accepted t)) \<and>
     (\<forall>n t. case tcp_recv_slice S n t of (r, t') \<Rightarrow>
        accepted t' = accepted t \<and> (case r of Ok bs \<Rightarrow> length bs \<le> n | Err e \<Rightarrow> True)) \<and>
     (\<forall>k t. accepted (tcp_register_send_waker S k t) = accepted t) \<and>
     (\<forall>k t. accepted (tcp_register_recv_waker S k t) = accepted t)"

text \<open>
  A socket keeps one waker per direction; registering one replaces the other. The record reads
  the wakers of a TCP socket for sending and for receiving, and those of a UDP socket.
\<close>

record ('t, 'u) waker_view =
  tcp_tx :: "'t \<Rightarrow> waker option"
  tcp_rx :: "'t \<Rightarrow> waker option"
  udp_tx :: "'u \<Rightarrow> waker option"
  udp_rx :: "'u \<Rightarrow> waker option"

definition waker_laws :: "('t, 'u, 's, 'i, 'v) smoltcp \<Rightarrow> ('t, 'u) waker_view \<Rightarrow> bool" where
  "waker_laws S W \<longleftrightarrow>
     (\<forall>k t. tcp_tx W (tcp_register_send_waker S k t) = Some k) \<and>
     (\<forall>k t. tcp_rx W (tcp_register_recv_waker S k t) = Some k) \<and>
     (\<forall>k u. udp_tx W (udp_register_send_waker S k u) = Some k) \<and>
     (\<forall>k u. udp_rx W (udp_register_recv_waker S k u) = Some k)"

lemma set_addD:
  assumes "socket_set_laws S" and "set_add S k s = (h, s')"
  shows "set_get S s h = None" "set_get S s' = (set_get S s)(h \<mapsto> k)"
  using assms unfolding socket_set_laws_def by (fastforce split: prod.splits)+

lemma set_putD:
  assumes "socket_set_laws S" and "set_get S s h \<noteq> None"
  shows "set_get S (set_put S h k s) = (set_get S s)(h \<mapsto> k)"
  using assms unfolding socket_set_laws_def by blast

lemma set_removeD:
  assumes "socket_set_laws S" and "set_get S s h \<noteq> None"
  shows "set_get S (set_remove S h s) = (set_get S s)(h := None)"
  using assms unfolding socket_set_laws_def by blast

lemma get_tcp_Ret [simp]: "get_tcp S h s = Ret t \<longleftrightarrow> set_get S s h = Some (TcpSock t)"
  by (auto simp: get_tcp_def split: option.splits socket.splits)

lemma get_udp_Ret [simp]: "get_udp S h s = Ret u \<longleftrightarrow> set_get S s h = Some (UdpSock u)"
  by (auto simp: get_udp_def split: option.splits socket.splits)

lemma remove_socket_Ret [simp]:
  "remove_socket S h s = Ret s' \<longleftrightarrow> set_get S s h \<noteq> None \<and> s' = set_remove S h s"
  by (auto simp: remove_socket_def split: option.splits)

lemma same_sockets_refl [simp]: "same_sockets S s s"
  by (simp add: same_sockets_def)

lemma same_sockets_trans: "same_sockets S s s' \<Longrightarrow> same_sockets S s' s'' \<Longrightarrow> same_sockets S s s''"
  by (simp add: same_sockets_def)

lemma same_sockets_put:
  assumes "socket_set_laws S" and "set_get S s h = Some k" and "is_tcp k' = is_tcp k"
  shows "same_sockets S s (set_put S h k' s)"
  using assms by (simp add: same_sockets_def set_putD)

lemma poll_lawsD:
  assumes "poll_laws S"
  shows "iface_poll_ingress_single S ts v i s = (r, v', i', s') \<Longrightarrow> same_sockets S s s'"
    and "iface_poll_egress S ts v i s = (v', i', s') \<Longrightarrow> same_sockets S s s'"
  using assms unfolding poll_laws_def by (fastforce split: prod.splits)+

lemma stream_lawsD:
  assumes "stream_laws S accepted"
  shows "tcp_send_slice S bs t = (Ok n, t') \<Longrightarrow> n \<le> length bs \<and> accepted t' = accepted t @ take n bs"
    and "tcp_send_slice S bs t = (Err e, t') \<Longrightarrow> accepted t' = accepted t"
    and "accepted (tcp_register_send_waker S k t) = accepted t"
    and "tcp_recv_slice S m t = (Ok rs, t') \<Longrightarrow> length rs \<le> m"
  using assms unfolding stream_laws_def by (fastforce split: prod.splits Result.splits)+

subsection \<open>An instance\<close>

text \<open>
  A minimal stack that satisfies the hypotheses, for the witnesses: a socket is its state, the
  bytes it has accepted, the free space of its send buffer, its wakers, the bytes that have arrived
  and those it has delivered; the set is a list of handles and
  sockets, and polling does nothing. A UDP socket is the waker it holds.
\<close>

record sim_tcp =
  st_state :: tcp_state
  st_accepted :: bytes
  st_room :: nat
  st_wakers :: "waker list"
  st_rx :: bytes
  st_delivered :: bytes

type_synonym sim_set = "(SocketHandle \<times> (sim_tcp, nat) socket) list"

definition sim_fresh :: "sim_set \<Rightarrow> SocketHandle" where
  "sim_fresh s = Suc (sum_list (map fst s))"

definition sim_stack :: "(sim_tcp, nat, sim_set, unit, unit) smoltcp" where
  "sim_stack =
     \<lparr>tcp_new = (\<lambda>rx tx. \<lparr>st_state = Closed, st_accepted = [], st_room = tx, st_wakers = [], st_rx = [], st_delivered = []\<rparr>),
      tcp_connect = (\<lambda>i ep port t. (Ok (), t\<lparr>st_state := SynSent\<rparr>, i)),
      tcp_listen = (\<lambda>port t. if port = 0 then (Err ListenUnaddressable, t) else (Ok (), t\<lparr>st_state := Listen\<rparr>)),
      tcp_state_of = st_state,
      tcp_is_active = (\<lambda>t. st_state t = Established),
      tcp_send_slice = (\<lambda>bs t. let n = min (length bs) (st_room t)
         in (Ok n, t\<lparr>st_accepted := st_accepted t @ take n bs, st_room := st_room t - n\<rparr>)),
      tcp_recv_slice = (\<lambda>n t. (Ok (take n (st_rx t)), t\<lparr>st_rx := drop n (st_rx t), st_delivered := st_delivered t @ take n (st_rx t)\<rparr>)),
      tcp_register_recv_waker = (\<lambda>k t. t\<lparr>st_wakers := [k]\<rparr>),
      tcp_register_send_waker = (\<lambda>k t. t\<lparr>st_wakers := [k]\<rparr>),
      tcp_close = (\<lambda>t. t\<lparr>st_state := FinWait1\<rparr>),
      tcp_abort = (\<lambda>t. t\<lparr>st_state := Closed\<rparr>),
      tcp_send_queue = (\<lambda>t. 0),
      udp_new = (\<lambda>a b c d. 0), udp_bind = (\<lambda>port u. (Ok (), u)), udp_is_open = (\<lambda>u. True),
      udp_endpoint = (\<lambda>u. (None, 0)), udp_send_slice = (\<lambda>bs ep u. (Ok (), u)),
      udp_recv_slice = (\<lambda>n u. (Err UdpExhausted, u)), udp_register_recv_waker = (\<lambda>k u. k),
      udp_register_send_waker = (\<lambda>k u. k), udp_close = (\<lambda>u. u),
      set_new = [],
      set_add = (\<lambda>k s. (sim_fresh s, (sim_fresh s, k) # s)),
      set_get = map_of,
      set_put = (\<lambda>h k s. AList.update h k s),
      set_remove = (\<lambda>h s. AList.delete h s),
      iface_poll_ingress_single = (\<lambda>ts v i s. (IngressNone, v, i, s)),
      iface_poll_egress = (\<lambda>ts v i s. (v, i, s))\<rparr>"

lemma sim_fresh_new: "map_of s (sim_fresh s) = None"
proof -
  have "h \<le> sum_list (map fst s)" if "h \<in> fst ` set s" for h
    using that member_le_sum_list [of h "map fst s"] by simp
  then show ?thesis
    by (force simp: map_of_eq_None_iff sim_fresh_def)
qed

lemma sim_socket_set_laws: "socket_set_laws sim_stack"
  by (simp add: socket_set_laws_def sim_stack_def sim_fresh_new update_conv' delete_conv')

lemma sim_poll_laws: "poll_laws sim_stack"
  by (simp add: poll_laws_def sim_stack_def)

lemma sim_stream_laws: "stream_laws sim_stack st_accepted"
  by (simp add: stream_laws_def sim_stack_def Let_def)

definition sim_waker :: "sim_tcp \<Rightarrow> waker option" where
  "sim_waker t = (case st_wakers t of [] \<Rightarrow> None | k # ks \<Rightarrow> Some k)"

definition sim_wakers :: "(sim_tcp, nat) waker_view" where
  "sim_wakers = \<lparr>tcp_tx = sim_waker, tcp_rx = sim_waker, udp_tx = Some, udp_rx = Some\<rparr>"

lemma sim_waker_laws: "waker_laws sim_stack sim_wakers"
  by (simp add: waker_laws_def sim_stack_def sim_wakers_def sim_waker_def)

lemmas sim_stack_laws = sim_socket_set_laws sim_poll_laws sim_stream_laws

end
