(* ===== verification/Reactor.thy ===== *)
theory Reactor
  imports Smoltcp
begin

section \<open>The reactor\<close>

text \<open>
  A model of \<^verbatim>\<open>dpdk-net/src/runtime/reactor.rs\<close>: the state that the sockets share, the polling
  of one packet, the transmission, the removal of sockets whose owner is gone, and the loop that
  does these in turn. The state is shared through \<open>Rc<RefCell>\<close> on one thread; it is passed
  explicitly here. The loop runs for ever unless cancelled: \<open>run_with\<close> takes the list of what
  happens at the turns of the loop, that is what the cancel flag reads, the time, and what the
  other tasks do to the state while the reactor yields.
\<close>

definition DEFAULT_INGRESS_BATCH_SIZE :: nat where
  "DEFAULT_INGRESS_BATCH_SIZE = 32"

record ('s, 'i, 'v) reactor =
  r_device :: 'v
  r_iface :: 'i
  r_sockets :: 's
  orphaned_closing :: "SocketHandle list"

definition reactor_new :: "('t, 'u, 's, 'i, 'v) smoltcp \<Rightarrow> 'v \<Rightarrow> 'i \<Rightarrow> ('s, 'i, 'v) reactor" where
  "reactor_new S device iface =
     \<lparr>r_device = device, r_iface = iface, r_sockets = set_new S, orphaned_closing = []\<rparr>"

definition poll_ingress_single ::
  "('t, 'u, 's, 'i, 'v) smoltcp \<Rightarrow> nat \<Rightarrow> ('s, 'i, 'v) reactor \<Rightarrow> PollIngressSingleResult \<times> ('s, 'i, 'v) reactor" where
  "poll_ingress_single S timestamp r =
     (let (res, v, i, s) = iface_poll_ingress_single S timestamp (r_device r) (r_iface r) (r_sockets r)
      in (res, r\<lparr>r_device := v, r_iface := i, r_sockets := s\<rparr>))"

definition poll_egress ::
  "('t, 'u, 's, 'i, 'v) smoltcp \<Rightarrow> nat \<Rightarrow> ('s, 'i, 'v) reactor \<Rightarrow> ('s, 'i, 'v) reactor" where
  "poll_egress S timestamp r =
     (let (v, i, s) = iface_poll_egress S timestamp (r_device r) (r_iface r) (r_sockets r)
      in r\<lparr>r_device := v, r_iface := i, r_sockets := s\<rparr>)"

text \<open>\<open>Vec::retain\<close> with the closure of \<open>cleanup_orphaned\<close>: handle by handle, in order.\<close>

fun retain_closing :: "('t, 'u, 's, 'i, 'v) smoltcp \<Rightarrow> SocketHandle list \<Rightarrow> 's \<Rightarrow> (SocketHandle list \<times> 's) outcome" where
  "retain_closing S [] s = Ret ([], s)"
| "retain_closing S (handle # handles) s =
     bind_outcome (get_tcp S handle s) (\<lambda>socket.
       if tcp_state_of S socket = Closed \<or> tcp_state_of S socket = TimeWait then
         bind_outcome (remove_socket S handle s) (\<lambda>s. retain_closing S handles s)
       else bind_outcome (retain_closing S handles s) (\<lambda>(kept, s). Ret (handle # kept, s)))"

definition cleanup_orphaned ::
  "('t, 'u, 's, 'i, 'v) smoltcp \<Rightarrow> ('s, 'i, 'v) reactor \<Rightarrow> ('s, 'i, 'v) reactor outcome" where
  "cleanup_orphaned S r =
     bind_outcome (retain_closing S (orphaned_closing r) (r_sockets r)) (\<lambda>(kept, s).
       Ret (r\<lparr>orphaned_closing := kept, r_sockets := s\<rparr>))"

text \<open>The inner loop; it also returns the number of packets processed.\<close>

function ingress_loop ::
  "('t, 'u, 's, 'i, 'v) smoltcp \<Rightarrow> nat \<Rightarrow> usize \<Rightarrow> usize \<Rightarrow> ('s, 'i, 'v) reactor \<Rightarrow> usize \<times> ('s, 'i, 'v) reactor" where
  "ingress_loop S timestamp batch_size packets_processed r =
     (case poll_ingress_single S timestamp r of
        (IngressNone, r) \<Rightarrow> (packets_processed, r)
      | (_, r) \<Rightarrow>
          if packets_processed + 1 \<ge> batch_size then (packets_processed + 1, r)
          else ingress_loop S timestamp batch_size (packets_processed + 1) r)"
  by pat_completeness auto

termination
  by (relation "measure (\<lambda>(S, ts, batch_size, packets_processed, r). batch_size - packets_processed)")
    (auto split: PollIngressSingleResult.splits)

declare ingress_loop.simps [simp del]

definition reactor_turn ::
  "('t, 'u, 's, 'i, 'v) smoltcp \<Rightarrow> nat \<Rightarrow> usize \<Rightarrow> ('s, 'i, 'v) reactor \<Rightarrow> (usize \<times> ('s, 'i, 'v) reactor) outcome" where
  "reactor_turn S timestamp batch_size r =
     (let (n, r) = ingress_loop S timestamp batch_size 0 r;
          r = poll_egress S timestamp r
      in bind_outcome (cleanup_orphaned S r) (\<lambda>r. Ret (n, r)))"

fun run_with ::
  "('t, 'u, 's, 'i, 'v) smoltcp \<Rightarrow> usize \<Rightarrow> (bool \<times> nat \<times> (('s, 'i, 'v) reactor \<Rightarrow> ('s, 'i, 'v) reactor)) list
     \<Rightarrow> ('s, 'i, 'v) reactor \<Rightarrow> ('s, 'i, 'v) reactor outcome" where
  "run_with S batch_size [] r = Ret r"
| "run_with S batch_size ((cancel, timestamp, yield_now) # turns) r =
     (if cancel then Ret r
      else bind_outcome (reactor_turn S timestamp batch_size r) (\<lambda>(n, r).
        run_with S batch_size turns (yield_now r)))"

definition reactor_run ::
  "('t, 'u, 's, 'i, 'v) smoltcp \<Rightarrow> (bool \<times> nat \<times> (('s, 'i, 'v) reactor \<Rightarrow> ('s, 'i, 'v) reactor)) list
     \<Rightarrow> ('s, 'i, 'v) reactor \<Rightarrow> ('s, 'i, 'v) reactor outcome" where
  "reactor_run S = run_with S DEFAULT_INGRESS_BATCH_SIZE"

definition run_with_batch_size ::
  "('t, 'u, 's, 'i, 'v) smoltcp \<Rightarrow> usize \<Rightarrow> (bool \<times> nat \<times> (('s, 'i, 'v) reactor \<Rightarrow> ('s, 'i, 'v) reactor)) list
     \<Rightarrow> ('s, 'i, 'v) reactor \<Rightarrow> ('s, 'i, 'v) reactor outcome" where
  "run_with_batch_size S batch_size = run_with S batch_size"

subsection \<open>Lemmas\<close>

definition finished :: "('t, 'u, 's, 'i, 'v) smoltcp \<Rightarrow> 's \<Rightarrow> SocketHandle \<Rightarrow> bool" where
  "finished S s h \<longleftrightarrow> (\<exists>t. set_get S s h = Some (TcpSock t) \<and>
     (tcp_state_of S t = Closed \<or> tcp_state_of S t = TimeWait))"

lemma poll_ingress_single_sockets:
  assumes "poll_laws S" and "poll_ingress_single S ts r = (res, r')"
  shows "same_sockets S (r_sockets r) (r_sockets r')" "orphaned_closing r' = orphaned_closing r"
  using assms(2) poll_lawsD(1) [OF assms(1)]
  by (auto simp: poll_ingress_single_def split: prod.splits)

lemma poll_egress_sockets:
  assumes "poll_laws S"
  shows "same_sockets S (r_sockets r) (r_sockets (poll_egress S ts r))"
    "orphaned_closing (poll_egress S ts r) = orphaned_closing r"
  using poll_lawsD(2) [OF assms] by (auto simp: poll_egress_def split: prod.splits)

lemma ingress_loop_spec:
  assumes laws: "poll_laws S" and "k < max 1 batch"
    and "ingress_loop S ts batch k r = (n, r')"
  shows "k \<le> n \<and> n \<le> max 1 batch \<and> same_sockets S (r_sockets r) (r_sockets r') \<and>
    orphaned_closing r' = orphaned_closing r"
  using assms(2,3)
proof (induction "batch - k" arbitrary: k r)
  case (0 k r)
  obtain res r1 where p: "poll_ingress_single S ts r = (res, r1)" by fastforce
  have "n \<in> {k, k + 1}" "r' = r1"
    using "0.prems" "0.hyps" p by (auto simp: ingress_loop.simps [of S ts batch k] split: PollIngressSingleResult.splits)
  then show ?case using "0.prems"(1) poll_ingress_single_sockets [OF laws p] by auto
next
  case (Suc j k r)
  obtain res r1 where p: "poll_ingress_single S ts r = (res, r1)" by fastforce
  note P = poll_ingress_single_sockets [OF laws p]
  show ?case
  proof (cases "res = IngressNone \<or> k + 1 \<ge> batch")
    case True
    then have "n \<in> {k, k + 1}" "r' = r1"
      using Suc.prems p by (auto simp: ingress_loop.simps [of S ts batch k] split: PollIngressSingleResult.splits if_splits)
    then show ?thesis using Suc.prems(1) P by auto
  next
    case False
    then have "ingress_loop S ts batch (k + 1) r1 = (n, r')"
      using Suc.prems(2) p by (auto simp: ingress_loop.simps [of S ts batch k] split: PollIngressSingleResult.splits)
    then show ?thesis
      using Suc.hyps(1) [of "k + 1" r1] Suc.hyps(2) False P same_sockets_trans by fastforce
  qed
qed

lemma retain_closing_spec:
  assumes laws: "socket_set_laws S" and "distinct hs"
    and "\<forall>h \<in> set hs. \<exists>t. set_get S s h = Some (TcpSock t)"
  shows "\<exists>s'. retain_closing S hs s = Ret (filter (\<lambda>h. \<not> finished S s h) hs, s') \<and>
    set_get S s' = (\<lambda>h. if h \<in> set hs \<and> finished S s h then None else set_get S s h)"
  using assms(2,3)
proof (induction hs arbitrary: s)
  case Nil
  then show ?case by auto
next
  case (Cons h hs)
  then obtain t where t: "set_get S s h = Some (TcpSock t)" by auto
  show ?case
  proof (cases "finished S s h")
    case True
    let ?s = "set_remove S h s"
    have g: "set_get S ?s = (set_get S s)(h := None)" using set_removeD [OF laws] t by simp
    have fin: "finished S ?s x = finished S s x" if "x \<in> set hs" for x
      using that Cons.prems(1) by (auto simp: finished_def g)
    have "\<forall>x \<in> set hs. \<exists>t. set_get S ?s x = Some (TcpSock t)"
      using Cons.prems by (auto simp: g)
    then obtain s' where s': "retain_closing S hs ?s = Ret (filter (\<lambda>h. \<not> finished S ?s h) hs, s')"
      "set_get S s' = (\<lambda>h. if h \<in> set hs \<and> finished S ?s h then None else set_get S ?s h)"
      using Cons.IH [of ?s] Cons.prems(1) by auto
    have "retain_closing S (h # hs) s = retain_closing S hs ?s"
      using True t by (auto simp: finished_def get_tcp_def remove_socket_def)
    moreover have "filter (\<lambda>h. \<not> finished S ?s h) hs = filter (\<lambda>h. \<not> finished S s h) hs"
      using fin by (auto intro: filter_cong)
    ultimately show ?thesis
      using s' True fin by (intro exI [of _ s']) (auto simp: g fun_eq_iff)
  next
    case False
    obtain s' where "retain_closing S hs s = Ret (filter (\<lambda>h. \<not> finished S s h) hs, s')"
      "set_get S s' = (\<lambda>h. if h \<in> set hs \<and> finished S s h then None else set_get S s h)"
      using Cons.IH [of s] Cons.prems by auto
    then show ?thesis
      using False t by (intro exI [of _ s']) (auto simp: finished_def get_tcp_def fun_eq_iff)
  qed
qed

end
