(* ===== verification/Tcp_Socket.thy ===== *)
theory Tcp_Socket
  imports Reactor
begin

section \<open>TCP streams and listeners\<close>

text \<open>
  A model of \<^verbatim>\<open>dpdk-net/src/socket/tcp.rs\<close>. A \<open>TcpStream\<close> is the handle it owns; its methods
  and the \<open>poll\<close> of each future take the reactor's state and return it. \<open>cx\<close> is the waker of
  the polling task. The bytes that a receive writes into the caller's buffer are returned, the
  buffer itself is given by its length. Every access to a handle that is not in the socket set
  panics, as smoltcp's does.
\<close>

subsection \<open>Streams\<close>

text \<open>\<open>get_mut\<close>, a change of the socket, and its return to the set.\<close>

definition with_tcp ::
  "('t, 'u, 's, 'i, 'v) smoltcp \<Rightarrow> SocketHandle \<Rightarrow> ('t \<Rightarrow> 'a \<times> 't) \<Rightarrow> ('s, 'i, 'v) reactor \<Rightarrow> ('a \<times> ('s, 'i, 'v) reactor) outcome" where
  "with_tcp S h f r =
     bind_outcome (get_tcp S h (r_sockets r)) (\<lambda>t.
       let (a, t) = f t in Ret (a, r\<lparr>r_sockets := set_put S h (TcpSock t) (r_sockets r)\<rparr>))"

definition tcp_stream_connect ::
  "('t, 'u, 's, 'i, 'v) smoltcp \<Rightarrow> endpoint \<Rightarrow> u16 \<Rightarrow> usize \<Rightarrow> usize \<Rightarrow> ('s, 'i, 'v) reactor
     \<Rightarrow> (SocketHandle, ConnectError) Result \<times> ('s, 'i, 'v) reactor" where
  "tcp_stream_connect S remote local_port rx_buffer_size tx_buffer_size r =
     (let socket = tcp_new S rx_buffer_size tx_buffer_size;
          (res, socket, i) = tcp_connect S (r_iface r) remote local_port socket;
          r = r\<lparr>r_iface := i\<rparr>
      in (case res of
            Err e \<Rightarrow> (Err e, r)
          | Ok _ \<Rightarrow> let (h, s) = set_add S (TcpSock socket) (r_sockets r) in (Ok h, r\<lparr>r_sockets := s\<rparr>)))"

definition tcp_stream_state ::
  "('t, 'u, 's, 'i, 'v) smoltcp \<Rightarrow> SocketHandle \<Rightarrow> ('s, 'i, 'v) reactor \<Rightarrow> tcp_state outcome" where
  "tcp_stream_state S h r = bind_outcome (get_tcp S h (r_sockets r)) (\<lambda>t. Ret (tcp_state_of S t))"

definition tcp_stream_is_connected ::
  "('t, 'u, 's, 'i, 'v) smoltcp \<Rightarrow> SocketHandle \<Rightarrow> ('s, 'i, 'v) reactor \<Rightarrow> bool outcome" where
  "tcp_stream_is_connected S h r =
     bind_outcome (get_tcp S h (r_sockets r)) (\<lambda>t. Ret (tcp_state_of S t = Established))"

definition tcp_stream_is_active ::
  "('t, 'u, 's, 'i, 'v) smoltcp \<Rightarrow> SocketHandle \<Rightarrow> ('s, 'i, 'v) reactor \<Rightarrow> bool outcome" where
  "tcp_stream_is_active S h r = bind_outcome (get_tcp S h (r_sockets r)) (\<lambda>t. Ret (tcp_is_active S t))"

definition tcp_stream_close ::
  "('t, 'u, 's, 'i, 'v) smoltcp \<Rightarrow> SocketHandle \<Rightarrow> ('s, 'i, 'v) reactor \<Rightarrow> (unit \<times> ('s, 'i, 'v) reactor) outcome" where
  "tcp_stream_close S h = with_tcp S h (\<lambda>t. ((), tcp_close S t))"

definition tcp_stream_abort ::
  "('t, 'u, 's, 'i, 'v) smoltcp \<Rightarrow> SocketHandle \<Rightarrow> ('s, 'i, 'v) reactor \<Rightarrow> (unit \<times> ('s, 'i, 'v) reactor) outcome" where
  "tcp_stream_abort S h = with_tcp S h (\<lambda>t. ((), tcp_abort S t))"

definition tcp_stream_drop ::
  "('t, 'u, 's, 'i, 'v) smoltcp \<Rightarrow> SocketHandle \<Rightarrow> ('s, 'i, 'v) reactor \<Rightarrow> ('s, 'i, 'v) reactor outcome" where
  "tcp_stream_drop S h r =
     bind_outcome (get_tcp S h (r_sockets r)) (\<lambda>t.
       case tcp_state_of S t of
         Closed \<Rightarrow> bind_outcome (remove_socket S h (r_sockets r)) (\<lambda>s. Ret (r\<lparr>r_sockets := s\<rparr>))
       | TimeWait \<Rightarrow> bind_outcome (remove_socket S h (r_sockets r)) (\<lambda>s. Ret (r\<lparr>r_sockets := s\<rparr>))
       | FinWait1 \<Rightarrow> Ret (r\<lparr>orphaned_closing := orphaned_closing r @ [h]\<rparr>)
       | FinWait2 \<Rightarrow> Ret (r\<lparr>orphaned_closing := orphaned_closing r @ [h]\<rparr>)
       | Closing \<Rightarrow> Ret (r\<lparr>orphaned_closing := orphaned_closing r @ [h]\<rparr>)
       | LastAck \<Rightarrow> Ret (r\<lparr>orphaned_closing := orphaned_closing r @ [h]\<rparr>)
       | _ \<Rightarrow>
           Ret (r\<lparr>r_sockets := set_put S h (TcpSock (tcp_abort S t)) (r_sockets r),
                 orphaned_closing := orphaned_closing r @ [h]\<rparr>))"

subsection \<open>Futures of a stream\<close>

definition tcp_send_poll ::
  "('t, 'u, 's, 'i, 'v) smoltcp \<Rightarrow> waker \<Rightarrow> SocketHandle \<Rightarrow> bytes \<Rightarrow> usize \<Rightarrow> ('s, 'i, 'v) reactor
     \<Rightarrow> ((usize, TcpSendError) Result poll \<times> usize \<times> ('s, 'i, 'v) reactor) outcome" where
  "tcp_send_poll S cx h bs offset r =
     bind_outcome (get_tcp S h (r_sockets r)) (\<lambda>t.
       if offset > length bs then Panic ''range start index out of range for slice''
       else
         let (res, t) = tcp_send_slice S (drop offset bs) t;
             put_back = (\<lambda>t. r\<lparr>r_sockets := set_put S h (TcpSock t) (r_sockets r)\<rparr>)
         in (case res of
               Ok sent \<Rightarrow>
                 if sent = 0 then Ret (Pending, offset, put_back (tcp_register_send_waker S cx t))
                 else if offset + sent \<ge> length bs then Ret (Ready (Ok (length bs)), offset + sent, put_back t)
                 else Ret (Pending, offset + sent, put_back (tcp_register_send_waker S cx t))
             | Err e \<Rightarrow> Ret (Ready (Err e), offset, put_back t)))"

definition tcp_recv_poll ::
  "('t, 'u, 's, 'i, 'v) smoltcp \<Rightarrow> waker \<Rightarrow> SocketHandle \<Rightarrow> usize \<Rightarrow> ('s, 'i, 'v) reactor
     \<Rightarrow> ((bytes, TcpRecvError) Result poll \<times> ('s, 'i, 'v) reactor) outcome" where
  "tcp_recv_poll S cx h buf_len =
     with_tcp S h (\<lambda>t.
       case tcp_recv_slice S buf_len t of
         (Ok bs, t) \<Rightarrow>
           if length bs = 0 \<and> buf_len = 0 then (Ready (Ok []), t)
           else if length bs = 0 then (Pending, tcp_register_recv_waker S cx t)
           else (Ready (Ok bs), t)
       | (Err RecvFinished, t) \<Rightarrow> (Ready (Ok []), t)
       | (Err e, t) \<Rightarrow> (Ready (Err e), t))"

definition wait_connected_poll ::
  "('t, 'u, 's, 'i, 'v) smoltcp \<Rightarrow> waker \<Rightarrow> SocketHandle \<Rightarrow> ('s, 'i, 'v) reactor
     \<Rightarrow> ((unit, unit) Result poll \<times> ('s, 'i, 'v) reactor) outcome" where
  "wait_connected_poll S cx h =
     with_tcp S h (\<lambda>t.
       case tcp_state_of S t of
         Established \<Rightarrow> (Ready (Ok ()), t)
       | Closed \<Rightarrow> (Ready (Err ()), t)
       | TimeWait \<Rightarrow> (Ready (Err ()), t)
       | _ \<Rightarrow> (Pending, tcp_register_send_waker S cx t))"

definition close_poll ::
  "('t, 'u, 's, 'i, 'v) smoltcp \<Rightarrow> waker \<Rightarrow> SocketHandle \<Rightarrow> ('s, 'i, 'v) reactor
     \<Rightarrow> (unit poll \<times> ('s, 'i, 'v) reactor) outcome" where
  "close_poll S cx h =
     with_tcp S h (\<lambda>t.
       if tcp_state_of S t = Closed \<or> tcp_state_of S t = TimeWait then (Ready (), t)
       else (Pending, tcp_register_send_waker S cx t))"

subsection \<open>Listeners\<close>

record TcpListener =
  l_handles :: "SocketHandle list"
  l_port :: u16
  l_rx_buffer_size :: usize
  l_tx_buffer_size :: usize

definition create_listening_socket ::
  "('t, 'u, 's, 'i, 'v) smoltcp \<Rightarrow> u16 \<Rightarrow> usize \<Rightarrow> usize \<Rightarrow> ('s, 'i, 'v) reactor
     \<Rightarrow> (SocketHandle, ListenError) Result \<times> ('s, 'i, 'v) reactor" where
  "create_listening_socket S port rx_buffer_size tx_buffer_size r =
     (case tcp_listen S port (tcp_new S rx_buffer_size tx_buffer_size) of
        (Err e, socket) \<Rightarrow> (Err e, r)
      | (Ok _, socket) \<Rightarrow>
          let (h, s) = set_add S (TcpSock socket) (r_sockets r) in (Ok h, r\<lparr>r_sockets := s\<rparr>))"

text \<open>The loop of \<open>bind_with_backlog\<close>, with the handles collected so far.\<close>

fun create_backlog ::
  "('t, 'u, 's, 'i, 'v) smoltcp \<Rightarrow> nat \<Rightarrow> u16 \<Rightarrow> usize \<Rightarrow> usize \<Rightarrow> SocketHandle list \<Rightarrow> ('s, 'i, 'v) reactor
     \<Rightarrow> (SocketHandle list, ListenError) Result \<times> ('s, 'i, 'v) reactor" where
  "create_backlog S 0 port rx tx handles r = (Ok handles, r)"
| "create_backlog S (Suc n) port rx tx handles r =
     (case create_listening_socket S port rx tx r of
        (Err e, r) \<Rightarrow> (Err e, r)
      | (Ok h, r) \<Rightarrow> create_backlog S n port rx tx (handles @ [h]) r)"

definition tcp_listener_bind_with_backlog ::
  "('t, 'u, 's, 'i, 'v) smoltcp \<Rightarrow> u16 \<Rightarrow> usize \<Rightarrow> usize \<Rightarrow> usize \<Rightarrow> ('s, 'i, 'v) reactor
     \<Rightarrow> (TcpListener, ListenError) Result \<times> ('s, 'i, 'v) reactor" where
  "tcp_listener_bind_with_backlog S port rx_buffer_size tx_buffer_size backlog r =
     (let backlog = max backlog 1 in
      case create_backlog S backlog port rx_buffer_size tx_buffer_size [] r of
        (Err e, r) \<Rightarrow> (Err e, r)
      | (Ok handles, r) \<Rightarrow>
          (Ok \<lparr>l_handles = handles, l_port = port, l_rx_buffer_size = rx_buffer_size,
               l_tx_buffer_size = tx_buffer_size\<rparr>, r))"

definition tcp_listener_bind ::
  "('t, 'u, 's, 'i, 'v) smoltcp \<Rightarrow> u16 \<Rightarrow> usize \<Rightarrow> usize \<Rightarrow> ('s, 'i, 'v) reactor
     \<Rightarrow> (TcpListener, ListenError) Result \<times> ('s, 'i, 'v) reactor" where
  "tcp_listener_bind S port rx tx r = tcp_listener_bind_with_backlog S port rx tx 2 r"

text \<open>The states of a list of handles, as far as the given test goes on.\<close>

fun listener_states ::
  "('t, 'u, 's, 'i, 'v) smoltcp \<Rightarrow> SocketHandle list \<Rightarrow> 's \<Rightarrow> tcp_state list outcome" where
  "listener_states S [] s = Ret []"
| "listener_states S (h # hs) s =
     bind_outcome (get_tcp S h s) (\<lambda>t.
       bind_outcome (listener_states S hs s) (\<lambda>sts. Ret (tcp_state_of S t # sts)))"

fun any_state ::
  "('t, 'u, 's, 'i, 'v) smoltcp \<Rightarrow> (tcp_state \<Rightarrow> bool) \<Rightarrow> SocketHandle list \<Rightarrow> 's \<Rightarrow> bool outcome" where
  "any_state S P [] s = Ret False"
| "any_state S P (h # hs) s =
     bind_outcome (get_tcp S h s) (\<lambda>t. if P (tcp_state_of S t) then Ret True else any_state S P hs s)"

fun all_state ::
  "('t, 'u, 's, 'i, 'v) smoltcp \<Rightarrow> (tcp_state \<Rightarrow> bool) \<Rightarrow> SocketHandle list \<Rightarrow> 's \<Rightarrow> bool outcome" where
  "all_state S P [] s = Ret True"
| "all_state S P (h # hs) s =
     bind_outcome (get_tcp S h s) (\<lambda>t. if P (tcp_state_of S t) then all_state S P hs s else Ret False)"

definition tcp_listener_is_pending ::
  "('t, 'u, 's, 'i, 'v) smoltcp \<Rightarrow> TcpListener \<Rightarrow> ('s, 'i, 'v) reactor \<Rightarrow> bool outcome" where
  "tcp_listener_is_pending S l r =
     any_state S (\<lambda>st. st = SynReceived \<or> st = Established) (l_handles l) (r_sockets r)"

definition tcp_listener_states ::
  "('t, 'u, 's, 'i, 'v) smoltcp \<Rightarrow> TcpListener \<Rightarrow> ('s, 'i, 'v) reactor \<Rightarrow> tcp_state list outcome" where
  "tcp_listener_states S l r = listener_states S (l_handles l) (r_sockets r)"

definition tcp_listener_backlog :: "TcpListener \<Rightarrow> usize" where
  "tcp_listener_backlog l = length (l_handles l)"

text \<open>\<open>find_map\<close> over the enumerated handles.\<close>

fun find_established ::
  "('t, 'u, 's, 'i, 'v) smoltcp \<Rightarrow> nat \<Rightarrow> SocketHandle list \<Rightarrow> 's \<Rightarrow> nat option outcome" where
  "find_established S i [] s = Ret None"
| "find_established S i (h # hs) s =
     bind_outcome (get_tcp S h s) (\<lambda>t.
       if tcp_state_of S t = Established then Ret (Some i) else find_established S (Suc i) hs s)"

fun register_all ::
  "('t, 'u, 's, 'i, 'v) smoltcp \<Rightarrow> waker \<Rightarrow> SocketHandle list \<Rightarrow> ('s, 'i, 'v) reactor \<Rightarrow> ('s, 'i, 'v) reactor outcome" where
  "register_all S cx [] r = Ret r"
| "register_all S cx (h # hs) r =
     bind_outcome (with_tcp S h (\<lambda>t. ((), tcp_register_recv_waker S cx t)) r) (\<lambda>(u, r). register_all S cx hs r)"

definition accept_poll ::
  "('t, 'u, 's, 'i, 'v) smoltcp \<Rightarrow> waker \<Rightarrow> TcpListener \<Rightarrow> ('s, 'i, 'v) reactor
     \<Rightarrow> ((SocketHandle, ListenError) Result poll \<times> TcpListener \<times> ('s, 'i, 'v) reactor) outcome" where
  "accept_poll S cx l r =
     bind_outcome (find_established S 0 (l_handles l) (r_sockets r)) (\<lambda>established_idx.
       case established_idx of
         Some idx \<Rightarrow>
           let connected_handle = l_handles l ! idx in
           (case create_listening_socket S (l_port l) (l_rx_buffer_size l) (l_tx_buffer_size l) r of
              (Err e, r) \<Rightarrow> Ret (Ready (Err e), l, r)
            | (Ok new_handle, r) \<Rightarrow>
                Ret (Ready (Ok connected_handle), l\<lparr>l_handles := (l_handles l)[idx := new_handle]\<rparr>, r))
       | None \<Rightarrow>
           bind_outcome (all_state S (\<lambda>st. st = Closed \<or> st = TimeWait) (l_handles l) (r_sockets r)) (\<lambda>all_dead.
             if all_dead then Ret (Ready (Err ListenUnaddressable), l, r)
             else bind_outcome (register_all S cx (l_handles l) r) (\<lambda>r. Ret (Pending, l, r))))"

fun drop_handles ::
  "('t, 'u, 's, 'i, 'v) smoltcp \<Rightarrow> SocketHandle list \<Rightarrow> 's \<Rightarrow> 's outcome" where
  "drop_handles S [] s = Ret s"
| "drop_handles S (h # hs) s =
     bind_outcome (get_tcp S h s) (\<lambda>t.
       let s = (if tcp_state_of S t \<noteq> Closed then set_put S h (TcpSock (tcp_abort S t)) s else s)
       in bind_outcome (remove_socket S h s) (\<lambda>s. drop_handles S hs s))"

definition tcp_listener_drop ::
  "('t, 'u, 's, 'i, 'v) smoltcp \<Rightarrow> TcpListener \<Rightarrow> ('s, 'i, 'v) reactor \<Rightarrow> ('s, 'i, 'v) reactor outcome" where
  "tcp_listener_drop S l r =
     bind_outcome (drop_handles S (l_handles l) (r_sockets r)) (\<lambda>s. Ret (r\<lparr>r_sockets := s\<rparr>))"

end
