(* ===== verification/Server_Runner.thy ===== *)
theory Server_Runner
  imports Eal Eth_Dev_Config Tcp_Socket
begin

section \<open>The runner of the multi-queue servers\<close>

text \<open>
  A model of \<^verbatim>\<open>dpdk-net-test/src/app/dpdk_server_runner.rs\<close>: the builder, the choice of the number
  of queues, the configuration of the device, the workers and the clean-up. A worker owns one queue:
  its device, its interface, its reactor and its listener. What smoltcp's interface does, and the
  run of the server future beside the reactor, are parameters (\<open>worker_lib\<close>); so is what the threads
  of the workers do together (\<open>threads\<close>), since they run in parallel. Pinning a thread to a core is
  best effort, its result is only logged. Arithmetic panics on overflow, as in a build with overflow
  checks.
\<close>

subsection \<open>The builder\<close>

record DpdkServerRunner =
  sr_interface :: string
  sr_port :: u16
  sr_ip_addr :: "Ipv4Addr option"
  sr_gateway :: "Ipv4Addr option"
  sr_hw_queues :: "usize option"
  sr_max_queues :: "usize option"
  sr_mbufs_per_queue :: u32
  sr_rx_desc :: u16
  sr_tx_desc :: u16
  sr_tcp_rx_buffer :: usize
  sr_tcp_tx_buffer :: usize
  sr_backlog :: usize

definition runner_new :: "string \<Rightarrow> DpdkServerRunner" where
  "runner_new interface =
     \<lparr>sr_interface = interface, sr_port = 8080, sr_ip_addr = None, sr_gateway = None, sr_hw_queues = None,
      sr_max_queues = None, sr_mbufs_per_queue = 8192, sr_rx_desc = 1024, sr_tx_desc = 1024,
      sr_tcp_rx_buffer = 4096, sr_tcp_tx_buffer = 4096, sr_backlog = 16\<rparr>"

definition runner_port :: "u16 \<Rightarrow> DpdkServerRunner \<Rightarrow> DpdkServerRunner" where
  "runner_port port r = r\<lparr>sr_port := port\<rparr>"

definition runner_ip_addr :: "Ipv4Addr \<Rightarrow> DpdkServerRunner \<Rightarrow> DpdkServerRunner" where
  "runner_ip_addr ip r = r\<lparr>sr_ip_addr := Some ip\<rparr>"

definition runner_gateway :: "Ipv4Addr \<Rightarrow> DpdkServerRunner \<Rightarrow> DpdkServerRunner" where
  "runner_gateway gateway r = r\<lparr>sr_gateway := Some gateway\<rparr>"

definition runner_hw_queues :: "usize \<Rightarrow> DpdkServerRunner \<Rightarrow> DpdkServerRunner" where
  "runner_hw_queues queues r = r\<lparr>sr_hw_queues := Some queues\<rparr>"

definition runner_max_queues :: "usize \<Rightarrow> DpdkServerRunner \<Rightarrow> DpdkServerRunner" where
  "runner_max_queues n r = r\<lparr>sr_max_queues := Some n\<rparr>"

definition runner_mbufs_per_queue :: "u32 \<Rightarrow> DpdkServerRunner \<Rightarrow> DpdkServerRunner" where
  "runner_mbufs_per_queue n r = r\<lparr>sr_mbufs_per_queue := n\<rparr>"

definition runner_tcp_buffers :: "usize \<Rightarrow> usize \<Rightarrow> DpdkServerRunner \<Rightarrow> DpdkServerRunner" where
  "runner_tcp_buffers rx tx r = r\<lparr>sr_tcp_rx_buffer := rx, sr_tcp_tx_buffer := tx\<rparr>"

definition runner_backlog :: "usize \<Rightarrow> DpdkServerRunner \<Rightarrow> DpdkServerRunner" where
  "runner_backlog n r = r\<lparr>sr_backlog := n\<rparr>"

text \<open>The two detections, over what the system reports of the interface.\<close>

definition with_default_network_config ::
  "(string \<Rightarrow> Ipv4Addr option) \<Rightarrow> Ipv4Addr option \<Rightarrow> DpdkServerRunner \<Rightarrow> DpdkServerRunner outcome" where
  "with_default_network_config get_interface_ipv4 default_gateway r =
     (case get_interface_ipv4 (sr_interface r) of
        None \<Rightarrow> Panic ''Failed to get IP address for interface''
      | Some ip \<Rightarrow>
          let gateway = (case default_gateway of Some g \<Rightarrow> g | None \<Rightarrow> Ipv4 10 0 0 1)
          in Ret (r\<lparr>sr_ip_addr := Some ip, sr_gateway := Some gateway\<rparr>))"

definition with_default_hw_queues ::
  "(string \<Rightarrow> (u32, string) Result) \<Rightarrow> DpdkServerRunner \<Rightarrow> DpdkServerRunner outcome" where
  "with_default_hw_queues combined_count r =
     (case combined_count (sr_interface r) of
        Err e \<Rightarrow> Panic ''Failed to get hardware queues via ethtool''
      | Ok n \<Rightarrow> Ret (r\<lparr>sr_hw_queues := Some (unat n)\<rparr>))"

subsection \<open>Workers\<close>

record worker =
  wk_queue_id :: usize
  wk_mempool :: ptr
  wk_config :: EthDevConfig
  wk_mac :: MacAddress
  wk_ip :: Ipv4Addr
  wk_gateway :: Ipv4Addr
  wk_cache :: "nat option"
  wk_port :: u16
  wk_tcp_rx :: usize
  wk_tcp_tx :: usize
  wk_backlog :: usize

record ServerContext =
  ctx_listener :: TcpListener
  ctx_queue_id :: usize
  ctx_port :: u16

record ('s, 'i, 'd, 'set) worker_lib =
  wl_cpu_set_with :: "usize \<Rightarrow> ('set, Errno) Result"
  wl_sched_setaffinity :: "int \<Rightarrow> 'set \<Rightarrow> 'd world \<Rightarrow> (unit, Errno) Result \<times> 'd world"
  wl_iface_new :: "MacAddress \<Rightarrow> DpdkDevice \<Rightarrow> 'd world \<Rightarrow> 'i \<times> DpdkDevice \<times> 'd world"
  wl_push_ip :: "Ipv4Addr \<Rightarrow> nat \<Rightarrow> 'i \<Rightarrow> 'i option"
  wl_add_route :: "Ipv4Addr \<Rightarrow> 'i \<Rightarrow> 'i option"
  wl_serve :: "ServerContext \<Rightarrow> ('s, 'i, DpdkDevice) reactor \<Rightarrow> 'd world \<Rightarrow> 'd world outcome"

definition worker_device :: "worker \<Rightarrow> DpdkDevice outcome" where
  "worker_device wk =
     bind_outcome (config_create_device (wk_config wk) (wk_mempool wk) (of_nat (wk_queue_id wk))) (\<lambda>device.
       Ret (case wk_cache wk of
              Some cache \<Rightarrow> with_shared_arp_cache (of_nat (wk_queue_id wk)) cache (wk_mac wk) (wk_ip wk) device
            | None \<Rightarrow> device))"

definition run_worker ::
  "'d dpdk \<Rightarrow> ('t, 'u, 's, 'i, DpdkDevice) smoltcp \<Rightarrow> ('s, 'i, 'd, 'set) worker_lib \<Rightarrow> worker \<Rightarrow> 'd world \<Rightarrow> 'd world outcome" where
  "run_worker D S L wk w =
     (case thread_registration_new D w of
        (Err e, w) \<Rightarrow> Panic ''Failed to register thread with DPDK''
      | (Ok _, w) \<Rightarrow>
          let w = snd (set_cpu_affinity (wl_cpu_set_with L) (wl_sched_setaffinity L) (wk_queue_id wk) w) in
          bind_outcome (worker_device wk) (\<lambda>device.
            let (iface, device, w) = wl_iface_new L (wk_mac wk) device w in
            case wl_push_ip L (wk_ip wk) 24 iface of
              None \<Rightarrow> Panic ''called `Result::unwrap()` on an `Err` value''
            | Some iface \<Rightarrow>
                (case wl_add_route L (wk_gateway wk) iface of
                   None \<Rightarrow> Panic ''called `Result::unwrap()` on an `Err` value''
                 | Some iface \<Rightarrow>
                     (case tcp_listener_bind_with_backlog S (wk_port wk) (wk_tcp_rx wk) (wk_tcp_tx wk) (wk_backlog wk)
                             (reactor_new S device iface) of
                        (Err e, r) \<Rightarrow> Panic ''Failed to bind listener''
                      | (Ok listener, r) \<Rightarrow>
                          bind_outcome (wl_serve L \<lparr>ctx_listener = listener, ctx_queue_id = wk_queue_id wk, ctx_port = wk_port wk\<rparr> r w)
                            (\<lambda>w. Ret (thread_registration_drop D w))))))"

definition spawn_workers :: "nat \<Rightarrow> (usize \<Rightarrow> worker) \<Rightarrow> worker list" where
  "spawn_workers num_queues wk = map wk [1..<num_queues]"

subsection \<open>The run\<close>

definition runner_num_queues :: "usize \<Rightarrow> usize \<Rightarrow> usize option \<Rightarrow> usize" where
  "runner_num_queues hw_queues num_cpus max_queues =
     (let num_queues = hw_queues;
          num_queues = (if num_cpus > num_queues then num_cpus else num_queues)
      in (case max_queues of
            Some max_queue \<Rightarrow> if max_queue < num_queues then max_queue else num_queues
          | None \<Rightarrow> num_queues))"

definition runner_eth_conf :: "'d dpdk \<Rightarrow> nat \<Rightarrow> EthConf" where
  "runner_eth_conf D reta_size =
     (if reta_size > 0 then eth_rss_with_hash (or (RSS_NONFRAG_IPV4_TCP D) (RSS_NONFRAG_IPV6_TCP D)) eth_conf_new
      else eth_conf_new)"

definition runner_config :: "DpdkServerRunner \<Rightarrow> u32 \<Rightarrow> usize \<Rightarrow> EthConf \<Rightarrow> EthDevConfig" where
  "runner_config r total_mbufs num_queues eth_conf =
     config_eth_conf eth_conf
       (config_tx_desc (sr_tx_desc r)
         (config_rx_desc (sr_rx_desc r)
           (config_nb_queues (of_nat num_queues)
             (config_num_mbufs total_mbufs (config_mempool_name (ascii ''server_pool'') eth_dev_config_new)))))"

definition runner_total_mbufs :: "DpdkServerRunner \<Rightarrow> usize \<Rightarrow> u32 outcome" where
  "runner_total_mbufs r num_queues =
     (let n = unat (of_nat num_queues :: u32) in
      if unat (sr_mbufs_per_queue r) * n < 2 ^ 32 then Ret (sr_mbufs_per_queue r * of_nat num_queues)
      else Panic ''attempt to multiply with overflow'')"

text \<open>The queries whose results are only logged.\<close>

definition runner_log_rss :: "'d dpdk \<Rightarrow> EthDev \<Rightarrow> usize \<Rightarrow> 'd world \<Rightarrow> 'd world" where
  "runner_log_rss D eth_dev num_queues w =
     (if num_queues > 1 then
        let (reta, w) = eth_query_rss_reta D eth_dev w in
        (case eth_rss_hash_conf D eth_dev w of
           (Ok _, w) \<Rightarrow> snd (eth_has_tcp_rss D eth_dev w)
         | (Err e, w) \<Rightarrow> w)
      else w)"

definition runner_worker ::
  "DpdkServerRunner \<Rightarrow> ptr \<Rightarrow> EthDevConfig \<Rightarrow> MacAddress \<Rightarrow> Ipv4Addr \<Rightarrow> Ipv4Addr \<Rightarrow> nat option \<Rightarrow> usize \<Rightarrow> worker" where
  "runner_worker r mempool config mac ip gateway cache queue_id =
     \<lparr>wk_queue_id = queue_id, wk_mempool = mempool, wk_config = config, wk_mac = mac, wk_ip = ip,
      wk_gateway = gateway, wk_cache = cache, wk_port = sr_port r, wk_tcp_rx = sr_tcp_rx_buffer r,
      wk_tcp_tx = sr_tcp_tx_buffer r, wk_backlog = sr_backlog r\<rparr>"

definition runner_workers ::
  "DpdkServerRunner \<Rightarrow> ptr \<Rightarrow> EthDevConfig \<Rightarrow> MacAddress \<Rightarrow> Ipv4Addr \<Rightarrow> Ipv4Addr \<Rightarrow> nat option \<Rightarrow> usize \<Rightarrow> worker list" where
  "runner_workers r mempool config mac ip gateway cache num_queues =
     (let wk = runner_worker r mempool config mac ip gateway cache in wk 0 # spawn_workers num_queues wk)"

definition runner_cleanup :: "'d dpdk \<Rightarrow> EthDev \<Rightarrow> 'd world \<Rightarrow> 'd world" where
  "runner_cleanup D eth_dev w =
     (let w = snd (eth_stats D eth_dev w);
          w = snd (eth_stop D eth_dev w)
      in snd (eth_close D eth_dev w))"

text \<open>
  The run, after the device has been built: \<open>handler_set\<close> says whether the handler of Ctrl+C could
  be installed, and \<open>cache_id\<close> is the place of the new cache among the caches of the process.
\<close>

definition runner_serve ::
  "'d dpdk \<Rightarrow> bool \<Rightarrow> nat \<Rightarrow> (worker list \<Rightarrow> 'd world \<Rightarrow> 'd world outcome) \<Rightarrow> DpdkServerRunner \<Rightarrow> EthDevConfig \<Rightarrow> usize \<Rightarrow>
     Ipv4Addr \<Rightarrow> Ipv4Addr \<Rightarrow> ptr \<Rightarrow> EthDev \<Rightarrow> 'd world \<Rightarrow> 'd world outcome" where
  "runner_serve D handler_set cache_id threads r config num_queues ip_addr gateway mempool eth_dev w =
     (case eth_mac_addr D eth_dev (runner_log_rss D eth_dev num_queues w) of
        (Err e, w) \<Rightarrow> Panic ''Failed to get MAC address''
      | (Ok mac, w) \<Rightarrow>
          if \<not> handler_set then Panic ''Failed to set Ctrl+C handler''
          else let (cache, w) = (if num_queues > 1
                then (Some cache_id, w\<lparr>caches := (caches w)(cache_id := arp_cache_new)\<rparr>) else (None, w)) in
          bind_outcome (threads (runner_workers r mempool config mac ip_addr gateway cache num_queues) w) (\<lambda>w.
            Ret (mempool_drop D mempool (runner_cleanup D eth_dev w))))"

definition runner_run ::
  "'d dpdk \<Rightarrow> u16 \<Rightarrow> u16 \<Rightarrow> usize \<Rightarrow> bool \<Rightarrow> nat \<Rightarrow> (worker list \<Rightarrow> 'd world \<Rightarrow> 'd world outcome) \<Rightarrow>
     DpdkServerRunner \<Rightarrow> 'd world \<Rightarrow> 'd world outcome" where
  "runner_run D room headroom num_cpus handler_set cache_id threads r w =
     (case sr_ip_addr r of
        None \<Rightarrow> Panic ''ip_addr not set''
      | Some ip_addr \<Rightarrow>
     (case sr_gateway r of
        None \<Rightarrow> Panic ''gateway not set''
      | Some gateway \<Rightarrow>
     (case sr_hw_queues r of
        None \<Rightarrow> Panic ''hw_queues not set''
      | Some hw_queues \<Rightarrow>
     (case eth_info D (eth_dev_new 0) w of
        (Err e, w) \<Rightarrow> Panic ''Failed to get device info''
      | (Ok dev_info, w) \<Rightarrow>
          let num_queues = runner_num_queues hw_queues num_cpus (sr_max_queues r) in
          bind_outcome (runner_total_mbufs r num_queues) (\<lambda>total_mbufs.
            let config = runner_config r total_mbufs num_queues (runner_eth_conf D (unat (info_reta_size dev_info))) in
            bind_outcome (config_build D room headroom config w) (\<lambda>(res, w).
              case res of
                Err e \<Rightarrow> Panic ''Failed to configure eth device''
              | Ok (mempool, eth_dev) \<Rightarrow>
                  runner_serve D handler_set cache_id threads r config num_queues ip_addr gateway mempool eth_dev w))))))"

subsection \<open>Properties\<close>

lemmas runner_setter_defs [setter_defs] =
  runner_port_def runner_ip_addr_def runner_gateway_def runner_hw_queues_def runner_max_queues_def
  runner_mbufs_per_queue_def runner_tcp_buffers_def runner_backlog_def

lemma runner_num_queues_eq:
  "runner_num_queues hw cpus max_queues =
    (case max_queues of None \<Rightarrow> max hw cpus | Some m \<Rightarrow> min m (max hw cpus))"
  by (auto simp: runner_num_queues_def Let_def split: option.split)

lemma spawned_queues: "[0] @ [1..<n] = [0..<max 1 n]"
  by (cases n) (auto simp: upt_conv_Cons max_def)

lemma map_queue_ids: "map wk_queue_id (runner_workers r mempool config mac ip gateway cache n) = [0..<max 1 n]"
  using spawned_queues [of n] by (simp add: runner_workers_def spawn_workers_def runner_worker_def comp_def Let_def)

lemma nth_workers:
  assumes "q < max 1 n"
  shows "runner_workers r mempool config mac ip gateway cache n ! q = runner_worker r mempool config mac ip gateway cache q"
proof (cases q)
  case (Suc k)
  with assms show ?thesis by (simp add: runner_workers_def spawn_workers_def Let_def)
qed (simp add: runner_workers_def Let_def)

lemma runner_config_fits:
  "config_mbuf_capacity (runner_config r mbufs n conf) = Ret 2048" "ec_mtu (runner_config r mbufs n conf) = 1500"
  "ec_port_id (runner_config r mbufs n conf) = 0"
  by (simp_all add: config_mbuf_capacity_def runner_config_def config_setter_defs eth_dev_config_new_def
      DEFAULT_MTU_def DEFAULT_MBUF_DATA_ROOM_SIZE_def DEFAULT_MBUF_HEADROOM_def)

text \<open>
  The workers of a run cover the queues: there is one worker for every queue, in order, and its
  device receives and transmits on the hardware queue of its number. With more than one queue all
  devices share the same ARP cache, and exactly the device of queue 0 publishes in it; with one
  queue no device has a cache (C21).
\<close>

theorem runner_workers_cover_queues:
  assumes "num_queues \<le> 65536" and "cache = (if num_queues > 1 then Some cache_id else None)"
    and "ws = runner_workers r mempool (runner_config r mbufs num_queues conf) mac ip gateway cache num_queues"
  shows "map wk_queue_id ws = [0..<max 1 num_queues] \<and>
    (\<forall>q < max 1 num_queues. \<exists>dev. worker_device (ws ! q) = Ret dev \<and>
      rx_queue_id (dev_rxq dev) = of_nat q \<and> tx_queue_id (dev_txq dev) = of_nat q \<and>
      rx_port_id (dev_rxq dev) = 0 \<and> tx_port_id (dev_txq dev) = 0 \<and> dev_mempool dev = mempool \<and>
      shared_arp_cache dev = cache \<and> publishes dev = (if q = 0 then cache else None) \<and>
      rx_batch dev = [] \<and> tx_batch dev = [])"
proof -
  let ?config = "runner_config r mbufs num_queues conf"
  have device: "\<exists>dev. worker_device (runner_worker r mempool ?config mac ip gateway cache q) = Ret dev \<and>
      rx_queue_id (dev_rxq dev) = of_nat q \<and> tx_queue_id (dev_txq dev) = of_nat q \<and>
      rx_port_id (dev_rxq dev) = 0 \<and> tx_port_id (dev_txq dev) = 0 \<and> dev_mempool dev = mempool \<and>
      shared_arp_cache dev = cache \<and> publishes dev = (if q = 0 then cache else None) \<and>
      rx_batch dev = [] \<and> tx_batch dev = []" if "q < max 1 num_queues" for q
  proof -
    have u: "unat (of_nat q :: u16) = q" using that assms(1) by (intro unat_of_nat_u16) auto
    have id: "(of_nat q :: u16) = 0 \<longleftrightarrow> q = 0"
      by (rule iffI, rule u [THEN sym, THEN trans]) simp_all
    define dev where "dev = \<lparr>dev_rxq = rx_queue_new 0 (of_nat q), dev_txq = tx_queue_new 0 (of_nat q), dev_mempool = mempool,
        rx_batch = [], tx_batch = [], dev_mtu = 1500, dev_mbuf_capacity = 2048, dev_queue_id = 0, shared_arp_cache = None,
        our_mac = None, our_ip = None, last_cache_version = 0\<rparr>"
    have "config_create_device ?config mempool (of_nat q) = Ret dev"
      unfolding config_create_device_def runner_config_fits Let_def dev_def by (simp add: dpdk_device_new_def MAX_PACKET_OVERHEAD_def)
    then show ?thesis
      by (cases cache) (simp_all add: worker_device_def runner_worker_def with_shared_arp_cache_def publishes_def id
          rx_queue_new_def tx_queue_new_def dev_def)
  qed
  show ?thesis using device by (simp add: assms(3) map_queue_ids nth_workers)
qed

theorem runner_workers_cover_queues_witness:
  "\<exists>dev0 dev1. map worker_device (runner_workers (runner_new ''eth1'') 5 (runner_config (runner_new ''eth1'') 16384 2 eth_conf_new)
      (Mac 1 2 3 4 5 6) (Ipv4 10 0 0 4) (Ipv4 10 0 0 1) (Some 3) 2) = [Ret dev0, Ret dev1] \<and>
    publishes dev0 = Some 3 \<and> publishes dev1 = None \<and> shared_arp_cache dev1 = Some 3 \<and> rx_queue_id (dev_rxq dev1) = 1"
proof -
  let ?ws = "runner_workers (runner_new ''eth1'') 5 (runner_config (runner_new ''eth1'') 16384 2 eth_conf_new)
      (Mac 1 2 3 4 5 6) (Ipv4 10 0 0 4) (Ipv4 10 0 0 1) (Some 3) 2"
  note C = runner_workers_cover_queues [OF _ _ refl, of 2 "Some 3" 3 "runner_new ''eth1''" 5 16384 eth_conf_new
      "Mac 1 2 3 4 5 6" "Ipv4 10 0 0 4" "Ipv4 10 0 0 1", simplified]
  obtain dev0 where 0: "worker_device (?ws ! 0) = Ret dev0" "publishes dev0 = Some 3" using C by auto
  obtain dev1 where 1: "worker_device (?ws ! 1) = Ret dev1" "publishes dev1 = None" "shared_arp_cache dev1 = Some 3"
      "rx_queue_id (dev_rxq dev1) = 1"
    using C [THEN conjunct2, THEN spec [of _ 1]] by auto
  have "?ws = [?ws ! 0, ?ws ! 1]" by (simp add: runner_workers_def spawn_workers_def Let_def upt_rec)
  then have "map worker_device ?ws = map worker_device [?ws ! 0, ?ws ! 1]" by (rule arg_cong)
  then have "map worker_device ?ws = [Ret dev0, Ret dev1]" by (simp only: list.map 0(1) 1(1))
  with 0 1 show ?thesis by auto
qed

text \<open>
  A run that returns has been given an address, a gateway and a number of queues, and has stopped and
  closed the device before it freed the pool.
\<close>

lemma runner_serve_returns:
  assumes "runner_serve D handler_set cache_id threads r config n ip gateway mempool eth_dev w = Ret w'"
  shows "\<exists>w1. w' = mempool_drop D mempool (runner_cleanup D eth_dev w1)"
  using assms by (auto simp: runner_serve_def split: prod.splits Result.splits if_splits)

lemma runner_run_returns:
  assumes "runner_run D room headroom num_cpus handler_set cache_id threads r w = Ret w'"
  shows "sr_ip_addr r \<noteq> None \<and> sr_gateway r \<noteq> None \<and> sr_hw_queues r \<noteq> None \<and>
    (\<exists>mempool eth_dev w1. w' = mempool_drop D mempool (runner_cleanup D eth_dev w1))"
  using assms
  by (auto simp: runner_run_def Let_def split: option.splits prod.splits Result.splits)
    (metis Result.exhaust prod.exhaust runner_serve_returns)

end
