(* ===== verification/Tokio_Compat.thy ===== *)
theory Tokio_Compat
  imports Tcp_Socket
begin

section \<open>The tokio adapter\<close>

text \<open>
  A model of \<^verbatim>\<open>dpdk-net/src/runtime/tokio_compat.rs\<close>: the \<open>AsyncRead\<close> and \<open>AsyncWrite\<close>
  functions of \<open>TokioTcpStream\<close>. A \<open>ReadBuf\<close> is the bytes filled so far and the number of bytes
  that still fit. The only error kind the adapter produces is \<open>NotConnected\<close>.
\<close>

datatype io_error = NotConnected string

record read_buf =
  rb_filled :: bytes
  rb_unfilled :: usize

definition tokio_poll_read ::
  "('t, 'u, 's, 'i, 'v) smoltcp \<Rightarrow> waker \<Rightarrow> SocketHandle \<Rightarrow> read_buf \<Rightarrow> ('s, 'i, 'v) reactor
     \<Rightarrow> ((unit, io_error) Result poll \<times> read_buf \<times> ('s, 'i, 'v) reactor) outcome" where
  "tokio_poll_read S cx h buf r =
     bind_outcome (get_tcp S h (r_sockets r)) (\<lambda>t.
       if rb_unfilled buf = 0 then Ret (Ready (Ok ()), buf, r)
       else
         let (res, t) = tcp_recv_slice S (rb_unfilled buf) t;
             put_back = (\<lambda>t. r\<lparr>r_sockets := set_put S h (TcpSock t) (r_sockets r)\<rparr>)
         in (case res of
               Ok bs \<Rightarrow>
                 if length bs = 0 then Ret (Pending, buf, put_back (tcp_register_recv_waker S cx t))
                 else Ret (Ready (Ok ()),
                   buf\<lparr>rb_filled := rb_filled buf @ bs, rb_unfilled := rb_unfilled buf - length bs\<rparr>, put_back t)
             | Err RecvFinished \<Rightarrow> Ret (Ready (Ok ()), buf, put_back t)
             | Err RecvInvalidState \<Rightarrow>
                 Ret (Ready (Err (NotConnected ''socket in invalid state for receiving'')), buf, put_back t)))"

definition tokio_poll_write ::
  "('t, 'u, 's, 'i, 'v) smoltcp \<Rightarrow> waker \<Rightarrow> SocketHandle \<Rightarrow> bytes \<Rightarrow> ('s, 'i, 'v) reactor
     \<Rightarrow> ((usize, io_error) Result poll \<times> ('s, 'i, 'v) reactor) outcome" where
  "tokio_poll_write S cx h buf =
     with_tcp S h (\<lambda>t.
       case tcp_send_slice S buf t of
         (Ok n, t) \<Rightarrow>
           if n = 0 \<and> buf \<noteq> [] then (Pending, tcp_register_send_waker S cx t)
           else (Ready (Ok n), t)
       | (Err SendInvalidState, t) \<Rightarrow>
           (Ready (Err (NotConnected ''socket in invalid state for sending'')), t))"

definition tokio_poll_flush ::
  "('t, 'u, 's, 'i, 'v) smoltcp \<Rightarrow> waker \<Rightarrow> SocketHandle \<Rightarrow> ('s, 'i, 'v) reactor
     \<Rightarrow> ((unit, io_error) Result poll \<times> ('s, 'i, 'v) reactor) outcome" where
  "tokio_poll_flush S cx h r =
     bind_outcome (get_tcp S h (r_sockets r)) (\<lambda>t.
       if tcp_send_queue S t = 0 then Ret (Ready (Ok ()), r)
       else with_tcp S h (\<lambda>t. (Pending, tcp_register_send_waker S cx t)) r)"

definition tokio_poll_shutdown ::
  "('t, 'u, 's, 'i, 'v) smoltcp \<Rightarrow> waker \<Rightarrow> SocketHandle \<Rightarrow> ('s, 'i, 'v) reactor
     \<Rightarrow> ((unit, io_error) Result poll \<times> ('s, 'i, 'v) reactor) outcome" where
  "tokio_poll_shutdown S cx h r =
     bind_outcome (get_tcp S h (r_sockets r)) (\<lambda>t.
       if tcp_state_of S t = Closed \<or> tcp_state_of S t = TimeWait then Ret (Ready (Ok ()), r)
       else
         bind_outcome
           (if tcp_state_of S t \<in> {FinWait1, FinWait2, Closing, LastAck} then Ret ((), r)
            else with_tcp S h (\<lambda>t. ((), tcp_close S t)) r) (\<lambda>(u, r).
         with_tcp S h (\<lambda>t.
           if tcp_state_of S t = Closed \<or> tcp_state_of S t = TimeWait then (Ready (Ok ()), t)
           else (Pending, tcp_register_send_waker S cx t)) r))"

end
