(* ===== verification/Udp_Socket.thy ===== *)
theory Udp_Socket
  imports Reactor
begin

section \<open>UDP sockets\<close>

text \<open>
  A model of \<^verbatim>\<open>dpdk-net/src/socket/udp.rs\<close>, in the same way as the TCP streams: the socket is
  the handle it owns, and the futures' \<open>poll\<close> takes and returns the reactor's state.
\<close>

definition with_udp ::
  "('t, 'u, 's, 'i, 'v) smoltcp \<Rightarrow> SocketHandle \<Rightarrow> ('u \<Rightarrow> 'a \<times> 'u) \<Rightarrow> ('s, 'i, 'v) reactor \<Rightarrow> ('a \<times> ('s, 'i, 'v) reactor) outcome" where
  "with_udp S h f r =
     bind_outcome (get_udp S h (r_sockets r)) (\<lambda>u.
       let (a, u) = f u in Ret (a, r\<lparr>r_sockets := set_put S h (UdpSock u) (r_sockets r)\<rparr>))"

definition udp_socket_bind ::
  "('t, 'u, 's, 'i, 'v) smoltcp \<Rightarrow> u16 \<Rightarrow> usize \<Rightarrow> usize \<Rightarrow> usize \<Rightarrow> ('s, 'i, 'v) reactor
     \<Rightarrow> (SocketHandle, BindError) Result \<times> ('s, 'i, 'v) reactor" where
  "udp_socket_bind S port rx_buffer_packets tx_buffer_packets max_packet_size r =
     (let socket = udp_new S rx_buffer_packets (rx_buffer_packets * max_packet_size)
                     tx_buffer_packets (tx_buffer_packets * max_packet_size)
      in (case udp_bind S port socket of
            (Err e, socket) \<Rightarrow> (Err e, r)
          | (Ok _, socket) \<Rightarrow>
              let (h, s) = set_add S (UdpSock socket) (r_sockets r) in (Ok h, r\<lparr>r_sockets := s\<rparr>)))"

definition udp_socket_is_open ::
  "('t, 'u, 's, 'i, 'v) smoltcp \<Rightarrow> SocketHandle \<Rightarrow> ('s, 'i, 'v) reactor \<Rightarrow> bool outcome" where
  "udp_socket_is_open S h r = bind_outcome (get_udp S h (r_sockets r)) (\<lambda>u. Ret (udp_is_open S u))"

definition udp_socket_endpoint ::
  "('t, 'u, 's, 'i, 'v) smoltcp \<Rightarrow> SocketHandle \<Rightarrow> ('s, 'i, 'v) reactor \<Rightarrow> (Ipv4Addr option \<times> u16) outcome" where
  "udp_socket_endpoint S h r = bind_outcome (get_udp S h (r_sockets r)) (\<lambda>u. Ret (udp_endpoint S u))"

definition udp_socket_close ::
  "('t, 'u, 's, 'i, 'v) smoltcp \<Rightarrow> SocketHandle \<Rightarrow> ('s, 'i, 'v) reactor \<Rightarrow> (unit \<times> ('s, 'i, 'v) reactor) outcome" where
  "udp_socket_close S h = with_udp S h (\<lambda>u. ((), udp_close S u))"

definition udp_socket_drop ::
  "('t, 'u, 's, 'i, 'v) smoltcp \<Rightarrow> SocketHandle \<Rightarrow> ('s, 'i, 'v) reactor \<Rightarrow> ('s, 'i, 'v) reactor outcome" where
  "udp_socket_drop S h r =
     bind_outcome (with_udp S h (\<lambda>u. ((), udp_close S u)) r) (\<lambda>(x, r).
       bind_outcome (remove_socket S h (r_sockets r)) (\<lambda>s. Ret (r\<lparr>r_sockets := s\<rparr>)))"

definition udp_send_poll ::
  "('t, 'u, 's, 'i, 'v) smoltcp \<Rightarrow> waker \<Rightarrow> SocketHandle \<Rightarrow> bytes \<Rightarrow> endpoint \<Rightarrow> ('s, 'i, 'v) reactor
     \<Rightarrow> ((usize, UdpSendError) Result poll \<times> ('s, 'i, 'v) reactor) outcome" where
  "udp_send_poll S cx h bs ep =
     with_udp S h (\<lambda>u.
       case udp_send_slice S bs ep u of
         (Ok _, u) \<Rightarrow> (Ready (Ok (length bs)), u)
       | (Err UdpBufferFull, u) \<Rightarrow> (Pending, udp_register_send_waker S cx u)
       | (Err e, u) \<Rightarrow> (Ready (Err e), u))"

definition udp_recv_poll ::
  "('t, 'u, 's, 'i, 'v) smoltcp \<Rightarrow> waker \<Rightarrow> SocketHandle \<Rightarrow> usize \<Rightarrow> ('s, 'i, 'v) reactor
     \<Rightarrow> ((bytes \<times> endpoint, UdpRecvError) Result poll \<times> ('s, 'i, 'v) reactor) outcome" where
  "udp_recv_poll S cx h buf_len =
     with_udp S h (\<lambda>u.
       case udp_recv_slice S buf_len u of
         (Ok d, u) \<Rightarrow> (Ready (Ok d), u)
       | (Err UdpExhausted, u) \<Rightarrow> (Pending, udp_register_recv_waker S cx u)
       | (Err e, u) \<Rightarrow> (Ready (Err e), u))"

end
