(* ===== verification/Socket_Ownership.thy ===== *)
theory Socket_Ownership
  imports Tokio_Compat Udp_Socket "HOL-Library.Multiset"
begin

section \<open>Ownership of sockets\<close>

text \<open>
  Every smoltcp socket belongs to one owner: a \<open>TcpStream\<close>, a \<open>TcpListener\<close>, a \<open>UdpSocket\<close>,
  or the reactor's list of orphans once its stream is gone. This theory gives the step relation
  of everything the sockets and the reactor do to the socket set, and the invariant that owners
  and sockets correspond one to one. From it follows that no operation on a live object panics
  on its handle, and that no socket is left behind without an owner.
\<close>

subsection \<open>Kinds of sockets\<close>

definition kinds :: "('t, 'u, 's, 'i, 'v) smoltcp \<Rightarrow> 's \<Rightarrow> SocketHandle \<Rightarrow> bool option" where
  "kinds S s h = map_option is_tcp (set_get S s h)"

definition kind_map :: "SocketHandle list \<Rightarrow> SocketHandle list \<Rightarrow> SocketHandle \<Rightarrow> bool option" where
  "kind_map T U h = (if h \<in> set T then Some True else if h \<in> set U then Some False else None)"

lemma same_sockets_kinds: "same_sockets S s s' \<longleftrightarrow> kinds S s' = kinds S s"
  by (auto simp: same_sockets_def kinds_def fun_eq_iff)

lemma kinds_tcp: "kinds S s h = Some True \<longleftrightarrow> (\<exists>t. set_get S s h = Some (TcpSock t))"
  by (auto simp: kinds_def elim: is_tcp.elims)

lemma kinds_udp: "kinds S s h = Some False \<longleftrightarrow> (\<exists>u. set_get S s h = Some (UdpSock u))"
  by (auto simp: kinds_def elim: is_tcp.elims)

lemma kinds_None: "kinds S s h = None \<longleftrightarrow> set_get S s h = None"
  by (simp add: kinds_def)

lemma kinds_put:
  assumes "socket_set_laws S" and "kinds S s h = Some b" and "is_tcp k = b"
  shows "kinds S (set_put S h k s) = kinds S s"
proof -
  have "set_get S s h \<noteq> None" using assms(2) by (auto simp: kinds_def)
  from set_putD [OF assms(1) this, of k] assms(2,3) show ?thesis
    by (auto simp: kinds_def fun_eq_iff)
qed

lemma kinds_add:
  assumes "socket_set_laws S" and "set_add S k s = (h, s')"
  shows "kinds S s h = None" "kinds S s' = (kinds S s)(h \<mapsto> is_tcp k)"
  using set_addD [OF assms] by (auto simp: kinds_def fun_eq_iff)

lemma kinds_remove:
  assumes "socket_set_laws S" and "kinds S s h \<noteq> None"
  shows "kinds S (set_remove S h s) = (kinds S s)(h := None)"
  using set_removeD [OF assms(1), of s h] assms(2) by (auto simp: kinds_def fun_eq_iff)

text \<open>Operations that change sockets but add or remove none.\<close>

definition in_place :: "('t, 'u, 's, 'i, 'v) smoltcp \<Rightarrow> ('s, 'i, 'v) reactor \<Rightarrow> ('s, 'i, 'v) reactor \<Rightarrow> bool" where
  "in_place S r r' \<longleftrightarrow> kinds S (r_sockets r') = kinds S (r_sockets r) \<and> orphaned_closing r' = orphaned_closing r"

lemma in_place_refl [simp]: "in_place S r r"
  by (simp add: in_place_def)

lemma with_tcp_ok:
  assumes "socket_set_laws S" and "kinds S (r_sockets r) h = Some True"
  shows "\<exists>a r'. with_tcp S h f r = Ret (a, r') \<and> in_place S r r'"
proof -
  obtain t where t: "set_get S (r_sockets r) h = Some (TcpSock t)"
    using assms(2) by (auto simp: kinds_tcp)
  obtain a t' where "f t = (a, t')" by fastforce
  then show ?thesis
    using t kinds_put [OF assms, of "TcpSock t'"]
    by (auto simp: with_tcp_def get_tcp_def in_place_def)
qed

lemma with_udp_ok:
  assumes "socket_set_laws S" and "kinds S (r_sockets r) h = Some False"
  shows "\<exists>a r'. with_udp S h f r = Ret (a, r') \<and> in_place S r r'"
proof -
  obtain u where u: "set_get S (r_sockets r) h = Some (UdpSock u)"
    using assms(2) by (auto simp: kinds_udp)
  obtain a u' where "f u = (a, u')" by fastforce
  then show ?thesis
    using u kinds_put [OF assms, of "UdpSock u'"]
    by (auto simp: with_udp_def get_udp_def in_place_def)
qed

subsection \<open>The operations of a stream and of a UDP socket\<close>

datatype stream_op = OpSend waker bytes usize | OpRecv waker usize | OpWaitConnected waker | OpClose
  | OpClosePoll waker | OpAbort | OpRead waker read_buf | OpWrite waker bytes | OpFlush waker | OpShutdown waker

fun stream_exec ::
  "('t, 'u, 's, 'i, 'v) smoltcp \<Rightarrow> stream_op \<Rightarrow> SocketHandle \<Rightarrow> ('s, 'i, 'v) reactor \<Rightarrow> ('s, 'i, 'v) reactor outcome" where
  "stream_exec S (OpSend cx bs off) h r = bind_outcome (tcp_send_poll S cx h bs off r) (\<lambda>(p, off, r). Ret r)"
| "stream_exec S (OpRecv cx n) h r = bind_outcome (tcp_recv_poll S cx h n r) (\<lambda>(p, r). Ret r)"
| "stream_exec S (OpWaitConnected cx) h r = bind_outcome (wait_connected_poll S cx h r) (\<lambda>(p, r). Ret r)"
| "stream_exec S OpClose h r = bind_outcome (tcp_stream_close S h r) (\<lambda>(x, r). Ret r)"
| "stream_exec S (OpClosePoll cx) h r = bind_outcome (close_poll S cx h r) (\<lambda>(p, r). Ret r)"
| "stream_exec S OpAbort h r = bind_outcome (tcp_stream_abort S h r) (\<lambda>(x, r). Ret r)"
| "stream_exec S (OpRead cx buf) h r = bind_outcome (tokio_poll_read S cx h buf r) (\<lambda>(p, b, r). Ret r)"
| "stream_exec S (OpWrite cx bs) h r = bind_outcome (tokio_poll_write S cx h bs r) (\<lambda>(p, r). Ret r)"
| "stream_exec S (OpFlush cx) h r = bind_outcome (tokio_poll_flush S cx h r) (\<lambda>(p, r). Ret r)"
| "stream_exec S (OpShutdown cx) h r = bind_outcome (tokio_poll_shutdown S cx h r) (\<lambda>(p, r). Ret r)"

text \<open>A send future never advances its offset beyond its data.\<close>

fun op_ok :: "stream_op \<Rightarrow> bool" where
  "op_ok (OpSend cx bs off) \<longleftrightarrow> off \<le> length bs"
| "op_ok op \<longleftrightarrow> True"

datatype udp_op = UdpSendTo waker bytes endpoint | UdpRecvFrom waker usize | UdpClose

fun udp_exec ::
  "('t, 'u, 's, 'i, 'v) smoltcp \<Rightarrow> udp_op \<Rightarrow> SocketHandle \<Rightarrow> ('s, 'i, 'v) reactor \<Rightarrow> ('s, 'i, 'v) reactor outcome" where
  "udp_exec S (UdpSendTo cx bs ep) h r = bind_outcome (udp_send_poll S cx h bs ep r) (\<lambda>(p, r). Ret r)"
| "udp_exec S (UdpRecvFrom cx n) h r = bind_outcome (udp_recv_poll S cx h n r) (\<lambda>(p, r). Ret r)"
| "udp_exec S UdpClose h r = bind_outcome (udp_socket_close S h r) (\<lambda>(x, r). Ret r)"

lemma bind_in_place:
  assumes "\<exists>a r'. m = Ret (a, r') \<and> in_place S r r'"
  shows "\<exists>r'. bind_outcome m (\<lambda>(p, r). Ret r) = Ret r' \<and> in_place S r r'"
  using assms by auto

lemma put_in_place:
  assumes "socket_set_laws S" and "kinds S (r_sockets r) h = Some True"
  shows "in_place S r (r\<lparr>r_sockets := set_put S h (TcpSock t) (r_sockets r)\<rparr>)"
  using kinds_put [OF assms, of "TcpSock t"] by (simp add: in_place_def)

lemma in_place_trans: "in_place S r r' \<Longrightarrow> in_place S r' r'' \<Longrightarrow> in_place S r r''"
  by (simp add: in_place_def)

lemma tokio_poll_shutdown_ok:
  assumes laws: "socket_set_laws S" and k: "kinds S (r_sockets r) h = Some True"
  shows "\<exists>a r'. tokio_poll_shutdown S cx h r = Ret (a, r') \<and> in_place S r r'"
proof -
  obtain t where t: "set_get S (r_sockets r) h = Some (TcpSock t)" using k by (auto simp: kinds_tcp)
  show ?thesis
  proof (cases "tcp_state_of S t = Closed \<or> tcp_state_of S t = TimeWait")
    case True
    then show ?thesis using t by (auto simp: tokio_poll_shutdown_def get_tcp_def)
  next
    case False
    have "\<exists>u r1. (if tcp_state_of S t \<in> {FinWait1, FinWait2, Closing, LastAck} then Ret ((), r)
        else with_tcp S h (\<lambda>t. ((), tcp_close S t)) r) = Ret (u, r1) \<and> in_place S r r1"
      using with_tcp_ok [OF laws k, of "\<lambda>t. ((), tcp_close S t)"]
      by (cases "tcp_state_of S t \<in> {FinWait1, FinWait2, Closing, LastAck}") simp_all
    then obtain u :: unit and r1 where 1:
      "(if tcp_state_of S t \<in> {FinWait1, FinWait2, Closing, LastAck} then Ret ((), r)
        else with_tcp S h (\<lambda>t. ((), tcp_close S t)) r) = Ret (u, r1)" "in_place S r r1"
      by blast
    have "kinds S (r_sockets r1) h = Some True" using 1(2) k by (simp add: in_place_def)
    from with_tcp_ok [OF laws this, of "\<lambda>t. if tcp_state_of S t = Closed \<or> tcp_state_of S t = TimeWait
        then (Ready (Ok ()) :: (unit, io_error) Result poll, t) else (Pending, tcp_register_send_waker S cx t)"]
    obtain a r2 where 2: "with_tcp S h (\<lambda>t. if tcp_state_of S t = Closed \<or> tcp_state_of S t = TimeWait
        then (Ready (Ok ()) :: (unit, io_error) Result poll, t) else (Pending, tcp_register_send_waker S cx t)) r1 = Ret (a, r2)" "in_place S r1 r2"
      by blast
    then show ?thesis
      using False t 1 in_place_trans [OF 1(2) 2(2)] by (auto simp: tokio_poll_shutdown_def get_tcp_def)
  qed
qed

lemma stream_exec_ok:
  assumes laws: "socket_set_laws S" and k: "kinds S (r_sockets r) h = Some True" and "op_ok op"
  shows "\<exists>r'. stream_exec S op h r = Ret r' \<and> in_place S r r'"
proof -
  obtain t where t: "set_get S (r_sockets r) h = Some (TcpSock t)" using k by (auto simp: kinds_tcp)
  note P = put_in_place [OF laws k]
  show ?thesis
  proof (cases op)
    case (OpSend cx bs off)
    then show ?thesis
      using t P assms(3) by (auto simp: tcp_send_poll_def get_tcp_def Let_def case_prod_beta split: Result.splits)
  next
    case (OpRead cx buf)
    then show ?thesis
      using t P by (auto simp: tokio_poll_read_def get_tcp_def Let_def case_prod_beta split: Result.splits TcpRecvError.splits)
  next
    case (OpFlush cx)
    then show ?thesis
      using t bind_in_place [OF with_tcp_ok [OF laws k, of "\<lambda>t. (Pending, tcp_register_send_waker S cx t)"]]
      by (auto simp: tokio_poll_flush_def get_tcp_def)
  next
    case (OpShutdown cx)
    then show ?thesis using bind_in_place [OF tokio_poll_shutdown_ok [OF laws k]] by simp
  qed (simp only: stream_exec.simps tcp_recv_poll_def wait_connected_poll_def tcp_stream_close_def close_poll_def
      tcp_stream_abort_def tokio_poll_write_def, rule bind_in_place, rule with_tcp_ok [OF laws k])+
qed

lemma udp_exec_ok:
  assumes laws: "socket_set_laws S" and k: "kinds S (r_sockets r) h = Some False"
  shows "\<exists>r'. udp_exec S op h r = Ret r' \<and> in_place S r r'"
  by (cases op; simp only: udp_exec.simps udp_send_poll_def udp_recv_poll_def udp_socket_close_def)
    (rule bind_in_place, rule with_udp_ok [OF assms])+

subsection \<open>Adding and removing sockets\<close>

definition all_tcp :: "('t, 'u, 's, 'i, 'v) smoltcp \<Rightarrow> 's \<Rightarrow> SocketHandle list \<Rightarrow> bool" where
  "all_tcp S s hs \<longleftrightarrow> (\<forall>h \<in> set hs. kinds S s h = Some True)"

lemma all_tcp_simps [simp]:
  "all_tcp S s []" "all_tcp S s (h # hs) \<longleftrightarrow> kinds S s h = Some True \<and> all_tcp S s hs"
  by (simp_all add: all_tcp_def)

lemma create_listening_socket_ok:
  assumes "socket_set_laws S" and "create_listening_socket S port rx tx r = (res, r')"
  shows "case res of
      Ok h \<Rightarrow> kinds S (r_sockets r) h = None \<and> kinds S (r_sockets r') = (kinds S (r_sockets r))(h \<mapsto> True) \<and>
        orphaned_closing r' = orphaned_closing r
    | Err e \<Rightarrow> r' = r"
  using assms kinds_add [OF assms(1)]
  by (auto simp: create_listening_socket_def split: prod.splits Result.splits)

lemma create_backlog_err:
  assumes "create_backlog S n port rx tx hs r = (Err e, r')"
  shows "r' = r"
proof -
  have ok: "\<exists>hs' r'. create_backlog S n port rx tx hs r = (Ok hs', r')"
    if "tcp_listen S port (tcp_new S rx tx) = (Ok u, t)" for u t
    using that by (induction n arbitrary: hs r) (auto simp: create_listening_socket_def split: prod.splits)
  show ?thesis
  proof (cases "fst (tcp_listen S port (tcp_new S rx tx))")
    case (Ok u)
    then show ?thesis using ok [of u "snd (tcp_listen S port (tcp_new S rx tx))"] assms
      by (metis Pair_inject Result.distinct(1) prod.collapse)
  next
    case (Err e')
    then show ?thesis using assms
      by (cases n) (auto simp: create_listening_socket_def split: prod.splits Result.splits)
  qed
qed

lemma create_backlog_ok:
  assumes laws: "socket_set_laws S" and "create_backlog S n port rx tx hs r = (Ok hs', r')"
  shows "\<exists>new. hs' = hs @ new \<and> length new = n \<and> distinct new \<and> (\<forall>h \<in> set new. kinds S (r_sockets r) h = None) \<and>
    kinds S (r_sockets r') = (\<lambda>h. if h \<in> set new then Some True else kinds S (r_sockets r) h) \<and>
    orphaned_closing r' = orphaned_closing r"
  using assms(2)
proof (induction n arbitrary: hs r)
  case (Suc n)
  obtain h r1 where c: "create_listening_socket S port rx tx r = (Ok h, r1)"
    and rec: "create_backlog S n port rx tx (hs @ [h]) r1 = (Ok hs', r')"
    using Suc.prems by (auto split: prod.splits Result.splits)
  have h: "kinds S (r_sockets r) h = None" "kinds S (r_sockets r1) = (kinds S (r_sockets r))(h \<mapsto> True)"
    "orphaned_closing r1 = orphaned_closing r"
    using create_listening_socket_ok [OF laws c] by auto
  obtain new where new: "hs' = (hs @ [h]) @ new" "length new = n" "distinct new"
    "\<forall>x \<in> set new. kinds S (r_sockets r1) x = None"
    "kinds S (r_sockets r') = (\<lambda>x. if x \<in> set new then Some True else kinds S (r_sockets r1) x)"
    "orphaned_closing r' = orphaned_closing r1"
    using Suc.IH [OF rec] by blast
  have "h \<notin> set new" using new(4) h(2) by auto
  then show ?case
    using new h by (intro exI [of _ "h # new"]) (auto simp: fun_eq_iff split: if_splits)
qed auto

lemma find_established_ok:
  assumes "all_tcp S s hs"
  shows "\<exists>o'. find_established S i hs s = Ret o' \<and>
    (case o' of None \<Rightarrow> True | Some j \<Rightarrow> i \<le> j \<and> j < i + length hs)"
  using assms
proof (induction hs arbitrary: i)
  case (Cons h hs)
  then obtain t where t: "set_get S s h = Some (TcpSock t)" by (auto simp: kinds_tcp)
  obtain o' where "find_established S (Suc i) hs s = Ret o'"
    "case o' of None \<Rightarrow> True | Some j \<Rightarrow> Suc i \<le> j \<and> j < Suc i + length hs"
    using Cons.IH [of "Suc i"] Cons.prems by auto
  then show ?case using t by (cases o') (auto simp: get_tcp_def)
qed auto

lemma all_state_ok: "all_tcp S s hs \<Longrightarrow> \<exists>b. all_state S P hs s = Ret b"
  by (induction hs) (auto simp: kinds_tcp get_tcp_def simp del: bind_outcome_Ret_conv)

lemma any_state_ok: "all_tcp S s hs \<Longrightarrow> \<exists>b. any_state S P hs s = Ret b"
  by (induction hs) (auto simp: kinds_tcp get_tcp_def simp del: bind_outcome_Ret_conv)

lemma register_all_ok:
  assumes laws: "socket_set_laws S" and "all_tcp S (r_sockets r) hs"
  shows "\<exists>r'. register_all S cx hs r = Ret r' \<and> in_place S r r'"
  using assms(2)
proof (induction hs arbitrary: r)
  case (Cons h hs)
  obtain a r1 where 1: "with_tcp S h (\<lambda>t. ((), tcp_register_recv_waker S cx t)) r = Ret (a, r1)" "in_place S r r1"
    using with_tcp_ok [OF laws] Cons.prems by fastforce
  then have "all_tcp S (r_sockets r1) hs" using Cons.prems by (simp add: all_tcp_def in_place_def)
  then obtain r' where "register_all S cx hs r1 = Ret r'" "in_place S r1 r'" using Cons.IH by blast
  then show ?case using 1 in_place_trans by auto
qed simp

text \<open>What accepting does: hand a connected socket over and put a fresh one in its place.\<close>

lemma accept_poll_ok:
  assumes laws: "socket_set_laws S" and tcp: "all_tcp S (r_sockets r) (l_handles l)"
  obtains (accepted) idx h where "idx < length (l_handles l)"
      "\<exists>r'. accept_poll S cx l r = Ret (Ready (Ok (l_handles l ! idx)), l\<lparr>l_handles := (l_handles l)[idx := h]\<rparr>, r') \<and>
        kinds S (r_sockets r) h = None \<and> kinds S (r_sockets r') = (kinds S (r_sockets r))(h \<mapsto> True) \<and>
        orphaned_closing r' = orphaned_closing r"
    | (other) p r' where "accept_poll S cx l r = Ret (p, l, r')" "in_place S r r'" "\<And>h. p \<noteq> Ready (Ok h)"
proof -
  obtain o' where fo: "find_established S 0 (l_handles l) (r_sockets r) = Ret o'"
    and oi: "case o' of None \<Rightarrow> True | Some j \<Rightarrow> 0 \<le> j \<and> j < 0 + length (l_handles l)"
    using find_established_ok [OF tcp, of 0] by blast
  show thesis
  proof (cases o')
    case (Some idx)
    obtain res r' where c: "create_listening_socket S (l_port l) (l_rx_buffer_size l) (l_tx_buffer_size l) r = (res, r')"
      by fastforce
    note C = create_listening_socket_ok [OF laws c]
    show thesis
    proof (cases res)
      case (Ok h)
      then show thesis using accepted [of idx h] Some fo oi c C by (auto simp: accept_poll_def)
    next
      case (Err e)
      then show thesis using other [of "Ready (Err e)" r] Some fo c C by (auto simp: accept_poll_def)
    qed
  next
    case None
    obtain b where b: "all_state S (\<lambda>st. st = Closed \<or> st = TimeWait) (l_handles l) (r_sockets r) = Ret b"
      using all_state_ok [OF tcp] by blast
    obtain r' where "register_all S cx (l_handles l) r = Ret r'" "in_place S r r'"
      using register_all_ok [OF laws tcp] by blast
    then show thesis
      using None fo b other [of Pending r'] other [of "Ready (Err ListenUnaddressable)" r]
      by (cases b) (auto simp: accept_poll_def)
  qed
qed

lemma drop_handles_ok:
  assumes laws: "socket_set_laws S" and "distinct hs" and "all_tcp S s hs"
  shows "\<exists>s'. drop_handles S hs s = Ret s' \<and> kinds S s' = (\<lambda>h. if h \<in> set hs then None else kinds S s h)"
  using assms(2,3)
proof (induction hs arbitrary: s)
  case (Cons h hs)
  then obtain t where t: "set_get S s h = Some (TcpSock t)" by (auto simp: kinds_tcp)
  define s1 where "s1 = (if tcp_state_of S t \<noteq> Closed then set_put S h (TcpSock (tcp_abort S t)) s else s)"
  have k1: "kinds S s1 = kinds S s"
    using kinds_put [OF laws, of s h True] Cons.prems(2) by (simp add: s1_def)
  define s2 where "s2 = set_remove S h s1"
  have k2: "kinds S s2 = (kinds S s)(h := None)"
    unfolding s2_def k1 [symmetric] by (rule kinds_remove [OF laws]) (use Cons.prems(2) k1 in simp)
  have "all_tcp S s2 hs" using Cons.prems k2 by (auto simp: all_tcp_def)
  then obtain s' where "drop_handles S hs s2 = Ret s'" "kinds S s' = (\<lambda>h. if h \<in> set hs then None else kinds S s2 h)"
    using Cons.IH Cons.prems(1) by auto
  moreover have "kinds S s1 h \<noteq> None" using Cons.prems(2) k1 by simp
  then have "remove_socket S h s1 = Ret s2" by (simp only: kinds_None remove_socket_Ret s2_def) simp
  then have "drop_handles S (h # hs) s = drop_handles S hs s2"
    using t by (simp add: get_tcp_def Let_def flip: s1_def del: remove_socket_Ret bind_outcome_Ret_conv)
  ultimately show ?case
    using k2 by (intro exI [of _ s']) (auto simp: fun_eq_iff simp del: drop_handles.simps)
qed auto

lemma tcp_stream_drop_ok:
  assumes laws: "socket_set_laws S" and k: "kinds S (r_sockets r) h = Some True"
  shows "\<exists>r'. tcp_stream_drop S h r = Ret r' \<and>
    (kinds S (r_sockets r') = (kinds S (r_sockets r))(h := None) \<and> orphaned_closing r' = orphaned_closing r \<or>
     kinds S (r_sockets r') = kinds S (r_sockets r) \<and> orphaned_closing r' = orphaned_closing r @ [h])"
proof -
  obtain t where t: "set_get S (r_sockets r) h = Some (TcpSock t)" using k by (auto simp: kinds_tcp)
  show ?thesis
    using t k kinds_remove [OF laws, of "r_sockets r" h] kinds_put [OF laws k, of "TcpSock (tcp_abort S t)"]
    by (cases "tcp_state_of S t") (auto simp: tcp_stream_drop_def get_tcp_def remove_socket_def)
qed

lemma udp_socket_drop_ok:
  assumes laws: "socket_set_laws S" and k: "kinds S (r_sockets r) h = Some False"
  shows "\<exists>r'. udp_socket_drop S h r = Ret r' \<and> kinds S (r_sockets r') = (kinds S (r_sockets r))(h := None) \<and>
    orphaned_closing r' = orphaned_closing r"
proof -
  obtain a r1 where 1: "with_udp S h (\<lambda>u. ((), udp_close S u)) r = Ret (a, r1)" "in_place S r r1"
    using with_udp_ok [OF laws k, of "\<lambda>u. ((), udp_close S u)"] by blast
  then have "kinds S (r_sockets r1) h \<noteq> None" using k by (simp add: in_place_def)
  moreover from this have "remove_socket S h (r_sockets r1) = Ret (set_remove S h (r_sockets r1))"
    by (simp only: kinds_None remove_socket_Ret) simp
  then have "udp_socket_drop S h r = Ret (r1\<lparr>r_sockets := set_remove S h (r_sockets r1)\<rparr>)"
    using 1(1) unfolding udp_socket_drop_def by (simp del: remove_socket_Ret bind_outcome_Ret_conv)
  ultimately show ?thesis
    using 1(2) kinds_remove [OF laws, of "r_sockets r1" h] by (simp add: in_place_def)
qed

lemma cleanup_orphaned_ok:
  assumes laws: "socket_set_laws S" and "distinct (orphaned_closing r)"
    and "all_tcp S (r_sockets r) (orphaned_closing r)"
  shows "\<exists>r'. cleanup_orphaned S r = Ret r' \<and>
    orphaned_closing r' = filter (\<lambda>h. \<not> finished S (r_sockets r) h) (orphaned_closing r) \<and>
    set_get S (r_sockets r') =
      (\<lambda>h. if h \<in> set (orphaned_closing r) \<and> finished S (r_sockets r) h then None else set_get S (r_sockets r) h)"
  using retain_closing_spec [OF laws assms(2), of "r_sockets r"] assms(3)
  by (auto simp: cleanup_orphaned_def all_tcp_def kinds_tcp)

subsection \<open>The step relation\<close>

record owners =
  o_streams :: "SocketHandle list"
  o_listeners :: "TcpListener list"
  o_udps :: "SocketHandle list"

definition no_owners :: owners where
  "no_owners = \<lparr>o_streams = [], o_listeners = [], o_udps = []\<rparr>"

definition tcp_handles :: "owners \<Rightarrow> ('s, 'i, 'v) reactor \<Rightarrow> SocketHandle list" where
  "tcp_handles w r = o_streams w @ concat (map l_handles (o_listeners w)) @ orphaned_closing r"

text \<open>
  Each rule is one call of the library by its user, one poll of a future, or one part of the
  reactor's turn; dropping an object takes it from its owners.
\<close>

inductive own_step ::
  "('t, 'u, 's, 'i, 'v) smoltcp \<Rightarrow> owners \<times> ('s, 'i, 'v) reactor \<Rightarrow> owners \<times> ('s, 'i, 'v) reactor \<Rightarrow> bool"
  for S where
  connect_ok: "tcp_stream_connect S ep lp rx tx r = (Ok h, r') \<Longrightarrow>
    own_step S (w, r) (w\<lparr>o_streams := h # o_streams w\<rparr>, r')"
| connect_err: "tcp_stream_connect S ep lp rx tx r = (Err ce, r') \<Longrightarrow> own_step S (w, r) (w, r')"
| bind_ok: "tcp_listener_bind_with_backlog S port rx tx n r = (Ok l, r') \<Longrightarrow>
    own_step S (w, r) (w\<lparr>o_listeners := l # o_listeners w\<rparr>, r')"
| bind_err: "tcp_listener_bind_with_backlog S port rx tx n r = (Err le, r') \<Longrightarrow> own_step S (w, r) (w, r')"
| accept_ok: "o_listeners w = ls1 @ l # ls2 \<Longrightarrow> accept_poll S cx l r = Ret (Ready (Ok h), l', r') \<Longrightarrow>
    own_step S (w, r) (w\<lparr>o_streams := h # o_streams w, o_listeners := ls1 @ l' # ls2\<rparr>, r')"
| accept_wait: "o_listeners w = ls1 @ l # ls2 \<Longrightarrow> accept_poll S cx l r = Ret (p, l', r') \<Longrightarrow>
    \<forall>h. p \<noteq> Ready (Ok h) \<Longrightarrow> own_step S (w, r) (w\<lparr>o_listeners := ls1 @ l' # ls2\<rparr>, r')"
| use_stream: "h \<in> set (o_streams w) \<Longrightarrow> op_ok op \<Longrightarrow> stream_exec S op h r = Ret r' \<Longrightarrow> own_step S (w, r) (w, r')"
| drop_stream: "o_streams w = hs1 @ h # hs2 \<Longrightarrow> tcp_stream_drop S h r = Ret r' \<Longrightarrow>
    own_step S (w, r) (w\<lparr>o_streams := hs1 @ hs2\<rparr>, r')"
| drop_listener: "o_listeners w = ls1 @ l # ls2 \<Longrightarrow> tcp_listener_drop S l r = Ret r' \<Longrightarrow>
    own_step S (w, r) (w\<lparr>o_listeners := ls1 @ ls2\<rparr>, r')"
| udp_ok: "udp_socket_bind S port a b c r = (Ok h, r') \<Longrightarrow> own_step S (w, r) (w\<lparr>o_udps := h # o_udps w\<rparr>, r')"
| udp_err: "udp_socket_bind S port a b c r = (Err be, r') \<Longrightarrow> own_step S (w, r) (w, r')"
| use_udp: "h \<in> set (o_udps w) \<Longrightarrow> udp_exec S uop h r = Ret r' \<Longrightarrow> own_step S (w, r) (w, r')"
| drop_udp: "o_udps w = hs1 @ h # hs2 \<Longrightarrow> udp_socket_drop S h r = Ret r' \<Longrightarrow>
    own_step S (w, r) (w\<lparr>o_udps := hs1 @ hs2\<rparr>, r')"
| ingress: "poll_ingress_single S ts r = (res, r') \<Longrightarrow> own_step S (w, r) (w, r')"
| egress: "own_step S (w, r) (w, poll_egress S ts r)"
| cleanup: "cleanup_orphaned S r = Ret r' \<Longrightarrow> own_step S (w, r) (w, r')"

definition own_inv :: "('t, 'u, 's, 'i, 'v) smoltcp \<Rightarrow> owners \<times> ('s, 'i, 'v) reactor \<Rightarrow> bool" where
  "own_inv S st \<longleftrightarrow> (case st of (w, r) \<Rightarrow>
     distinct (tcp_handles w r @ o_udps w) \<and> kinds S (r_sockets r) = kind_map (tcp_handles w r) (o_udps w))"

lemma own_inv_kinds:
  assumes "own_inv S (w, r)"
  shows "h \<in> set (tcp_handles w r) \<Longrightarrow> kinds S (r_sockets r) h = Some True"
    and "h \<in> set (o_udps w) \<Longrightarrow> kinds S (r_sockets r) h = Some False"
    and "kinds S (r_sockets r) h = None \<Longrightarrow> h \<notin> set (tcp_handles w r) \<and> h \<notin> set (o_udps w)"
  using assms by (auto simp: own_inv_def kind_map_def split: if_splits)

lemma own_inv_in_place:
  assumes "own_inv S (w, r)" and "in_place S r r'"
  shows "own_inv S (w, r')"
  using assms by (simp add: own_inv_def in_place_def tcp_handles_def)

text \<open>New TCP sockets with a new owner; TCP sockets gone with their owner.\<close>

lemma own_inv_add_tcps:
  assumes "own_inv S (w, r)" and "distinct new" and "\<forall>h \<in> set new. kinds S (r_sockets r) h = None"
    and "kinds S (r_sockets r') = (\<lambda>h. if h \<in> set new then Some True else kinds S (r_sockets r) h)"
    and "mset (tcp_handles w' r') = mset new + mset (tcp_handles w r)" and "o_udps w' = o_udps w"
  shows "own_inv S (w', r')"
proof -
  have fresh: "\<forall>h \<in> set new. h \<notin> set (tcp_handles w r) \<and> h \<notin> set (o_udps w)"
    using own_inv_kinds(3) [OF assms(1)] assms(3) by blast
  have st: "set (tcp_handles w' r') = set new \<union> set (tcp_handles w r)"
    using assms(5) by (metis set_mset_mset set_mset_union)
  have d: "distinct (tcp_handles w' r') = distinct (new @ tcp_handles w r)"
    by (rule mset_eq_imp_distinct_iff) (simp add: assms(5))
  have "kinds S (r_sockets r') = kind_map (tcp_handles w' r') (o_udps w')"
    using assms(1,4,6) st by (auto simp: own_inv_def kind_map_def fun_eq_iff)
  moreover have "distinct (tcp_handles w' r' @ o_udps w')"
    using assms(1,2,6) fresh d st by (auto simp: own_inv_def)
  ultimately show ?thesis by (simp add: own_inv_def)
qed

lemma own_inv_add_tcp:
  assumes "own_inv S (w, r)" and "kinds S (r_sockets r) h = None"
    and "kinds S (r_sockets r') = (kinds S (r_sockets r))(h \<mapsto> True)"
    and "mset (tcp_handles w' r') = add_mset h (mset (tcp_handles w r))" and "o_udps w' = o_udps w"
  shows "own_inv S (w', r')"
proof (rule own_inv_add_tcps [OF assms(1), of "[h]"])
  show "kinds S (r_sockets r') = (\<lambda>x. if x \<in> set [h] then Some True else kinds S (r_sockets r) x)"
    by (simp add: assms(3) fun_eq_iff)
qed (simp_all add: assms(2,4,5))

lemma own_inv_drop_tcp:
  assumes "own_inv S (w, r)"
    and "kinds S (r_sockets r') = (\<lambda>h. if h \<in> set hs then None else kinds S (r_sockets r) h)"
    and "mset (tcp_handles w r) = mset hs + mset (tcp_handles w' r')" and "o_udps w' = o_udps w"
  shows "own_inv S (w', r')"
proof -
  have "distinct (tcp_handles w r) = distinct (hs @ tcp_handles w' r')"
    by (rule mset_eq_imp_distinct_iff) (simp add: assms(3))
  moreover have "set (tcp_handles w r) = set hs \<union> set (tcp_handles w' r')"
    using assms(3) by (metis set_mset_mset set_mset_union)
  ultimately show ?thesis
    using assms(1,2,4) by (auto simp: own_inv_def kind_map_def fun_eq_iff)
qed

lemma own_inv_same_tcp:
  assumes "own_inv S (w, r)" and "kinds S (r_sockets r') = kinds S (r_sockets r)"
    and "mset (tcp_handles w' r') = mset (tcp_handles w r)" and "o_udps w' = o_udps w"
  shows "own_inv S (w', r')"
  using own_inv_drop_tcp [of S w r r' "[]" w'] assms by simp

text \<open>The invariant across each operation that changes the owners or the handles.\<close>

lemma own_inv_connect:
  assumes "socket_set_laws S" and inv: "own_inv S (w, r)" and "tcp_stream_connect S ep lp rx tx r = (Ok h, r')"
  shows "own_inv S (w\<lparr>o_streams := h # o_streams w\<rparr>, r')"
proof -
  from assms(3) obtain k s where add: "set_add S (TcpSock k) (r_sockets r) = (h, s)" and r': "r_sockets r' = s"
      "orphaned_closing r' = orphaned_closing r"
    by (auto simp: tcp_stream_connect_def Let_def split: prod.splits Result.splits)
  show ?thesis
    by (rule own_inv_add_tcp [OF inv, of h]) (simp_all add: kinds_add [OF assms(1) add] r' tcp_handles_def)
qed

lemma own_inv_connect_err:
  assumes "own_inv S (w, r)" and "tcp_stream_connect S ep lp rx tx r = (Err ce, r')"
  shows "own_inv S (w, r')"
  using assms(2) by (intro own_inv_in_place [OF assms(1)])
    (auto simp: tcp_stream_connect_def in_place_def Let_def split: prod.splits Result.splits)

lemma own_inv_bind:
  assumes "socket_set_laws S" and inv: "own_inv S (w, r)"
    and "tcp_listener_bind_with_backlog S port rx tx n r = (Ok l, r')"
  shows "own_inv S (w\<lparr>o_listeners := l # o_listeners w\<rparr>, r')"
proof -
  from assms(3) obtain hs
    where c: "create_backlog S (max n 1) port rx tx [] r = (Ok hs, r')" and l: "l_handles l = hs"
    by (auto simp: tcp_listener_bind_with_backlog_def Let_def split: prod.splits Result.splits)
  obtain new where new: "hs = new" "distinct new" "\<forall>h \<in> set new. kinds S (r_sockets r) h = None"
      "kinds S (r_sockets r') = (\<lambda>h. if h \<in> set new then Some True else kinds S (r_sockets r) h)"
      "orphaned_closing r' = orphaned_closing r"
    using create_backlog_ok [OF assms(1) c] by auto
  with l show ?thesis
    by (intro own_inv_add_tcps [OF inv new(2-4)]) (auto simp: tcp_handles_def)
qed

lemma own_inv_bind_err:
  assumes "own_inv S (w, r)" and "tcp_listener_bind_with_backlog S port rx tx n r = (Err le, r')"
  shows "own_inv S (w, r')"
  using assms create_backlog_err [of S "max n 1" port rx tx "[]" r]
  by (auto simp: tcp_listener_bind_with_backlog_def Let_def split: prod.splits Result.splits)

lemma own_inv_listener:
  assumes "own_inv S (w, r)" and "o_listeners w = ls1 @ l # ls2"
  shows "all_tcp S (r_sockets r) (l_handles l)" and "distinct (l_handles l)"
  using own_inv_kinds(1) [OF assms(1)] assms by (auto simp: all_tcp_def tcp_handles_def own_inv_def)

lemma own_inv_accept:
  assumes "socket_set_laws S" and inv: "own_inv S (w, r)" and ls: "o_listeners w = ls1 @ l # ls2"
    and "accept_poll S cx l r = Ret (Ready (Ok h), l', r')"
  shows "own_inv S (w\<lparr>o_streams := h # o_streams w, o_listeners := ls1 @ l' # ls2\<rparr>, r')"
proof -
  obtain idx h' where a: "idx < length (l_handles l)" "h = l_handles l ! idx"
      "l' = l\<lparr>l_handles := (l_handles l)[idx := h']\<rparr>" "kinds S (r_sockets r) h' = None"
      "kinds S (r_sockets r') = (kinds S (r_sockets r))(h' \<mapsto> True)" "orphaned_closing r' = orphaned_closing r"
    by (rule accept_poll_ok [OF assms(1) own_inv_listener(1) [OF inv ls], of cx]) (use assms(4) in auto)
  have "add_mset h (mset ((l_handles l)[idx := h'])) = add_mset h' (mset (l_handles l))"
    using a(1,2) by (simp add: mset_update)
  with a ls show ?thesis
    by (intro own_inv_add_tcp [OF inv a(4,5)]) (simp_all add: tcp_handles_def)
qed

lemma own_inv_accept_wait:
  assumes "socket_set_laws S" and inv: "own_inv S (w, r)" and ls: "o_listeners w = ls1 @ l # ls2"
    and "accept_poll S cx l r = Ret (p, l', r')" and "\<forall>h. p \<noteq> Ready (Ok h)"
  shows "own_inv S (w\<lparr>o_listeners := ls1 @ l' # ls2\<rparr>, r')"
proof -
  have same: "l' = l \<and> in_place S r r'"
    by (rule accept_poll_ok [OF assms(1) own_inv_listener(1) [OF inv ls], of cx]) (use assms(4,5) in auto)
  then have "own_inv S (w, r')" using inv own_inv_in_place by blast
  with same ls show ?thesis by (simp add: own_inv_def tcp_handles_def)
qed

lemma own_inv_drop_stream:
  assumes "socket_set_laws S" and inv: "own_inv S (w, r)" and hs: "o_streams w = hs1 @ h # hs2"
    and "tcp_stream_drop S h r = Ret r'"
  shows "own_inv S (w\<lparr>o_streams := hs1 @ hs2\<rparr>, r')"
proof -
  have "kinds S (r_sockets r) h = Some True"
    using own_inv_kinds(1) [OF inv] hs by (simp add: tcp_handles_def)
  from tcp_stream_drop_ok [OF assms(1) this] assms(4) consider
      "kinds S (r_sockets r') = (kinds S (r_sockets r))(h := None)" "orphaned_closing r' = orphaned_closing r"
    | "kinds S (r_sockets r') = kinds S (r_sockets r)" "orphaned_closing r' = orphaned_closing r @ [h]"
    by auto
  then show ?thesis
  proof cases
    case 1
    then show ?thesis
      using hs by (intro own_inv_drop_tcp [OF inv, of r' "[h]"]) (auto simp: tcp_handles_def fun_eq_iff)
  next
    case 2
    then show ?thesis
      using hs by (intro own_inv_same_tcp [OF inv]) (auto simp: tcp_handles_def)
  qed
qed

lemma own_inv_drop_listener:
  assumes "socket_set_laws S" and inv: "own_inv S (w, r)" and ls: "o_listeners w = ls1 @ l # ls2"
    and "tcp_listener_drop S l r = Ret r'"
  shows "own_inv S (w\<lparr>o_listeners := ls1 @ ls2\<rparr>, r')"
  using drop_handles_ok [OF assms(1) own_inv_listener(2,1) [OF inv ls]] ls assms(4)
  by (intro own_inv_drop_tcp [OF inv, of r' "l_handles l"]) (auto simp: tcp_listener_drop_def tcp_handles_def)

lemma own_inv_udp_bind:
  assumes "socket_set_laws S" and inv: "own_inv S (w, r)" and "udp_socket_bind S port a b c r = (Ok h, r')"
  shows "own_inv S (w\<lparr>o_udps := h # o_udps w\<rparr>, r')"
proof -
  from assms(3) obtain k s
    where "set_add S (UdpSock k) (r_sockets r) = (h, s)" and r': "r' = r\<lparr>r_sockets := s\<rparr>"
    by (auto simp: udp_socket_bind_def Let_def split: prod.splits Result.splits)
  from kinds_add [OF assms(1) this(1)] r'
  have k: "kinds S (r_sockets r) h = None" "kinds S (r_sockets r') = (kinds S (r_sockets r))(h \<mapsto> False)"
    by simp_all
  from own_inv_kinds(3) [OF inv k(1)] k inv r' show ?thesis
    by (auto simp: own_inv_def kind_map_def tcp_handles_def fun_eq_iff)
qed

lemma own_inv_drop_udp:
  assumes "socket_set_laws S" and inv: "own_inv S (w, r)" and hs: "o_udps w = hs1 @ h # hs2"
    and "udp_socket_drop S h r = Ret r'"
  shows "own_inv S (w\<lparr>o_udps := hs1 @ hs2\<rparr>, r')"
proof -
  have "kinds S (r_sockets r) h = Some False"
    using own_inv_kinds(2) [OF inv] hs by simp
  from udp_socket_drop_ok [OF assms(1) this] assms(2-4) show ?thesis
    by (auto simp: own_inv_def kind_map_def tcp_handles_def fun_eq_iff)
qed

lemma own_inv_poll:
  assumes "poll_laws S" and "own_inv S (w, r)"
  shows "poll_ingress_single S ts r = (res, r') \<Longrightarrow> own_inv S (w, r')"
    and "own_inv S (w, poll_egress S ts r)"
  using poll_ingress_single_sockets [OF assms(1), of ts r res r']
    poll_egress_sockets [OF assms(1), where r = r and ts = ts]
  by (auto intro!: own_inv_in_place [OF assms(2)] simp: in_place_def same_sockets_kinds)

lemma own_inv_cleanup:
  assumes "socket_set_laws S" and inv: "own_inv S (w, r)" and "cleanup_orphaned S r = Ret r'"
  shows "own_inv S (w, r')"
proof -
  let ?gone = "filter (finished S (r_sockets r)) (orphaned_closing r)"
  have "distinct (orphaned_closing r)" "all_tcp S (r_sockets r) (orphaned_closing r)"
    using inv own_inv_kinds(1) [OF inv] by (auto simp: own_inv_def tcp_handles_def all_tcp_def)
  from cleanup_orphaned_ok [OF assms(1) this] assms(3)
  have "orphaned_closing r' = filter (\<lambda>h. \<not> finished S (r_sockets r) h) (orphaned_closing r)"
    "set_get S (r_sockets r') = (\<lambda>h. if h \<in> set (orphaned_closing r) \<and> finished S (r_sockets r) h
       then None else set_get S (r_sockets r) h)"
    by auto
  then show ?thesis
    by (intro own_inv_drop_tcp [OF inv, of r' ?gone]) (auto simp: tcp_handles_def kinds_def fun_eq_iff)
qed

lemma own_step_inv:
  assumes laws: "socket_set_laws S" "poll_laws S"
  shows "own_step S st st' \<Longrightarrow> own_inv S st \<Longrightarrow> own_inv S st'"
proof (induction rule: own_step.induct)
  case (use_stream h w op r r')
  then show ?case
    using stream_exec_ok [OF laws(1) own_inv_kinds(1) [OF use_stream.prems], of h op]
    by (auto simp: tcp_handles_def intro: own_inv_in_place)
next
  case (use_udp h w uop r r')
  then show ?case
    using udp_exec_ok [OF laws(1) own_inv_kinds(2) [OF use_udp.prems], of h uop] by (auto intro: own_inv_in_place)
next
  case (udp_err port a b c r be r' w)
  then show ?case by (auto simp: udp_socket_bind_def Let_def split: prod.splits Result.splits)
qed (blast intro: own_inv_connect [OF laws(1)] own_inv_connect_err own_inv_bind [OF laws(1)] own_inv_bind_err
    own_inv_accept [OF laws(1)] own_inv_accept_wait [OF laws(1)] own_inv_drop_stream [OF laws(1)]
    own_inv_drop_listener [OF laws(1)] own_inv_udp_bind [OF laws(1)] own_inv_drop_udp [OF laws(1)]
    own_inv_poll [OF laws(2)] own_inv_cleanup [OF laws(1)])+

lemma own_reachable_inv:
  assumes "socket_set_laws S" and "poll_laws S" and "(own_step S)\<^sup>*\<^sup>* (no_owners, reactor_new S v i) (w, r)"
  shows "own_inv S (w, r)"
proof -
  have "own_inv S (no_owners, reactor_new S v i)"
    using assms(1) by (auto simp: own_inv_def no_owners_def reactor_new_def tcp_handles_def kinds_def kind_map_def
        socket_set_laws_def fun_eq_iff)
  with assms(3) show ?thesis
    by (induction rule: rtranclp_induct) (auto intro: own_step_inv [OF assms(1,2)])
qed

lemma listener_states_ok: "all_tcp S s hs \<Longrightarrow> \<exists>sts. listener_states S hs s = Ret sts \<and> length sts = length hs"
proof (induction hs)
  case (Cons h hs)
  then obtain t sts where "set_get S s h = Some (TcpSock t)" "listener_states S hs s = Ret sts" "length sts = length hs"
    by (auto simp: kinds_tcp)
  then show ?case by (simp add: get_tcp_def del: bind_outcome_Ret_conv)
qed simp

text \<open>A stream on the instance of the stack, reached by one connect.\<close>

definition sim_reactor :: "(sim_set, unit, unit) reactor" where
  "sim_reactor = reactor_new sim_stack () ()"

definition sim_connected :: "owners \<times> (sim_set, unit, unit) reactor" where
  "sim_connected = (no_owners\<lparr>o_streams := [1]\<rparr>,
     sim_reactor\<lparr>r_sockets := [(1, TcpSock \<lparr>st_state = SynSent, st_accepted = [], st_room = 4, st_wakers = [], st_rx = [], st_delivered = []\<rparr>)]\<rparr>)"

lemma sim_connected_reachable: "(own_step sim_stack)\<^sup>*\<^sup>* (no_owners, reactor_new sim_stack () ()) sim_connected"
proof -
  have "tcp_stream_connect sim_stack (Ipv4 10 0 0 1, 80) 5000 4 4 sim_reactor = (Ok 1, snd sim_connected)"
    by (simp add: tcp_stream_connect_def sim_stack_def sim_reactor_def reactor_new_def sim_connected_def sim_fresh_def)
  from own_step.connect_ok [OF this, of no_owners] show ?thesis
    by (intro r_into_rtranclp) (simp add: sim_connected_def no_owners_def sim_reactor_def)
qed

subsection \<open>Properties\<close>

text \<open>
  (C1) In every state a program can reach by creating, using and dropping streams, listeners and
  UDP sockets and by running the reactor, the sockets in the set are exactly those with an owner,
  and each has one owner: no socket leaks, none is shared, and no handle dangles.
\<close>

theorem sockets_owned_exactly_once:
  assumes "socket_set_laws S" and "poll_laws S" and "(own_step S)\<^sup>*\<^sup>* (no_owners, reactor_new S v i) (w, r)"
  shows "distinct (o_streams w @ concat (map l_handles (o_listeners w)) @ orphaned_closing r @ o_udps w) \<and>
    (\<forall>h. set_get S (r_sockets r) h \<noteq> None \<longleftrightarrow>
       h \<in> set (o_streams w @ concat (map l_handles (o_listeners w)) @ orphaned_closing r @ o_udps w))"
proof -
  have inv: "own_inv S (w, r)" by (rule own_reachable_inv [OF assms])
  have "set_get S (r_sockets r) h \<noteq> None \<longleftrightarrow> h \<in> set (tcp_handles w r @ o_udps w)" for h
    using inv kinds_None [of S "r_sockets r" h] by (auto simp: own_inv_def kind_map_def split: if_splits)
  with inv show ?thesis by (simp add: own_inv_def tcp_handles_def)
qed

theorem sockets_owned_exactly_once_witness:
  "set_get sim_stack (r_sockets (snd sim_connected)) 1 \<noteq> None \<longleftrightarrow> 1 \<in> set (o_streams (fst sim_connected))"
proof -
  have "(own_step sim_stack)\<^sup>*\<^sup>* (no_owners, reactor_new sim_stack () ()) (fst sim_connected, snd sim_connected)"
    using sim_connected_reachable by simp
  from sockets_owned_exactly_once [OF sim_socket_set_laws sim_poll_laws this] show ?thesis
    by (simp add: sim_connected_def no_owners_def sim_reactor_def reactor_new_def)
qed

text \<open>
  (C37) In every reachable state no operation of a live object panics on its handle: not the
  futures and methods of a stream, nor its drop, nor those of a listener or a UDP socket, nor the
  reactor's removal of orphans.
\<close>

theorem live_objects_never_panic:
  assumes "socket_set_laws S" and "poll_laws S" and "(own_step S)\<^sup>*\<^sup>* (no_owners, reactor_new S v i) (w, r)"
  shows "(\<forall>h \<in> set (o_streams w). (\<forall>op. op_ok op \<longrightarrow> \<not> panics (stream_exec S op h r)) \<and> \<not> panics (tcp_stream_drop S h r)) \<and>
    (\<forall>l \<in> set (o_listeners w). \<not> panics (accept_poll S cx l r) \<and> \<not> panics (tcp_listener_is_pending S l r) \<and>
       \<not> panics (tcp_listener_states S l r) \<and> \<not> panics (tcp_listener_drop S l r)) \<and>
    (\<forall>h \<in> set (o_udps w). (\<forall>op. \<not> panics (udp_exec S op h r)) \<and> \<not> panics (udp_socket_drop S h r)) \<and>
    \<not> panics (cleanup_orphaned S r)"
proof -
  have inv: "own_inv S (w, r)" by (rule own_reachable_inv [OF assms])
  note K = own_inv_kinds [OF inv]
  have st: "kinds S (r_sockets r) h = Some True" if "h \<in> set (o_streams w)" for h
    using that K(1) by (simp add: tcp_handles_def)
  have ls: "all_tcp S (r_sockets r) (l_handles l)" "distinct (l_handles l)" if "l \<in> set (o_listeners w)" for l
  proof -
    show "all_tcp S (r_sockets r) (l_handles l)" using that K(1) by (auto simp: all_tcp_def tcp_handles_def)
    show "distinct (l_handles l)" using that inv by (auto simp: own_inv_def tcp_handles_def distinct_concat_iff)
  qed
  have orph: "distinct (orphaned_closing r)" "all_tcp S (r_sockets r) (orphaned_closing r)"
    using K(1) inv by (auto simp: all_tcp_def tcp_handles_def own_inv_def)
  have acc: "\<not> panics (accept_poll S cx l r)" if "l \<in> set (o_listeners w)" for l
    by (rule accept_poll_ok [OF assms(1) ls(1) [OF that], of cx]) auto
  have drp: "\<not> panics (tcp_listener_drop S l r)" if "l \<in> set (o_listeners w)" for l
    using drop_handles_ok [OF assms(1) ls(2,1) [OF that]] by (auto simp: tcp_listener_drop_def)
  have streams: "\<not> panics (stream_exec S op h r)" "\<not> panics (tcp_stream_drop S h r)"
    if "h \<in> set (o_streams w)" "op_ok op" for h op
    using stream_exec_ok [OF assms(1) st [OF that(1)] that(2)] tcp_stream_drop_ok [OF assms(1) st [OF that(1)]]
    unfolding not_panics_conv by blast+
  have queries: "\<not> panics (tcp_listener_is_pending S l r)" "\<not> panics (tcp_listener_states S l r)"
    if "l \<in> set (o_listeners w)" for l
    using any_state_ok [OF ls(1) [OF that]] listener_states_ok [OF ls(1) [OF that]]
    unfolding not_panics_conv tcp_listener_is_pending_def tcp_listener_states_def by blast+
  have udps: "\<not> panics (udp_exec S uop h r)" "\<not> panics (udp_socket_drop S h r)" if "h \<in> set (o_udps w)" for h uop
    using udp_exec_ok [OF assms(1) K(2) [OF that]] udp_socket_drop_ok [OF assms(1) K(2) [OF that]]
    unfolding not_panics_conv by blast+
  have cln: "\<not> panics (cleanup_orphaned S r)"
    using cleanup_orphaned_ok [OF assms(1) orph] unfolding not_panics_conv by blast
  have sdrop: "\<not> panics (tcp_stream_drop S h r)" if "h \<in> set (o_streams w)" for h
    by (rule streams(2) [OF that, of OpAbort]) simp
  show ?thesis
    by (intro conjI ballI allI impI; (rule cln | rule streams(1) sdrop acc drp queries udps; assumption))
qed

theorem live_objects_never_panic_witness:
  "\<not> panics (stream_exec sim_stack (OpSend 7 [1, 2] 0) 1 (snd sim_connected))"
proof -
  have "(own_step sim_stack)\<^sup>*\<^sup>* (no_owners, reactor_new sim_stack () ()) (fst sim_connected, snd sim_connected)"
    using sim_connected_reachable by simp
  from live_objects_never_panic [OF sim_socket_set_laws sim_poll_laws this, THEN conjunct1, THEN bspec [of _ _ 1],
      THEN conjunct1, THEN spec [of _ "OpSend 7 [1, 2] 0"]]
  show ?thesis by (simp add: sim_connected_def no_owners_def del: not_panics_conv stream_exec.simps)
qed

end
