(* ===== verification/Futures.thy ===== *)
theory Futures
  imports Socket_Ownership
begin

section \<open>Futures\<close>

text \<open>
  The contract of a future, as Rust's \<open>Future::poll\<close> states it: a poll that returns \<open>Pending\<close>
  has arranged for the task's waker to be woken. It is stated as a locale, the \<open>await\<close> of a
  future is proved correct for it once, and every future of the sockets and of the tokio adapter
  is an interpretation. The invariants of the sending future follow in the same way.
\<close>

subsection \<open>The contract\<close>

text \<open>
  \<open>await\<close> polls, and polls again after each of the things that happen meanwhile; it gives the
  result of the last poll.
\<close>

fun await :: "('x \<Rightarrow> ('o poll \<times> 'x) outcome) \<Rightarrow> ('x \<Rightarrow> 'x) list \<Rightarrow> 'x \<Rightarrow> ('o poll \<times> 'x) outcome" where
  "await poll [] x = poll x"
| "await poll (env # envs) x =
     bind_outcome (poll x) (\<lambda>(p, x). case p of Ready v \<Rightarrow> Ret (Ready v, x) | Pending \<Rightarrow> await poll envs (env x))"

locale future =
  fixes poll :: "'x \<Rightarrow> ('o poll \<times> 'x) outcome"
    and live :: "'x \<Rightarrow> bool"
    and registered :: "'x \<Rightarrow> bool"
  assumes poll_live: "live x \<Longrightarrow> \<exists>p x'. poll x = Ret (p, x') \<and> live x'"
    and pending_registered: "live x \<Longrightarrow> poll x = Ret (Pending, x') \<Longrightarrow> registered x'"
begin

lemma await_live:
  assumes "live x" and "\<forall>env \<in> set envs. \<forall>y. live y \<longrightarrow> live (env y)"
  shows "\<exists>p x'. await poll envs x = Ret (p, x') \<and> live x' \<and> (p = Pending \<longrightarrow> registered x')"
  using assms
proof (induction envs arbitrary: x)
  case Nil
  then show ?case using poll_live [of x] pending_registered [of x] by auto
next
  case (Cons env envs)
  obtain p x1 where p: "poll x = Ret (p, x1)" "live x1" using poll_live [OF Cons.prems(1)] by blast
  then show ?case using Cons.IH [of "env x1"] Cons.prems(2) by (cases p) auto
qed

end

text \<open>A future with an invariant of its polls, and what its result means.\<close>

locale future_result = future poll live registered
  for poll :: "'x \<Rightarrow> ('o poll \<times> 'x) outcome" and live registered +
  fixes inv :: "'x \<Rightarrow> bool" and result :: "'o \<Rightarrow> 'x \<Rightarrow> bool"
  assumes pending_inv: "live x \<Longrightarrow> inv x \<Longrightarrow> poll x = Ret (Pending, x') \<Longrightarrow> inv x'"
    and ready_result: "live x \<Longrightarrow> inv x \<Longrightarrow> poll x = Ret (Ready v, x') \<Longrightarrow> result v x'"
begin

lemma await_result:
  assumes "live x" and "inv x" and "\<forall>env \<in> set envs. \<forall>y. live y \<and> inv y \<longrightarrow> live (env y) \<and> inv (env y)"
  shows "\<exists>p x'. await poll envs x = Ret (p, x') \<and> live x' \<and>
    (case p of Ready v \<Rightarrow> result v x' | Pending \<Rightarrow> inv x' \<and> registered x')"
  using assms
proof (induction envs arbitrary: x)
  case Nil
  then show ?case
    using poll_live [of x] pending_registered [of x] pending_inv [of x] ready_result [of x]
    by (fastforce split: poll.splits)
next
  case (Cons env envs)
  obtain p x1 where p: "poll x = Ret (p, x1)" "live x1" using poll_live [OF Cons.prems(1)] by blast
  show ?case
  proof (cases p)
    case (Ready v)
    then show ?thesis using p ready_result [OF Cons.prems(1,2)] by auto
  next
    case Pending
    then show ?thesis using p pending_inv [OF Cons.prems(1,2)] Cons.IH [of "env x1"] Cons.prems(3) by auto
  qed
qed

end

subsection \<open>A socket in the reactor\<close>

definition tcp_at :: "('t, 'u, 's, 'i, 'v) smoltcp \<Rightarrow> SocketHandle \<Rightarrow> ('s, 'i, 'v) reactor \<Rightarrow> 't option" where
  "tcp_at S h r = (case set_get S (r_sockets r) h of Some (TcpSock t) \<Rightarrow> Some t | _ \<Rightarrow> None)"

definition udp_at :: "('t, 'u, 's, 'i, 'v) smoltcp \<Rightarrow> SocketHandle \<Rightarrow> ('s, 'i, 'v) reactor \<Rightarrow> 'u option" where
  "udp_at S h r = (case set_get S (r_sockets r) h of Some (UdpSock u) \<Rightarrow> Some u | _ \<Rightarrow> None)"

abbreviation put_tcp :: "('t, 'u, 's, 'i, 'v) smoltcp \<Rightarrow> SocketHandle \<Rightarrow> 't \<Rightarrow> ('s, 'i, 'v) reactor \<Rightarrow> ('s, 'i, 'v) reactor" where
  "put_tcp S h t r \<equiv> r\<lparr>r_sockets := set_put S h (TcpSock t) (r_sockets r)\<rparr>"

abbreviation put_udp :: "('t, 'u, 's, 'i, 'v) smoltcp \<Rightarrow> SocketHandle \<Rightarrow> 'u \<Rightarrow> ('s, 'i, 'v) reactor \<Rightarrow> ('s, 'i, 'v) reactor" where
  "put_udp S h u r \<equiv> r\<lparr>r_sockets := set_put S h (UdpSock u) (r_sockets r)\<rparr>"

lemma tcp_at_Some: "tcp_at S h r = Some t \<longleftrightarrow> set_get S (r_sockets r) h = Some (TcpSock t)"
  by (auto simp: tcp_at_def split: option.splits socket.splits)

lemma udp_at_Some: "udp_at S h r = Some u \<longleftrightarrow> set_get S (r_sockets r) h = Some (UdpSock u)"
  by (auto simp: udp_at_def split: option.splits socket.splits)

lemma get_tcp_at: "tcp_at S h r = Some t \<Longrightarrow> get_tcp S h (r_sockets r) = Ret t"
  by (simp add: tcp_at_Some)

lemma tcp_at_put:
  assumes "socket_set_laws S" and "tcp_at S h r = Some t0"
  shows "tcp_at S h (put_tcp S h t r) = Some t"
  using set_putD [OF assms(1), of "r_sockets r" h] assms(2) by (simp add: tcp_at_Some)

lemma udp_at_put:
  assumes "socket_set_laws S" and "udp_at S h r = Some u0"
  shows "udp_at S h (put_udp S h u r) = Some u"
  using set_putD [OF assms(1), of "r_sockets r" h] assms(2) by (simp add: udp_at_Some)

lemma with_tcp_at: "tcp_at S h r = Some t \<Longrightarrow> with_tcp S h f r = Ret (fst (f t), put_tcp S h (snd (f t)) r)"
  by (simp add: with_tcp_def get_tcp_at case_prod_beta Let_def)

lemma with_udp_at: "udp_at S h r = Some u \<Longrightarrow> with_udp S h f r = Ret (fst (f u), put_udp S h (snd (f u)) r)"
  by (simp add: with_udp_def get_udp_def udp_at_Some case_prod_beta Let_def)

text \<open>What a task that waits for a socket relies on.\<close>

definition tcp_live ::
  "('t, 'u, 's, 'i, 'v) smoltcp \<Rightarrow> ('t, 'u) waker_view \<Rightarrow> SocketHandle \<Rightarrow> ('s, 'i, 'v) reactor \<Rightarrow> bool" where
  "tcp_live S W h r \<longleftrightarrow> socket_set_laws S \<and> waker_laws S W \<and> tcp_at S h r \<noteq> None"

definition udp_live ::
  "('t, 'u, 's, 'i, 'v) smoltcp \<Rightarrow> ('t, 'u) waker_view \<Rightarrow> SocketHandle \<Rightarrow> ('s, 'i, 'v) reactor \<Rightarrow> bool" where
  "udp_live S W h r \<longleftrightarrow> socket_set_laws S \<and> waker_laws S W \<and> udp_at S h r \<noteq> None"

definition tcp_wakes ::
  "('t, 'u, 's, 'i, 'v) smoltcp \<Rightarrow> ('t \<Rightarrow> waker option) \<Rightarrow> waker \<Rightarrow> SocketHandle \<Rightarrow> ('s, 'i, 'v) reactor \<Rightarrow> bool" where
  "tcp_wakes S waker_of cx h r \<longleftrightarrow> (\<exists>t. tcp_at S h r = Some t \<and> waker_of t = Some cx)"

definition udp_wakes ::
  "('t, 'u, 's, 'i, 'v) smoltcp \<Rightarrow> ('u \<Rightarrow> waker option) \<Rightarrow> waker \<Rightarrow> SocketHandle \<Rightarrow> ('s, 'i, 'v) reactor \<Rightarrow> bool" where
  "udp_wakes S waker_of cx h r \<longleftrightarrow> (\<exists>u. udp_at S h r = Some u \<and> waker_of u = Some cx)"

text \<open>
  A future made of one change of its socket keeps the contract when the change registers the
  waker wherever it gives \<open>Pending\<close>.
\<close>

lemma future_with_tcp:
  assumes "\<And>t t'. waker_laws S W \<Longrightarrow> f t = (Pending, t') \<Longrightarrow> waker_of t' = Some cx"
  shows "future (with_tcp S h f) (tcp_live S W h) (tcp_wakes S waker_of cx h)"
proof unfold_locales
  fix x
  assume l: "tcp_live S W h x"
  then obtain t where t: "tcp_at S h x = Some t" by (auto simp: tcp_live_def)
  have at: "tcp_at S h (put_tcp S h (snd (f t)) x) = Some (snd (f t))"
    using l t tcp_at_put by (auto simp: tcp_live_def)
  show "\<exists>p x'. with_tcp S h f x = Ret (p, x') \<and> tcp_live S W h x'"
    using l at with_tcp_at [OF t, of f] by (auto simp: tcp_live_def)
  show "tcp_wakes S waker_of cx h x'" if "with_tcp S h f x = Ret (Pending, x')" for x'
    using that l at with_tcp_at [OF t, of f] assms [of t "snd (f t)"]
    by (auto simp: tcp_wakes_def tcp_live_def prod_eq_iff)
qed

lemma future_with_udp:
  assumes "\<And>u u'. waker_laws S W \<Longrightarrow> f u = (Pending, u') \<Longrightarrow> waker_of u' = Some cx"
  shows "future (with_udp S h f) (udp_live S W h) (udp_wakes S waker_of cx h)"
proof unfold_locales
  fix x
  assume l: "udp_live S W h x"
  then obtain u where u: "udp_at S h x = Some u" by (auto simp: udp_live_def)
  have at: "udp_at S h (put_udp S h (snd (f u)) x) = Some (snd (f u))"
    using l u udp_at_put by (auto simp: udp_live_def)
  show "\<exists>p x'. with_udp S h f x = Ret (p, x') \<and> udp_live S W h x'"
    using l at with_udp_at [OF u, of f] by (auto simp: udp_live_def)
  show "udp_wakes S waker_of cx h x'" if "with_udp S h f x = Ret (Pending, x')" for x'
    using that l at with_udp_at [OF u, of f] assms [of u "snd (f u)"]
    by (auto simp: udp_wakes_def udp_live_def prod_eq_iff)
qed

subsection \<open>The futures of the sockets\<close>

interpretation recv_future: future "tcp_recv_poll S cx h n" "tcp_live S W h" "tcp_wakes S (tcp_rx W) cx h" for S cx h n W
  unfolding tcp_recv_poll_def
  by (rule future_with_tcp) (auto simp: waker_laws_def split: prod.splits Result.splits TcpRecvError.splits if_splits)

interpretation wait_connected_future: future "wait_connected_poll S cx h" "tcp_live S W h" "tcp_wakes S (tcp_tx W) cx h" for S cx h W
  unfolding wait_connected_poll_def
  by (rule future_with_tcp) (auto simp: waker_laws_def split: tcp_state.splits)

interpretation close_future: future "close_poll S cx h" "tcp_live S W h" "tcp_wakes S (tcp_tx W) cx h" for S cx h W
  unfolding close_poll_def
  by (rule future_with_tcp) (auto simp: waker_laws_def split: if_splits)

interpretation write_future: future "tokio_poll_write S cx h buf" "tcp_live S W h" "tcp_wakes S (tcp_tx W) cx h" for S cx h buf W
  unfolding tokio_poll_write_def
  by (rule future_with_tcp) (auto simp: waker_laws_def split: prod.splits Result.splits TcpSendError.splits if_splits)

interpretation udp_send_future: future "udp_send_poll S cx h bs ep" "udp_live S W h" "udp_wakes S (udp_tx W) cx h" for S cx h bs ep W
  unfolding udp_send_poll_def
  by (rule future_with_udp) (auto simp: waker_laws_def split: prod.splits Result.splits UdpSendError.splits)

interpretation udp_recv_future: future "udp_recv_poll S cx h n" "udp_live S W h" "udp_wakes S (udp_rx W) cx h" for S cx h n W
  unfolding udp_recv_poll_def
  by (rule future_with_udp) (auto simp: waker_laws_def split: prod.splits Result.splits UdpRecvError.splits)

lemma tcp_liveE:
  assumes "tcp_live S W h r"
  obtains t where "tcp_at S h r = Some t" "\<And>t'. tcp_at S h (put_tcp S h t' r) = Some t'"
    "\<And>t'. tcp_live S W h (put_tcp S h t' r)"
    "\<And>k t'. tcp_tx W (tcp_register_send_waker S k t') = Some k"
    "\<And>k t'. tcp_rx W (tcp_register_recv_waker S k t') = Some k"
proof -
  obtain t where t: "tcp_at S h r = Some t" using assms by (auto simp: tcp_live_def)
  moreover have "tcp_at S h (put_tcp S h t' r) = Some t'" for t'
    using assms t tcp_at_put by (auto simp: tcp_live_def)
  moreover from this have "tcp_live S W h (put_tcp S h t' r)" for t'
    using assms by (simp add: tcp_live_def)
  ultimately show thesis using assms that by (auto simp: tcp_live_def waker_laws_def)
qed

interpretation flush_future: future "tokio_poll_flush S cx h" "tcp_live S W h" "tcp_wakes S (tcp_tx W) cx h" for S cx h W
proof unfold_locales
  fix x
  assume "tcp_live S W h x"
  then obtain t where t: "tcp_at S h x = Some t" "\<And>t'. tcp_at S h (put_tcp S h t' x) = Some t'"
    "\<And>t'. tcp_live S W h (put_tcp S h t' x)" "\<And>k t'. tcp_tx W (tcp_register_send_waker S k t') = Some k"
    using tcp_liveE by metis
  show "\<exists>p x'. tokio_poll_flush S cx h x = Ret (p, x') \<and> tcp_live S W h x'"
    using t \<open>tcp_live S W h x\<close> by (simp add: tokio_poll_flush_def get_tcp_at with_tcp_at del: bind_outcome_Ret_conv)
  show "tcp_wakes S (tcp_tx W) cx h x'" if "tokio_poll_flush S cx h x = Ret (Pending, x')" for x'
    using that t by (auto simp: tokio_poll_flush_def get_tcp_at with_tcp_at tcp_wakes_def split: if_splits
        simp del: bind_outcome_Ret_conv)
qed

definition shutdown_wait ::
  "('t, 'u, 's, 'i, 'v) smoltcp \<Rightarrow> waker \<Rightarrow> 't \<Rightarrow> (unit, io_error) Result poll \<times> 't" where
  "shutdown_wait S cx t =
     (if tcp_state_of S t = Closed \<or> tcp_state_of S t = TimeWait then (Ready (Ok ()), t)
      else (Pending, tcp_register_send_waker S cx t))"

lemma tokio_poll_shutdown_at:
  assumes "tcp_at S h r = Some t" and "tcp_at S h (put_tcp S h (tcp_close S t) r) = Some (tcp_close S t)"
  shows "tokio_poll_shutdown S cx h r =
    (if tcp_state_of S t = Closed \<or> tcp_state_of S t = TimeWait then Ret (Ready (Ok ()), r)
     else with_tcp S h (shutdown_wait S cx)
       (if tcp_state_of S t \<in> {FinWait1, FinWait2, Closing, LastAck} then r else put_tcp S h (tcp_close S t) r))"
  using assms
  by (simp add: tokio_poll_shutdown_def get_tcp_at with_tcp_at shutdown_wait_def [abs_def] del: bind_outcome_Ret_conv)

lemma shutdown_wait_future: "future (with_tcp S h (shutdown_wait S cx)) (tcp_live S W h) (tcp_wakes S (tcp_tx W) cx h)"
  by (rule future_with_tcp) (auto simp: shutdown_wait_def waker_laws_def split: if_splits)

interpretation shutdown_future: future "tokio_poll_shutdown S cx h" "tcp_live S W h" "tcp_wakes S (tcp_tx W) cx h" for S cx h W
proof unfold_locales
  fix x
  assume l: "tcp_live S W h x"
  then obtain t where t: "tcp_at S h x = Some t" "\<And>t'. tcp_at S h (put_tcp S h t' x) = Some t'"
    "\<And>t'. tcp_live S W h (put_tcp S h t' x)"
    using tcp_liveE by metis
  note eq = tokio_poll_shutdown_at [OF t(1) t(2)]
  show "\<exists>p x'. tokio_poll_shutdown S cx h x = Ret (p, x') \<and> tcp_live S W h x'"
    unfolding eq using l future.poll_live [OF shutdown_wait_future l] future.poll_live [OF shutdown_wait_future t(3)]
    by simp
  show "tcp_wakes S (tcp_tx W) cx h x'" if "tokio_poll_shutdown S cx h x = Ret (Pending, x')" for x'
    using that l future.pending_registered [OF shutdown_wait_future l, of cx]
      future.pending_registered [OF shutdown_wait_future t(3), of cx]
    unfolding eq by (simp split: if_splits)
qed

text \<open>
  The futures with a state of their own: sending keeps an offset, reading a buffer, and accepting
  the listener.
\<close>

lemma tcp_send_poll_at:
  assumes "tcp_at S h r = Some t" and "off \<le> length bs"
  shows "tcp_send_poll S cx h bs off r =
    (case tcp_send_slice S (drop off bs) t of
       (Ok sent, t) \<Rightarrow>
         if sent = 0 then Ret (Pending, off, put_tcp S h (tcp_register_send_waker S cx t) r)
         else if length bs \<le> off + sent then Ret (Ready (Ok (length bs)), off + sent, put_tcp S h t r)
         else Ret (Pending, off + sent, put_tcp S h (tcp_register_send_waker S cx t) r)
     | (Err e, t) \<Rightarrow> Ret (Ready (Err e), off, put_tcp S h t r))"
  using assms by (simp add: tcp_send_poll_def get_tcp_at Let_def split: prod.splits Result.splits del: bind_outcome_Ret_conv)

definition send_live ::
  "('t, 'u, 's, 'i, 'v) smoltcp \<Rightarrow> ('t, 'u) waker_view \<Rightarrow> ('t \<Rightarrow> bytes) \<Rightarrow> SocketHandle \<Rightarrow> bytes \<Rightarrow> usize \<times> ('s, 'i, 'v) reactor \<Rightarrow> bool" where
  "send_live S W accepted h bs x \<longleftrightarrow> stream_laws S accepted \<and> tcp_live S W h (snd x) \<and> fst x \<le> length bs"

definition accepted_is ::
  "('t, 'u, 's, 'i, 'v) smoltcp \<Rightarrow> ('t \<Rightarrow> bytes) \<Rightarrow> SocketHandle \<Rightarrow> ('s, 'i, 'v) reactor \<Rightarrow> bytes \<Rightarrow> bool" where
  "accepted_is S accepted h r bs \<longleftrightarrow> (\<exists>t. tcp_at S h r = Some t \<and> accepted t = bs)"

definition send_inv ::
  "('t, 'u, 's, 'i, 'v) smoltcp \<Rightarrow> ('t \<Rightarrow> bytes) \<Rightarrow> SocketHandle \<Rightarrow> bytes \<Rightarrow> bytes \<Rightarrow> usize \<times> ('s, 'i, 'v) reactor \<Rightarrow> bool" where
  "send_inv S accepted h before bs x \<longleftrightarrow> accepted_is S accepted h (snd x) (before @ take (fst x) bs)"

definition send_result ::
  "('t, 'u, 's, 'i, 'v) smoltcp \<Rightarrow> ('t \<Rightarrow> bytes) \<Rightarrow> SocketHandle \<Rightarrow> bytes \<Rightarrow> bytes \<Rightarrow> (usize, TcpSendError) Result
     \<Rightarrow> usize \<times> ('s, 'i, 'v) reactor \<Rightarrow> bool" where
  "send_result S accepted h before bs v x \<longleftrightarrow>
     (case v of
        Ok n \<Rightarrow> n = length bs \<and> accepted_is S accepted h (snd x) (before @ bs)
      | Err e \<Rightarrow> send_inv S accepted h before bs x)"

text \<open>One poll: what it accepts is the next part of the data.\<close>

lemma tcp_send_poll_step:
  assumes "send_live S W accepted h bs (off, r)"
  obtains p off' r' where "tcp_send_poll S cx h bs off r = Ret (p, off', r')" "send_live S W accepted h bs (off', r')"
    "\<And>before. send_inv S accepted h before bs (off, r) \<Longrightarrow>
       send_inv S accepted h before bs (off', r') \<and> (\<forall>v. p = Ready v \<longrightarrow> send_result S accepted h before bs v (off', r'))"
    "p = Pending \<Longrightarrow> tcp_wakes S (tcp_tx W) cx h r'"
proof -
  have L: "stream_laws S accepted" "tcp_live S W h r" "off \<le> length bs" using assms by (auto simp: send_live_def)
  obtain t where t: "tcp_at S h r = Some t" "\<And>t'. tcp_at S h (put_tcp S h t' r) = Some t'"
    "\<And>t'. tcp_live S W h (put_tcp S h t' r)" "\<And>k t'. tcp_tx W (tcp_register_send_waker S k t') = Some k"
    using tcp_liveE [OF L(2)] by metis
  note A = stream_lawsD [OF L(1)]
  obtain res t' where res: "tcp_send_slice S (drop off bs) t = (res, t')" by fastforce
  show thesis
  proof (cases res)
    case (Ok n)
    have n: "n \<le> length bs - off" "accepted t' = accepted t @ take n (drop off bs)"
      using A(1) [of "drop off bs" t n t'] res Ok by auto
    have tk: "take off bs @ take n (drop off bs) = take (off + n) bs" by (simp add: take_add)
    have acc: "accepted t' = before @ take (off + n) bs" if "accepted t = before @ take off bs" for before
      using that n(2) tk by simp
    define t2 where "t2 = (if n \<noteq> 0 \<and> length bs \<le> off + n then t' else tcp_register_send_waker S cx t')"
    have P: "tcp_send_poll S cx h bs off r =
        Ret (if n \<noteq> 0 \<and> length bs \<le> off + n then Ready (Ok (length bs)) else Pending, off + n, put_tcp S h t2 r)"
      using tcp_send_poll_at [OF t(1) L(3), of cx] res Ok by (simp add: t2_def)
    have t2: "accepted t2 = accepted t'" using A(3) by (simp add: t2_def)
    show thesis
    proof (rule that [OF P])
      show "send_live S W accepted h bs (off + n, put_tcp S h t2 r)"
        using n(1) t(3) L by (simp add: send_live_def)
    qed (use n(1) t acc t2 in \<open>auto simp: send_inv_def send_result_def accepted_is_def tcp_wakes_def t2_def split: if_splits\<close>)
  next
    case (Err e)
    then have P: "tcp_send_poll S cx h bs off r = Ret (Ready (Err e), off, put_tcp S h t' r)"
      using tcp_send_poll_at [OF t(1) L(3), of cx] res by simp
    show thesis
      by (rule that [OF P])
        (use res Err A(2) [of "drop off bs" t e t'] t L in \<open>auto simp: send_live_def send_inv_def send_result_def accepted_is_def\<close>)
  qed
qed

interpretation send_future: future_result "\<lambda>(off, r). tcp_send_poll S cx h bs off r" "send_live S W accepted h bs"
  "\<lambda>(off, r). tcp_wakes S (tcp_tx W) cx h r" "send_inv S accepted h before bs" "send_result S accepted h before bs"
  for S cx h bs W accepted before
proof unfold_locales
  fix x
  assume "send_live S W accepted h bs x"
  moreover obtain off r where x: "x = (off, r)" by fastforce
  ultimately obtain p off' r' where P: "tcp_send_poll S cx h bs off r = Ret (p, off', r')"
      "send_live S W accepted h bs (off', r')"
      "send_inv S accepted h before bs (off, r) \<Longrightarrow>
       send_inv S accepted h before bs (off', r') \<and> (\<forall>v. p = Ready v \<longrightarrow> send_result S accepted h before bs v (off', r'))"
      "p = Pending \<Longrightarrow> tcp_wakes S (tcp_tx W) cx h r'"
    using tcp_send_poll_step by metis
  show "\<exists>p x'. (case x of (off, r) \<Rightarrow> tcp_send_poll S cx h bs off r) = Ret (p, x') \<and> send_live S W accepted h bs x'"
    using P x by auto
  fix x'
  show "(case x' of (off, r) \<Rightarrow> tcp_wakes S (tcp_tx W) cx h r)"
    if "(case x of (off, r) \<Rightarrow> tcp_send_poll S cx h bs off r) = Ret (Pending, x')"
    using P x that by auto
  show "send_inv S accepted h before bs x'" if "send_inv S accepted h before bs x"
    "(case x of (off, r) \<Rightarrow> tcp_send_poll S cx h bs off r) = Ret (Pending, x')"
    using P x that by auto
  show "send_result S accepted h before bs v x'" if "send_inv S accepted h before bs x"
    "(case x of (off, r) \<Rightarrow> tcp_send_poll S cx h bs off r) = Ret (Ready v, x')" for v
    using P x that by auto
qed

interpretation read_future: future "\<lambda>(buf, r). tokio_poll_read S cx h buf r" "\<lambda>(buf :: read_buf, r). tcp_live S W h r"
  "\<lambda>(buf :: read_buf, r). tcp_wakes S (tcp_rx W) cx h r" for S cx h W
proof unfold_locales
  fix x
  assume l: "case x of (buf :: read_buf, r) \<Rightarrow> tcp_live S W h r"
  obtain buf r where x: "x = (buf, r)" by fastforce
  obtain t where t: "tcp_at S h r = Some t" "\<And>t'. tcp_at S h (put_tcp S h t' r) = Some t'"
    "\<And>t'. tcp_live S W h (put_tcp S h t' r)" "\<And>k t'. tcp_rx W (tcp_register_recv_waker S k t') = Some k"
    using tcp_liveE [of S W h r] l [unfolded x prod.case] by metis
  note D = tokio_poll_read_def get_tcp_at [OF t(1)] Let_def
  show "\<exists>p x'. (case x of (buf, r) \<Rightarrow> tokio_poll_read S cx h buf r) = Ret (p, x') \<and> (case x' of (buf, r) \<Rightarrow> tcp_live S W h r)"
    using l t x by (simp add: D split: prod.splits Result.splits TcpRecvError.splits del: bind_outcome_Ret_conv)
  show "case x' of (buf, r) \<Rightarrow> tcp_wakes S (tcp_rx W) cx h r"
    if "(case x of (buf, r) \<Rightarrow> tokio_poll_read S cx h buf r) = Ret (Pending, x')" for x'
    using that t x by (auto simp: D tcp_wakes_def split: prod.splits Result.splits TcpRecvError.splits if_splits
        simp del: bind_outcome_Ret_conv)
qed

definition accept_live ::
  "('t, 'u, 's, 'i, 'v) smoltcp \<Rightarrow> ('t, 'u) waker_view \<Rightarrow> TcpListener \<times> ('s, 'i, 'v) reactor \<Rightarrow> bool" where
  "accept_live S W x \<longleftrightarrow> socket_set_laws S \<and> waker_laws S W \<and> all_tcp S (r_sockets (snd x)) (l_handles (fst x))"

lemma register_all_wakes:
  assumes "socket_set_laws S" "waker_laws S W" "register_all S cx hs r = Ret r'"
  shows "(\<forall>h \<in> set hs. tcp_wakes S (tcp_rx W) cx h r') \<and> (\<forall>h. h \<notin> set hs \<longrightarrow> tcp_at S h r' = tcp_at S h r)"
  using assms(3)
proof (induction hs arbitrary: r)
  case (Cons h hs)
  then obtain t where t: "tcp_at S h r = Some t"
    by (auto simp: with_tcp_def tcp_at_Some)
  define r1 where "r1 = put_tcp S h (tcp_register_recv_waker S cx t) r"
  have "with_tcp S h (\<lambda>t. ((), tcp_register_recv_waker S cx t)) r = Ret ((), r1)"
    using with_tcp_at [OF t, of "\<lambda>t. ((), tcp_register_recv_waker S cx t)"] by (simp add: r1_def)
  then have ih: "(\<forall>h \<in> set hs. tcp_wakes S (tcp_rx W) cx h r') \<and> (\<forall>h. h \<notin> set hs \<longrightarrow> tcp_at S h r' = tcp_at S h r1)"
    using Cons by simp
  have "tcp_wakes S (tcp_rx W) cx h r1"
    using tcp_at_put [OF assms(1) t] assms(2) by (simp add: r1_def tcp_wakes_def waker_laws_def)
  moreover have "tcp_at S g r1 = tcp_at S g r" if "g \<noteq> h" for g
    using that set_putD [OF assms(1), of "r_sockets r" h] t by (simp add: tcp_at_Some) (simp add: tcp_at_def r1_def)
  ultimately show ?case using ih by (auto simp: tcp_wakes_def)
qed simp

interpretation accept_future: future "\<lambda>(l, r). accept_poll S cx l r" "accept_live S W"
  "\<lambda>(l, r). \<forall>h \<in> set (l_handles l). tcp_wakes S (tcp_rx W) cx h r" for S cx W
proof unfold_locales
  fix x
  assume l: "accept_live S W x"
  obtain l r where x: "x = (l, r)" by fastforce
  have laws: "socket_set_laws S" "waker_laws S W" and tcp: "all_tcp S (r_sockets r) (l_handles l)"
    using l x by (auto simp: accept_live_def)
  show "\<exists>p x'. (case x of (l, r) \<Rightarrow> accept_poll S cx l r) = Ret (p, x') \<and> accept_live S W x'"
  proof (rule accept_poll_ok [OF laws(1) tcp, of cx])
    fix idx h
    assume "\<exists>r'. accept_poll S cx l r = Ret (Ready (Ok (l_handles l ! idx)), l\<lparr>l_handles := (l_handles l)[idx := h]\<rparr>, r') \<and>
        kinds S (r_sockets r) h = None \<and> kinds S (r_sockets r') = (kinds S (r_sockets r))(h \<mapsto> True) \<and>
        orphaned_closing r' = orphaned_closing r"
    with laws tcp show ?thesis
      unfolding x by (auto simp: accept_live_def all_tcp_def dest!: subsetD [OF set_update_subset_insert])
  qed (use laws tcp in \<open>auto simp: accept_live_def all_tcp_def in_place_def x\<close>)
  obtain res r2 where c: "create_listening_socket S (l_port l) (l_rx_buffer_size l) (l_tx_buffer_size l) r = (res, r2)"
    by fastforce
  show "case x' of (l, r) \<Rightarrow> \<forall>h \<in> set (l_handles l). tcp_wakes S (tcp_rx W) cx h r"
    if "(case x of (l, r) \<Rightarrow> accept_poll S cx l r) = Ret (Pending, x')" for x'
    using that register_all_wakes [OF laws, of cx "l_handles l" r]
    by (cases res) (auto simp: accept_poll_def x c split: option.splits if_splits)
qed

subsection \<open>Progress of a send\<close>

text \<open>A socket with room takes at least one byte of whatever it is given.\<close>

definition has_room :: "('t, 'u, 's, 'i, 'v) smoltcp \<Rightarrow> 't \<Rightarrow> bool" where
  "has_room S t \<longleftrightarrow> (\<forall>bs. bs \<noteq> [] \<longrightarrow> (\<exists>n t'. tcp_send_slice S bs t = (Ok n, t') \<and> 0 < n))"

lemma tcp_send_poll_progress:
  assumes "tcp_at S h r = Some t" and "has_room S t" and "off < length bs"
  shows "(\<exists>off' r'. tcp_send_poll S cx h bs off r = Ret (Ready (Ok (length bs)), off', r')) \<or>
    (\<exists>off' r'. tcp_send_poll S cx h bs off r = Ret (Pending, off', r') \<and> off < off' \<and> off' < length bs)"
proof -
  obtain n t' where "tcp_send_slice S (drop off bs) t = (Ok n, t')" "0 < n"
    using assms(2) [unfolded has_room_def, THEN spec [of _ "drop off bs"]] assms(3) by auto
  then show ?thesis using tcp_send_poll_at [OF assms(1), of off bs cx] assms(3) by auto
qed

lemma await_send_progress:
  assumes "send_live S W accepted h bs (off, r)" and "tcp_at S h r = Some t" and "has_room S t"
    and "off < length bs" and "length bs \<le> off + length envs + 1"
    and "\<forall>env \<in> set envs. \<forall>r t. tcp_at S h r = Some t \<longrightarrow> (\<exists>t'. tcp_at S h (env r) = Some t' \<and> has_room S t')"
  shows "\<exists>off' r'. await (\<lambda>(off, r). tcp_send_poll S cx h bs off r) (map apsnd envs) (off, r) =
    Ret (Ready (Ok (length bs)), off', r')"
  using assms
proof (induction envs arbitrary: off r t)
  case Nil
  then show ?case using tcp_send_poll_progress [OF Nil.prems(2-4), of cx] by auto
next
  case (Cons env envs)
  from tcp_send_poll_progress [OF Cons.prems(2-4), of cx] show ?case
  proof (elim disjE exE conjE)
    fix off' r'
    assume P: "tcp_send_poll S cx h bs off r = Ret (Pending, off', r')" and o: "off < off'" "off' < length bs"
    have l: "send_live S W accepted h bs (off', r')"
      using send_future.poll_live [OF Cons.prems(1), of cx] P by simp
    then obtain t1 where "tcp_at S h r' = Some t1" by (auto simp: send_live_def tcp_live_def)
    then obtain t' where t': "tcp_at S h (env r') = Some t'" "has_room S t'" using Cons.prems(6) by auto
    have "send_live S W accepted h bs (off', env r')" using l t'(1) by (simp add: send_live_def tcp_live_def)
    from Cons.IH [OF this t' o(2)] o Cons.prems(5,6) P show ?thesis by auto
  qed simp
qed

lemma tcp_send_poll_empty:
  assumes "send_live S W accepted h [] (0, r)"
  shows "\<exists>p r'. tcp_send_poll S cx h [] 0 r = Ret (p, 0, r') \<and> send_live S W accepted h [] (0, r') \<and> (\<forall>n. p \<noteq> Ready (Ok n))"
proof -
  obtain t where t: "tcp_at S h r = Some t" using assms by (auto simp: send_live_def tcp_live_def)
  obtain res t' where res: "tcp_send_slice S [] t = (res, t')" by fastforce
  have "res = Ok n \<Longrightarrow> n = 0" for n
    using stream_lawsD(1) [of S accepted "[]" t n t'] res assms by (auto simp: send_live_def)
  then obtain p r' where P: "tcp_send_poll S cx h [] 0 r = Ret (p, 0, r')" "\<forall>n. p \<noteq> Ready (Ok n)"
    using tcp_send_poll_at [OF t, of 0 "[]" cx] res by (cases res) auto
  then show ?thesis using send_future.poll_live [OF assms, of cx] by auto
qed

subsection \<open>Properties\<close>

text \<open>
  (C3) No wake-up is lost: whenever the poll of a future on a live socket returns \<open>Pending\<close>, the
  waker of the polling task is registered on that socket, for the direction the future waits on.
  A listener's accept registers it on every socket of the backlog.
\<close>

theorem pending_registers_waker:
  assumes "socket_set_laws S" and "waker_laws S W"
  shows "(\<forall>h r bs off off' r'. tcp_at S h r \<noteq> None \<and> tcp_send_poll S cx h bs off r = Ret (Pending, off', r') \<longrightarrow>
       tcp_wakes S (tcp_tx W) cx h r') \<and>
    (\<forall>h r n r'. tcp_at S h r \<noteq> None \<and> tcp_recv_poll S cx h n r = Ret (Pending, r') \<longrightarrow> tcp_wakes S (tcp_rx W) cx h r') \<and>
    (\<forall>h r r'. tcp_at S h r \<noteq> None \<and> wait_connected_poll S cx h r = Ret (Pending, r') \<longrightarrow> tcp_wakes S (tcp_tx W) cx h r') \<and>
    (\<forall>h r r'. tcp_at S h r \<noteq> None \<and> close_poll S cx h r = Ret (Pending, r') \<longrightarrow> tcp_wakes S (tcp_tx W) cx h r') \<and>
    (\<forall>h r b b' r'. tcp_at S h r \<noteq> None \<and> tokio_poll_read S cx h b r = Ret (Pending, b', r') \<longrightarrow> tcp_wakes S (tcp_rx W) cx h r') \<and>
    (\<forall>h r bs r'. tcp_at S h r \<noteq> None \<and> tokio_poll_write S cx h bs r = Ret (Pending, r') \<longrightarrow> tcp_wakes S (tcp_tx W) cx h r') \<and>
    (\<forall>h r r'. tcp_at S h r \<noteq> None \<and> tokio_poll_flush S cx h r = Ret (Pending, r') \<longrightarrow> tcp_wakes S (tcp_tx W) cx h r') \<and>
    (\<forall>h r r'. tcp_at S h r \<noteq> None \<and> tokio_poll_shutdown S cx h r = Ret (Pending, r') \<longrightarrow> tcp_wakes S (tcp_tx W) cx h r') \<and>
    (\<forall>h r bs ep r'. udp_at S h r \<noteq> None \<and> udp_send_poll S cx h bs ep r = Ret (Pending, r') \<longrightarrow> udp_wakes S (udp_tx W) cx h r') \<and>
    (\<forall>h r n r'. udp_at S h r \<noteq> None \<and> udp_recv_poll S cx h n r = Ret (Pending, r') \<longrightarrow> udp_wakes S (udp_rx W) cx h r') \<and>
    (\<forall>l r l' r'. all_tcp S (r_sockets r) (l_handles l) \<and> accept_poll S cx l r = Ret (Pending, l', r') \<longrightarrow>
       (\<forall>h \<in> set (l_handles l'). tcp_wakes S (tcp_rx W) cx h r'))"
proof -
  have live: "tcp_live S W h r" if "tcp_at S h r \<noteq> None" for h r using assms that by (simp add: tcp_live_def)
  have ulive: "udp_live S W h r" if "udp_at S h r \<noteq> None" for h r using assms that by (simp add: udp_live_def)
  have send: "tcp_wakes S (tcp_tx W) cx h r'"
    if "tcp_at S h r \<noteq> None" "tcp_send_poll S cx h bs off r = Ret (Pending, off', r')" for h r bs off off' r'
    using that tcp_at_put [OF assms(1)] assms(2)
    by (auto simp: tcp_send_poll_def get_tcp_at Let_def tcp_wakes_def waker_laws_def split: prod.splits Result.splits if_splits)
  have read: "tcp_wakes S (tcp_rx W) cx h r'"
    if "tcp_at S h r \<noteq> None" "tokio_poll_read S cx h b r = Ret (Pending, b', r')" for h r b b' r'
    using read_future.pending_registered [where x = "(b, r)" and x' = "(b', r')"] live [OF that(1)] that(2) by auto
  have accept: "\<forall>h \<in> set (l_handles l'). tcp_wakes S (tcp_rx W) cx h r'"
    if "all_tcp S (r_sockets r) (l_handles l)" "accept_poll S cx l r = Ret (Pending, l', r')" for l r l' r'
    using accept_future.pending_registered [where x = "(l, r)" and x' = "(l', r')"] that assms
    by (auto simp: accept_live_def)
  show ?thesis
    by (intro conjI allI impI; elim conjE;
      (rule send read accept recv_future.pending_registered [OF live] wait_connected_future.pending_registered [OF live]
        close_future.pending_registered [OF live] write_future.pending_registered [OF live]
        flush_future.pending_registered [OF live] shutdown_future.pending_registered [OF live]
        udp_send_future.pending_registered [OF ulive] udp_recv_future.pending_registered [OF ulive]; assumption))
qed

theorem pending_registers_waker_witness:
  "\<exists>off r'. tcp_send_poll sim_stack 7 1 [1, 2, 3, 4, 5] 0 (snd sim_connected) = Ret (Pending, off, r') \<and>
    tcp_wakes sim_stack (tcp_tx sim_wakers) 7 1 r'"
proof -
  obtain off r' where p: "tcp_send_poll sim_stack 7 1 [1, 2, 3, 4, 5] 0 (snd sim_connected) = Ret (Pending, off, r')"
    by (simp add: tcp_send_poll_def get_tcp_def sim_connected_def sim_reactor_def reactor_new_def sim_stack_def Let_def
        del: bind_outcome_Ret_conv)
  moreover have "tcp_at sim_stack 1 (snd sim_connected) \<noteq> None"
    by (simp add: tcp_at_def sim_connected_def sim_reactor_def reactor_new_def sim_stack_def)
  ultimately show ?thesis
    using pending_registers_waker [OF sim_socket_set_laws sim_waker_laws, of 7, THEN conjunct1] by blast
qed

text \<open>
  (C5) Sending on a stream delivers the data exactly once and in order: however the task is
  polled, and whatever happens between the polls short of another sender on the same stream, the
  socket has accepted exactly the part of the data the future has counted, and when the future is
  ready with a length, that length is the length of the data and all of it has been accepted.
\<close>

theorem tcp_send_exactly_once:
  assumes "socket_set_laws S" and "waker_laws S W" and "stream_laws S accepted" and "tcp_at S h r = Some t"
    and "\<forall>env \<in> set envs. \<forall>r t. tcp_at S h r = Some t \<longrightarrow>
      (\<exists>t'. tcp_at S h (env r) = Some t' \<and> accepted t' = accepted t)"
  shows "\<exists>p off r' t'. await (\<lambda>(off, r). tcp_send_poll S cx h bs off r) (map apsnd envs) (0, r) = Ret (p, off, r') \<and>
    tcp_at S h r' = Some t' \<and>
    (case p of
       Ready (Ok n) \<Rightarrow> n = length bs \<and> accepted t' = accepted t @ bs
     | _ \<Rightarrow> off \<le> length bs \<and> accepted t' = accepted t @ take off bs)"
proof -
  have live: "send_live S W accepted h bs (0, r)" using assms(1-4) by (simp add: send_live_def tcp_live_def)
  have inv: "send_inv S accepted h (accepted t) bs (0, r)" using assms(4) by (simp add: send_inv_def accepted_is_def)
  have envs: "\<forall>env \<in> set (map apsnd envs). \<forall>y. send_live S W accepted h bs y \<and> send_inv S accepted h (accepted t) bs y \<longrightarrow>
      send_live S W accepted h bs (env y) \<and> send_inv S accepted h (accepted t) bs (env y)"
    using assms(5) by (fastforce simp: send_live_def tcp_live_def send_inv_def accepted_is_def)
  from send_future.await_result [OF live inv envs, of cx] obtain p off r' where
    a: "await (\<lambda>(off, r). tcp_send_poll S cx h bs off r) (map apsnd envs) (0, r) = Ret (p, off, r')"
      "send_live S W accepted h bs (off, r')"
      "case p of Ready v \<Rightarrow> send_result S accepted h (accepted t) bs v (off, r')
       | Pending \<Rightarrow> send_inv S accepted h (accepted t) bs (off, r') \<and> tcp_wakes S (tcp_tx W) cx h r'"
    by auto
  then show ?thesis
    by (auto simp: send_live_def send_result_def send_inv_def accepted_is_def split: poll.splits Result.splits)
qed

theorem tcp_send_exactly_once_witness:
  "\<exists>p off r' t'. await (\<lambda>(off, r). tcp_send_poll sim_stack 7 1 [1, 2] off r) (map apsnd []) (0, snd sim_connected) = Ret (p, off, r') \<and>
    tcp_at sim_stack 1 r' = Some t' \<and>
    (case p of Ready (Ok n) \<Rightarrow> n = length [1 :: u8, 2] \<and> st_accepted t' = [1, 2]
     | _ \<Rightarrow> off \<le> length [1 :: u8, 2] \<and> st_accepted t' = take off [1, 2])"
proof -
  let ?t = "\<lparr>st_state = SynSent, st_accepted = [], st_room = 4, st_wakers = [], st_rx = [], st_delivered = []\<rparr>"
  have "tcp_at sim_stack 1 (snd sim_connected) = Some ?t"
    by (simp add: tcp_at_def sim_connected_def sim_reactor_def reactor_new_def sim_stack_def)
  from tcp_send_exactly_once [OF sim_socket_set_laws sim_waker_laws sim_stream_laws this, of "[]" 7 "[1, 2]"]
  show ?thesis by (simp cong: poll.case_cong Result.case_cong)
qed

text \<open>
  Sending completes: if the socket has room at every poll, a non-empty send is ready with its
  full length after at most as many polls as it has bytes.
\<close>

theorem tcp_send_completes:
  assumes "socket_set_laws S" and "waker_laws S W" and "stream_laws S accepted"
    and "tcp_at S h r = Some t" and "has_room S t" and "bs \<noteq> []" and "length bs \<le> length envs + 1"
    and "\<forall>env \<in> set envs. \<forall>r t. tcp_at S h r = Some t \<longrightarrow> (\<exists>t'. tcp_at S h (env r) = Some t' \<and> has_room S t')"
  shows "\<exists>off r'. await (\<lambda>(off, r). tcp_send_poll S cx h bs off r) (map apsnd envs) (0, r) = Ret (Ready (Ok (length bs)), off, r')"
proof (rule await_send_progress)
  show "send_live S W accepted h bs (0, r)" using assms(1-4) by (simp add: send_live_def tcp_live_def)
qed (use assms in auto)

theorem tcp_send_completes_witness:
  "\<exists>off r'. await (\<lambda>(off, r). tcp_send_poll sim_stack 7 1 [9] off r) (map apsnd []) (0, snd sim_connected) =
    Ret (Ready (Ok 1), off, r')"
proof -
  let ?t = "\<lparr>st_state = SynSent, st_accepted = [], st_room = 4, st_wakers = [], st_rx = [], st_delivered = []\<rparr>"
  have t: "tcp_at sim_stack 1 (snd sim_connected) = Some ?t"
    by (simp add: tcp_at_def sim_connected_def sim_reactor_def reactor_new_def sim_stack_def)
  have "has_room sim_stack ?t" by (auto simp: has_room_def sim_stack_def Let_def)
  from tcp_send_completes [OF sim_socket_set_laws sim_waker_laws sim_stream_laws t this, of "[9]" "[]" 7]
  show ?thesis by simp
qed

text \<open>
  Sending an empty slice never succeeds: a socket accepts no byte of no bytes, which the
  future takes for a full buffer, so that however often it is polled it is never ready with a
  length. (The receiving future treats an empty buffer specially; this one does not.)
\<close>

theorem empty_send_never_completes:
  assumes "socket_set_laws S" and "waker_laws S W" and "stream_laws S accepted" and "tcp_at S h r = Some t"
    and "\<forall>env \<in> set envs. \<forall>r. tcp_at S h r \<noteq> None \<longrightarrow> tcp_at S h (env r) \<noteq> None"
  shows "\<exists>p off r'. await (\<lambda>(off, r). tcp_send_poll S cx h [] off r) (map apsnd envs) (0, r) = Ret (p, off, r') \<and>
    (\<forall>n. p \<noteq> Ready (Ok n))"
proof -
  have "send_live S W accepted h [] (0, r)" using assms(1-4) by (simp add: send_live_def tcp_live_def)
  then show ?thesis
    using assms(5)
  proof (induction envs arbitrary: r)
    case Nil
    then show ?case using tcp_send_poll_empty [of S W accepted h r cx] by auto
  next
    case (Cons env envs)
    obtain p r1 where P: "tcp_send_poll S cx h [] 0 r = Ret (p, 0, r1)" "send_live S W accepted h [] (0, r1)"
        "\<forall>n. p \<noteq> Ready (Ok n)"
      using tcp_send_poll_empty [OF Cons.prems(1)] by blast
    then have "send_live S W accepted h [] (0, env r1)" using Cons.prems(2) by (simp add: send_live_def tcp_live_def)
    then show ?case using P Cons.IH [of "env r1"] Cons.prems(2) by (cases p) auto
  qed
qed

theorem empty_send_never_completes_witness:
  "\<exists>p off r'. await (\<lambda>(off, r). tcp_send_poll sim_stack 7 1 [] off r) (map apsnd [id, id]) (0, snd sim_connected) = Ret (p, off, r') \<and>
    (\<forall>n. p \<noteq> Ready (Ok n))"
proof -
  let ?t = "\<lparr>st_state = SynSent, st_accepted = [], st_room = 4, st_wakers = [], st_rx = [], st_delivered = []\<rparr>"
  have "tcp_at sim_stack 1 (snd sim_connected) = Some ?t"
    by (simp add: tcp_at_def sim_connected_def sim_reactor_def reactor_new_def sim_stack_def)
  from empty_send_never_completes [OF sim_socket_set_laws sim_waker_laws sim_stream_laws this, of "[id, id]" 7]
  show ?thesis by simp
qed

text \<open>
  Reading and writing through tokio move bytes without losing or inventing any. A read adds
  what the socket returned to the filled part and takes it from the room of the buffer; ready
  without a byte means that there was no room or that the peer has finished. A write that is ready
  with \<open>n\<close> has handed over the first \<open>n\<close> bytes, and it is never ready with 0 for a buffer that is
  not empty; otherwise nothing has been handed over.
\<close>

theorem tokio_io_exact:
  assumes "socket_set_laws S" and "stream_laws S accepted" and "tcp_at S h r = Some t"
  shows "(\<exists>p buf' r' rs. tokio_poll_read S cx h buf r = Ret (p, buf', r') \<and>
      rb_filled buf' = rb_filled buf @ rs \<and> length rs + rb_unfilled buf' = rb_unfilled buf \<and>
      (rs \<noteq> [] \<longrightarrow> p = Ready (Ok ()) \<and> fst (tcp_recv_slice S (rb_unfilled buf) t) = Ok rs) \<and>
      (p = Ready (Ok ()) \<and> rs = [] \<longrightarrow>
         rb_unfilled buf = 0 \<or> fst (tcp_recv_slice S (rb_unfilled buf) t) = Err RecvFinished)) \<and>
    (\<exists>p r' t'. tokio_poll_write S cx h bs r = Ret (p, r') \<and> tcp_at S h r' = Some t' \<and>
      (case p of Ready (Ok n) \<Rightarrow> n \<le> length bs \<and> accepted t' = accepted t @ take n bs \<and> (n = 0 \<longrightarrow> bs = [])
       | _ \<Rightarrow> accepted t' = accepted t))"
proof
  obtain res t1 where res: "tcp_recv_slice S (rb_unfilled buf) t = (res, t1)" by fastforce
  have "res = Ok rs \<Longrightarrow> length rs \<le> rb_unfilled buf" for rs
    using stream_lawsD(4) [OF assms(2)] res by blast
  then show "\<exists>p buf' r' rs. tokio_poll_read S cx h buf r = Ret (p, buf', r') \<and>
      rb_filled buf' = rb_filled buf @ rs \<and> length rs + rb_unfilled buf' = rb_unfilled buf \<and>
      (rs \<noteq> [] \<longrightarrow> p = Ready (Ok ()) \<and> fst (tcp_recv_slice S (rb_unfilled buf) t) = Ok rs) \<and>
      (p = Ready (Ok ()) \<and> rs = [] \<longrightarrow>
         rb_unfilled buf = 0 \<or> fst (tcp_recv_slice S (rb_unfilled buf) t) = Err RecvFinished)"
    using res
    by (cases "rb_unfilled buf = 0"; cases res)
      (auto simp: tokio_poll_read_def get_tcp_at [OF assms(3)] split: TcpRecvError.splits simp del: bind_outcome_Ret_conv)
next
  obtain res t1 where res: "tcp_send_slice S bs t = (res, t1)" by fastforce
  show "\<exists>p r' t'. tokio_poll_write S cx h bs r = Ret (p, r') \<and> tcp_at S h r' = Some t' \<and>
      (case p of Ready (Ok n) \<Rightarrow> n \<le> length bs \<and> accepted t' = accepted t @ take n bs \<and> (n = 0 \<longrightarrow> bs = [])
       | _ \<Rightarrow> accepted t' = accepted t)"
    using res stream_lawsD(1-3) [OF assms(2)] tcp_at_put [OF assms(1,3)]
    unfolding tokio_poll_write_def with_tcp_at [OF assms(3)]
    by (cases res) (auto split: TcpSendError.splits)
qed

theorem tokio_io_exact_witness:
  "\<exists>p r' t'. tokio_poll_write sim_stack 7 1 [5, 6] (snd sim_connected) = Ret (p, r') \<and> tcp_at sim_stack 1 r' = Some t' \<and>
    (case p of Ready (Ok n) \<Rightarrow> n \<le> length [5 :: u8, 6] \<and> st_accepted t' = take n [5, 6] \<and> 0 < n | _ \<Rightarrow> st_accepted t' = [])"
proof -
  let ?t = "\<lparr>st_state = SynSent, st_accepted = [], st_room = 4, st_wakers = [], st_rx = [], st_delivered = []\<rparr>"
  have "tcp_at sim_stack 1 (snd sim_connected) = Some ?t"
    by (simp add: tcp_at_def sim_connected_def sim_reactor_def reactor_new_def sim_stack_def)
  from tokio_io_exact [OF sim_socket_set_laws sim_stream_laws this, of 7 _ "[5, 6]", THEN conjunct2]
  show ?thesis by (simp cong: poll.case_cong Result.case_cong)
qed

end
