(* ===== verification/Reactor_Run.thy ===== *)
theory Reactor_Run
  imports Futures
begin

section \<open>The reactor loop and accepting\<close>

text \<open>
  What the turns of the reactor do to the sockets and their owners: a turn never panics, does a
  bounded amount of work, is a sequence of the steps of the ownership relation, and leaves no
  finished orphan behind. The run of the reactor follows from its turns. The second part says
  which connection a listener hands over.
\<close>

subsection \<open>Turns as steps\<close>

definition reachable :: "('t, 'u, 's, 'i, 'v) smoltcp \<Rightarrow> ('s, 'i, 'v) reactor \<Rightarrow> owners \<times> ('s, 'i, 'v) reactor \<Rightarrow> bool" where
  "reachable S r0 st \<longleftrightarrow> (own_step S)\<^sup>*\<^sup>* (no_owners, r0) st"

lemma ingress_loop_steps:
  assumes "ingress_loop S ts batch k r = (n, r')"
  shows "(own_step S)\<^sup>*\<^sup>* (w, r) (w, r')"
  using assms
proof (induction "batch - k" arbitrary: k r rule: less_induct)
  case less
  obtain res r1 where p: "poll_ingress_single S ts r = (res, r1)" by fastforce
  have one: "own_step S (w, r) (w, r1)" by (rule own_step.ingress [OF p])
  show ?case
  proof (cases "res = IngressNone \<or> k + 1 \<ge> batch")
    case True
    then have "r' = r1"
      using less.prems p
      by (auto simp: ingress_loop.simps [of S ts batch k] split: PollIngressSingleResult.splits if_splits)
    with one show ?thesis by auto
  next
    case False
    then have "ingress_loop S ts batch (k + 1) r1 = (n, r')"
      using less.prems p by (auto simp: ingress_loop.simps [of S ts batch k] split: PollIngressSingleResult.splits)
    moreover have "batch - (k + 1) < batch - k" using False by linarith
    ultimately have "(own_step S)\<^sup>*\<^sup>* (w, r1) (w, r')" using less.hyps by blast
    with one show ?thesis by (rule converse_rtranclp_into_rtranclp)
  qed
qed

lemma reactor_turn_steps:
  assumes "reactor_turn S ts batch r = Ret (n, r')"
  shows "(own_step S)\<^sup>*\<^sup>* (w, r) (w, r')"
proof -
  obtain r1 where l: "ingress_loop S ts batch 0 r = (n, r1)" and c: "cleanup_orphaned S (poll_egress S ts r1) = Ret r'"
    using assms by (auto simp: reactor_turn_def split: prod.splits)
  show ?thesis
    using ingress_loop_steps [OF l, of w] own_step.egress [of S w r1 ts] own_step.cleanup [OF c, of w]
    by (meson rtranclp.rtrancl_into_rtrancl)
qed

lemma own_inv_orphans:
  assumes "own_inv S (w, r)"
  shows "distinct (orphaned_closing r)" "all_tcp S (r_sockets r) (orphaned_closing r)"
  using assms own_inv_kinds(1) [OF assms] by (auto simp: own_inv_def tcp_handles_def all_tcp_def)

lemma reactor_turn_ok:
  assumes laws: "socket_set_laws S" "poll_laws S" and inv: "own_inv S (w, r)"
  shows "\<exists>n r'. reactor_turn S ts batch r = Ret (n, r') \<and> n \<le> max 1 batch \<and> own_inv S (w, r') \<and>
    (\<forall>h \<in> set (orphaned_closing r'). \<not> finished S (r_sockets r') h)"
proof -
  obtain n r1 where l: "ingress_loop S ts batch 0 r = (n, r1)" by fastforce
  have n: "n \<le> max 1 batch" using ingress_loop_spec [OF laws(2) _ l] by simp
  define r2 where "r2 = poll_egress S ts r1"
  have "(own_step S)\<^sup>*\<^sup>* (w, r) (w, r2)"
    using ingress_loop_steps [OF l, of w] own_step.egress [of S w r1 ts] by (simp add: r2_def)
  then have inv2: "own_inv S (w, r2)"
    using inv by (induction rule: rtranclp_induct) (auto intro: own_step_inv [OF laws])
  obtain r' where c: "cleanup_orphaned S r2 = Ret r'"
      "orphaned_closing r' = filter (\<lambda>h. \<not> finished S (r_sockets r2) h) (orphaned_closing r2)"
      "set_get S (r_sockets r') = (\<lambda>h. if h \<in> set (orphaned_closing r2) \<and> finished S (r_sockets r2) h
         then None else set_get S (r_sockets r2) h)"
    using cleanup_orphaned_ok [OF laws(1) own_inv_orphans [OF inv2]] by blast
  have "own_inv S (w, r')" using own_step_inv [OF laws own_step.cleanup [OF c(1), of w] inv2] .
  moreover have "\<forall>h \<in> set (orphaned_closing r'). \<not> finished S (r_sockets r') h"
    using c(2,3) by (auto simp: finished_def)
  moreover have "reactor_turn S ts batch r = Ret (n, r')"
    using l c(1) by (simp add: reactor_turn_def r2_def)
  ultimately show ?thesis using n by blast
qed

subsection \<open>Accepting\<close>

definition state_at :: "('t, 'u, 's, 'i, 'v) smoltcp \<Rightarrow> SocketHandle \<Rightarrow> 's \<Rightarrow> tcp_state option" where
  "state_at S h s = (case set_get S s h of Some (TcpSock t) \<Rightarrow> Some (tcp_state_of S t) | _ \<Rightarrow> None)"

lemma get_tcp_state_at:
  assumes "kinds S s h = Some True"
  obtains t where "get_tcp S h s = Ret t" "state_at S h s = Some (tcp_state_of S t)"
  using assms that by (auto simp: kinds_tcp state_at_def get_tcp_def)

text \<open>\<open>find_established\<close> gives the first established socket of the backlog.\<close>

definition first_established ::
  "('t, 'u, 's, 'i, 'v) smoltcp \<Rightarrow> SocketHandle list \<Rightarrow> 's \<Rightarrow> nat \<Rightarrow> bool" where
  "first_established S hs s j \<longleftrightarrow> j < length hs \<and> state_at S (hs ! j) s = Some Established \<and>
     (\<forall>k < j. state_at S (hs ! k) s \<noteq> Some Established)"

lemma find_established_eq:
  assumes "all_tcp S s hs"
  shows "(\<exists>j. first_established S hs s j \<and> find_established S i hs s = Ret (Some (i + j))) \<or>
    (\<forall>h \<in> set hs. state_at S h s \<noteq> Some Established) \<and> find_established S i hs s = Ret None"
  using assms
proof (induction hs arbitrary: i)
  case (Cons h hs)
  then have "kinds S s h = Some True" by simp
  then obtain t where t: "get_tcp S h s = Ret t" "state_at S h s = Some (tcp_state_of S t)"
    by (rule get_tcp_state_at)
  show ?case
  proof (cases "tcp_state_of S t = Established")
    case True
    then show ?thesis
      using t by (intro disjI1 exI [of _ 0]) (simp add: first_established_def del: bind_outcome_Ret_conv get_tcp_Ret)
  next
    case False
    have eq: "find_established S i (h # hs) s = find_established S (Suc i) hs s"
      using False t(1) by (simp del: bind_outcome_Ret_conv get_tcp_Ret)
    have up: "first_established S (h # hs) s (Suc j)" if "first_established S hs s j" for j
      using that t(2) False by (auto simp: first_established_def less_Suc_eq_0_disj)
    from Cons.prems have "all_tcp S s hs" by simp
    from Cons.IH [OF this, of "Suc i"] consider
        j where "first_established S hs s j" "find_established S (Suc i) hs s = Ret (Some (Suc i + j))"
      | "\<forall>h \<in> set hs. state_at S h s \<noteq> Some Established" "find_established S (Suc i) hs s = Ret None"
      by blast
    then show ?thesis
    proof cases
      case (1 j)
      then show ?thesis unfolding eq using up [of j] by (intro disjI1 exI [of _ "Suc j"]) simp
    next
      case 2
      then show ?thesis unfolding eq using t(2) False by simp
    qed
  qed
qed simp

lemma all_state_eq:
  assumes "all_tcp S s hs"
  shows "all_state S P hs s = Ret (\<forall>h \<in> set hs. \<exists>st. state_at S h s = Some st \<and> P st)"
  using assms
proof (induction hs)
  case (Cons h hs)
  then have "kinds S s h = Some True" by simp
  then obtain t where "get_tcp S h s = Ret t" "state_at S h s = Some (tcp_state_of S t)"
    by (rule get_tcp_state_at)
  with Cons show ?case by (simp del: bind_outcome_Ret_conv get_tcp_Ret)
qed simp

subsection \<open>Properties\<close>





text \<open>
  (C8) Accepting on a live listener. When a socket of the backlog is established, the first such
  socket is handed over and a new listening socket takes its place, so that the backlog keeps its
  length and no other socket changes; if the new socket cannot listen, the error is returned and
  nothing changes. When none is established, accepting waits, unless every socket of the backlog
  is closed or in time-wait, which is an error.
\<close>

theorem accept_poll_correct:
  assumes "socket_set_laws S" and "all_tcp S (r_sockets r) (l_handles l)"
    and "tcp_listen S (l_port l) (tcp_new S (l_rx_buffer_size l) (l_tx_buffer_size l)) = (res, t)"
  shows "(\<forall>j. first_established S (l_handles l) (r_sockets r) j \<longrightarrow>
      (case res of
         Err e \<Rightarrow> accept_poll S cx l r = Ret (Ready (Err e), l, r)
       | Ok _ \<Rightarrow> \<exists>h r'. accept_poll S cx l r =
             Ret (Ready (Ok (l_handles l ! j)), l\<lparr>l_handles := (l_handles l)[j := h]\<rparr>, r') \<and>
           set_get S (r_sockets r) h = None \<and>
           set_get S (r_sockets r') = (set_get S (r_sockets r))(h \<mapsto> TcpSock t))) \<and>
    ((\<forall>h \<in> set (l_handles l). state_at S h (r_sockets r) \<noteq> Some Established) \<longrightarrow>
      (if \<forall>h \<in> set (l_handles l). state_at S h (r_sockets r) \<in> {Some Closed, Some TimeWait}
       then accept_poll S cx l r = Ret (Ready (Err ListenUnaddressable), l, r)
       else \<exists>r'. accept_poll S cx l r = Ret (Pending, l, r')))"
proof (intro conjI allI impI)
  fix j
  assume j: "first_established S (l_handles l) (r_sockets r) j"
  have uniq: "k = j" if "first_established S (l_handles l) (r_sockets r) k" for k
    using that j unfolding first_established_def by (metis linorder_neqE_nat)
  have f: "find_established S 0 (l_handles l) (r_sockets r) = Ret (Some j)"
    using find_established_eq [OF assms(2), of 0] uniq j unfolding first_established_def
    by (metis add_0 nth_mem)
  show "case res of
         Err e \<Rightarrow> accept_poll S cx l r = Ret (Ready (Err e), l, r)
       | Ok _ \<Rightarrow> \<exists>h r'. accept_poll S cx l r =
             Ret (Ready (Ok (l_handles l ! j)), l\<lparr>l_handles := (l_handles l)[j := h]\<rparr>, r') \<and>
           set_get S (r_sockets r) h = None \<and>
           set_get S (r_sockets r') = (set_get S (r_sockets r))(h \<mapsto> TcpSock t)"
    using f assms(3) set_addD [OF assms(1), of "TcpSock t" "r_sockets r"]
    by (cases res; cases "set_add S (TcpSock t) (r_sockets r)") (auto simp: accept_poll_def create_listening_socket_def)
next
  assume none: "\<forall>h \<in> set (l_handles l). state_at S h (r_sockets r) \<noteq> Some Established"
  have f: "find_established S 0 (l_handles l) (r_sockets r) = Ret None"
    using find_established_eq [OF assms(2), of 0] none unfolding first_established_def by (metis nth_mem)
  obtain r' where reg: "register_all S cx (l_handles l) r = Ret r'"
    using register_all_ok [OF assms(1,2)] by blast
  show "if \<forall>h \<in> set (l_handles l). state_at S h (r_sockets r) \<in> {Some Closed, Some TimeWait}
       then accept_poll S cx l r = Ret (Ready (Err ListenUnaddressable), l, r)
       else \<exists>r'. accept_poll S cx l r = Ret (Pending, l, r')"
    using f reg all_state_eq [OF assms(2), of "\<lambda>st. st = Closed \<or> st = TimeWait"]
    by (auto simp: accept_poll_def)
qed

text \<open>A listener whose second socket is established, on the instance of the stack.\<close>

definition sim_listener :: TcpListener where
  "sim_listener = \<lparr>l_handles = [1, 2], l_port = 80, l_rx_buffer_size = 4, l_tx_buffer_size = 4\<rparr>"

definition sim_listening :: "(sim_set, unit, unit) reactor" where
  "sim_listening = sim_reactor\<lparr>r_sockets :=
     [(1, TcpSock \<lparr>st_state = Listen, st_accepted = [], st_room = 4, st_wakers = [], st_rx = [], st_delivered = []\<rparr>),
      (2, TcpSock \<lparr>st_state = Established, st_accepted = [], st_room = 4, st_wakers = [], st_rx = [], st_delivered = []\<rparr>)]\<rparr>"

theorem accept_poll_correct_witness:
  "\<exists>h r'. accept_poll sim_stack 7 sim_listener sim_listening = Ret (Ready (Ok 2), sim_listener\<lparr>l_handles := [1, h]\<rparr>, r')"
proof -
  have tcp: "all_tcp sim_stack (r_sockets sim_listening) (l_handles sim_listener)"
    by (simp add: all_tcp_def kinds_def sim_listening_def sim_listener_def sim_stack_def)
  have "tcp_listen sim_stack (l_port sim_listener) (tcp_new sim_stack (l_rx_buffer_size sim_listener) (l_tx_buffer_size sim_listener)) =
      (Ok (), \<lparr>st_state = Listen, st_accepted = [], st_room = 4, st_wakers = [], st_rx = [], st_delivered = []\<rparr>)"
    by (simp add: sim_stack_def sim_listener_def)
  from accept_poll_correct [OF sim_socket_set_laws tcp this, of 7, THEN conjunct1, THEN spec [of _ 1]]
  have "first_established sim_stack (l_handles sim_listener) (r_sockets sim_listening) 1 \<longrightarrow>
      (\<exists>h r'. accept_poll sim_stack 7 sim_listener sim_listening =
        Ret (Ready (Ok (l_handles sim_listener ! 1)), sim_listener\<lparr>l_handles := (l_handles sim_listener)[1 := h]\<rparr>, r'))"
    by auto
  moreover have "first_established sim_stack (l_handles sim_listener) (r_sockets sim_listening) 1"
    by (simp add: first_established_def state_at_def sim_listening_def sim_listener_def sim_stack_def)
  ultimately show ?thesis by (simp add: sim_listener_def)
qed

end
