(* ===== verification/Echo_Server.thy ===== *)
theory Echo_Server
  imports Reactor_Run
begin

section \<open>The echo server, and the accept loops of the servers\<close>

text \<open>
  A model of \<^verbatim>\<open>dpdk-net-test/src/app/echo_server.rs\<close>. The handler of a connection is an
  asynchronous function; its states are the places where it waits, and \<open>echo_step\<close> polls the future
  at the current place and, when that is ready, runs to the next one. What other tasks and the
  reactor do while it waits comes between the steps.

  The loop that accepts connections has the same text in this server and in the servers of
  \<^verbatim>\<open>http_server.rs\<close> and \<^verbatim>\<open>custom_http.rs\<close>, up to the task it spawns: \<open>accept_turn\<close> is one
  turn of its \<open>select!\<close>.
\<close>

subsection \<open>Definitions\<close>

record ServerStats =
  stat_connections :: u64
  stat_bytes_received :: u64
  stat_bytes_sent :: u64
  stat_send_errors :: u64

definition server_stats_new :: ServerStats where
  "server_stats_new = \<lparr>stat_connections = 0, stat_bytes_received = 0, stat_bytes_sent = 0, stat_send_errors = 0\<rparr>"

datatype echo_place = EchoRecv | EchoSend bytes usize | EchoClose | EchoDone

type_synonym ('s, 'i, 'v) echo_task = "echo_place \<times> ServerStats \<times> ('s, 'i, 'v) reactor"

definition echo_close ::
  "('t, 'u, 's, 'i, 'v) smoltcp \<Rightarrow> SocketHandle \<Rightarrow> ServerStats \<Rightarrow> ('s, 'i, 'v) reactor \<Rightarrow> (unit poll \<times> ('s, 'i, 'v) echo_task) outcome" where
  "echo_close S h stats r = bind_outcome (tcp_stream_close S h r) (\<lambda>(u, r). Ret (Ready (), (EchoClose, stats, r)))"

fun echo_step ::
  "('t, 'u, 's, 'i, 'v) smoltcp \<Rightarrow> waker \<Rightarrow> SocketHandle \<Rightarrow> ('s, 'i, 'v) echo_task \<Rightarrow> (unit poll \<times> ('s, 'i, 'v) echo_task) outcome" where
  "echo_step S cx h (EchoRecv, stats, r) =
     bind_outcome (tcp_recv_poll S cx h 4096 r) (\<lambda>(p, r).
       case p of
         Pending \<Rightarrow> Ret (Pending, (EchoRecv, stats, r))
       | Ready (Err e) \<Rightarrow> echo_close S h stats r
       | Ready (Ok bs) \<Rightarrow>
           if length bs = 0 then echo_close S h stats r
           else Ret (Ready (), (EchoSend bs 0,
             stats\<lparr>stat_bytes_received := stat_bytes_received stats + of_nat (length bs)\<rparr>, r)))"
| "echo_step S cx h (EchoSend bs off, stats, r) =
     bind_outcome (tcp_send_poll S cx h bs off r) (\<lambda>(p, off, r).
       case p of
         Pending \<Rightarrow> Ret (Pending, (EchoSend bs off, stats, r))
       | Ready (Ok len) \<Rightarrow>
           Ret (Ready (), (EchoRecv, stats\<lparr>stat_bytes_sent := stat_bytes_sent stats + of_nat len\<rparr>, r))
       | Ready (Err e) \<Rightarrow> echo_close S h (stats\<lparr>stat_send_errors := stat_send_errors stats + 1\<rparr>) r)"
| "echo_step S cx h (EchoClose, stats, r) =
     bind_outcome (close_poll S cx h r) (\<lambda>(p, r).
       case p of
         Pending \<Rightarrow> Ret (Pending, (EchoClose, stats, r))
       | Ready _ \<Rightarrow> bind_outcome (tcp_stream_drop S h r) (\<lambda>r. Ret (Ready (), (EchoDone, stats, r))))"
| "echo_step S cx h (EchoDone, stats, r) = Ret (Ready (), (EchoDone, stats, r))"

text \<open>A run of the handler: what happens between its steps is a list of changes of the shared state.\<close>

fun echo_run ::
  "('t, 'u, 's, 'i, 'v) smoltcp \<Rightarrow> waker \<Rightarrow> SocketHandle \<Rightarrow>
     (ServerStats \<times> ('s, 'i, 'v) reactor \<Rightarrow> ServerStats \<times> ('s, 'i, 'v) reactor) list \<Rightarrow>
     ('s, 'i, 'v) echo_task \<Rightarrow> ('s, 'i, 'v) echo_task outcome" where
  "echo_run S cx h [] x = Ret x"
| "echo_run S cx h (env # envs) x =
     bind_outcome (echo_step S cx h x) (\<lambda>(p, place, shared). echo_run S cx h envs (place, env shared))"

text \<open>The tasks the servers spawn, with the number of the connection and its stream.\<close>

datatype conn_task = EchoTask u64 SocketHandle | SimpleHttpTask u64 SocketHandle
  | Http1Task u64 SocketHandle | Http2Task u64 SocketHandle | HttpAutoTask u64 SocketHandle

record accept_server =
  srv_listener :: TcpListener
  srv_conn_id :: u64
  srv_tasks :: "conn_task list"

datatype turn_result = TurnBreak | TurnContinue | TurnWait

text \<open>
  One \<open>select!\<close> of the loop. It polls its two branches in a random order, which \<open>cancel_first\<close>
  stands for, and takes the first that is ready.
\<close>

definition accept_turn ::
  "(u64 \<Rightarrow> SocketHandle \<Rightarrow> conn_task) \<Rightarrow> ('t, 'u, 's, 'i, 'v) smoltcp \<Rightarrow> waker \<Rightarrow> bool \<Rightarrow> bool \<Rightarrow>
     accept_server \<Rightarrow> ('s, 'i, 'v) reactor \<Rightarrow> (turn_result \<times> accept_server \<times> ('s, 'i, 'v) reactor) outcome" where
  "accept_turn task S cx cancelled cancel_first srv r =
     (if cancelled \<and> cancel_first then Ret (TurnBreak, srv, r)
      else bind_outcome (accept_poll S cx (srv_listener srv) r) (\<lambda>(p, l, r).
        let srv = srv\<lparr>srv_listener := l\<rparr> in
        case p of
          Pending \<Rightarrow> Ret (if cancelled then TurnBreak else TurnWait, srv, r)
        | Ready (Err e) \<Rightarrow> Ret (TurnContinue, srv, r)
        | Ready (Ok stream) \<Rightarrow>
            Ret (TurnContinue, srv\<lparr>srv_conn_id := srv_conn_id srv + 1,
              srv_tasks := srv_tasks srv @ [task (srv_conn_id srv) stream]\<rparr>, r)))"

definition echo_server_turn ::
  "('t, 'u, 's, 'i, 'v) smoltcp \<Rightarrow> waker \<Rightarrow> bool \<Rightarrow> bool \<Rightarrow> accept_server \<times> ServerStats \<Rightarrow> ('s, 'i, 'v) reactor
     \<Rightarrow> (turn_result \<times> (accept_server \<times> ServerStats) \<times> ('s, 'i, 'v) reactor) outcome" where
  "echo_server_turn S cx cancelled cancel_first server r =
     (case server of (srv, stats) \<Rightarrow>
       bind_outcome (accept_turn EchoTask S cx cancelled cancel_first srv r) (\<lambda>(res, srv', r).
         Ret (res, (srv', if length (srv_tasks srv') > length (srv_tasks srv)
           then stats\<lparr>stat_connections := stat_connections stats + 1\<rparr> else stats), r)))"

definition simple_http_server_turn ::
  "('t, 'u, 's, 'i, 'v) smoltcp \<Rightarrow> waker \<Rightarrow> bool \<Rightarrow> bool \<Rightarrow> accept_server \<Rightarrow> ('s, 'i, 'v) reactor
     \<Rightarrow> (turn_result \<times> accept_server \<times> ('s, 'i, 'v) reactor) outcome" where
  "simple_http_server_turn = accept_turn SimpleHttpTask"

definition http1_server_turn ::
  "('t, 'u, 's, 'i, 'v) smoltcp \<Rightarrow> waker \<Rightarrow> bool \<Rightarrow> bool \<Rightarrow> accept_server \<Rightarrow> ('s, 'i, 'v) reactor
     \<Rightarrow> (turn_result \<times> accept_server \<times> ('s, 'i, 'v) reactor) outcome" where
  "http1_server_turn = accept_turn Http1Task"

definition http2_server_turn ::
  "('t, 'u, 's, 'i, 'v) smoltcp \<Rightarrow> waker \<Rightarrow> bool \<Rightarrow> bool \<Rightarrow> accept_server \<Rightarrow> ('s, 'i, 'v) reactor
     \<Rightarrow> (turn_result \<times> accept_server \<times> ('s, 'i, 'v) reactor) outcome" where
  "http2_server_turn = accept_turn Http2Task"

definition http_auto_server_turn ::
  "('t, 'u, 's, 'i, 'v) smoltcp \<Rightarrow> waker \<Rightarrow> bool \<Rightarrow> bool \<Rightarrow> accept_server \<Rightarrow> ('s, 'i, 'v) reactor
     \<Rightarrow> (turn_result \<times> accept_server \<times> ('s, 'i, 'v) reactor) outcome" where
  "http_auto_server_turn = accept_turn HttpAutoTask"

definition accept_server_new :: "TcpListener \<Rightarrow> accept_server" where
  "accept_server_new listener = \<lparr>srv_listener = listener, srv_conn_id = 0, srv_tasks = []\<rparr>"

text \<open>
  A run of the loop: for each turn, whether the server is cancelled, the order of the branches, and
  what happens to the shared state afterwards.
\<close>

fun server_run ::
  "(u64 \<Rightarrow> SocketHandle \<Rightarrow> conn_task) \<Rightarrow> ('t, 'u, 's, 'i, 'v) smoltcp \<Rightarrow> waker \<Rightarrow>
     (bool \<times> bool \<times> (('s, 'i, 'v) reactor \<Rightarrow> ('s, 'i, 'v) reactor)) list \<Rightarrow> accept_server \<Rightarrow> ('s, 'i, 'v) reactor
     \<Rightarrow> (accept_server \<times> ('s, 'i, 'v) reactor) outcome" where
  "server_run task S cx [] srv r = Ret (srv, r)"
| "server_run task S cx ((cancelled, cancel_first, env) # turns) srv r =
     bind_outcome (accept_turn task S cx cancelled cancel_first srv r) (\<lambda>(res, srv, r).
       if res = TurnBreak then Ret (srv, r) else server_run task S cx turns srv (env r))"

subsection \<open>The handler echoes\<close>

text \<open>
  \<open>delivered t\<close> stands for the bytes that a socket has handed to the application so far; sending
  and closing leave it alone, and closing sends nothing.
\<close>

definition echo_laws :: "('t, 'u, 's, 'i, 'v) smoltcp \<Rightarrow> ('t \<Rightarrow> bytes) \<Rightarrow> ('t \<Rightarrow> bytes) \<Rightarrow> bool" where
  "echo_laws S accepted delivered \<longleftrightarrow> stream_laws S accepted \<and>
     (\<forall>n t. case tcp_recv_slice S n t of (res, t') \<Rightarrow>
        delivered t' = delivered t @ (case res of Ok bs \<Rightarrow> bs | Err e \<Rightarrow> [])) \<and>
     (\<forall>bs t. delivered (snd (tcp_send_slice S bs t)) = delivered t) \<and>
     (\<forall>k t. delivered (tcp_register_send_waker S k t) = delivered t) \<and>
     (\<forall>k t. delivered (tcp_register_recv_waker S k t) = delivered t) \<and>
     (\<forall>t. delivered (tcp_close S t) = delivered t \<and> accepted (tcp_close S t) = accepted t)"

text \<open>
  The socket of the handler: what it has delivered since the start is \<open>d\<close>, and what it has taken is
  \<open>a\<close>, after what it had delivered and taken before.
\<close>

definition echoed ::
  "('t, 'u, 's, 'i, 'v) smoltcp \<Rightarrow> ('t \<Rightarrow> bytes) \<Rightarrow> ('t \<Rightarrow> bytes) \<Rightarrow> SocketHandle \<Rightarrow> bytes \<Rightarrow> bytes \<Rightarrow>
     ('s, 'i, 'v) reactor \<Rightarrow> bytes \<Rightarrow> bytes \<Rightarrow> bool" where
  "echoed S accepted delivered h a0 d0 r a d \<longleftrightarrow>
     (\<exists>t. tcp_at S h r = Some t \<and> delivered t = d0 @ d \<and> accepted t = a0 @ a)"

fun echo_inv ::
  "('t, 'u, 's, 'i, 'v) smoltcp \<Rightarrow> ('t, 'u) waker_view \<Rightarrow> ('t \<Rightarrow> bytes) \<Rightarrow> ('t \<Rightarrow> bytes) \<Rightarrow> SocketHandle \<Rightarrow> bytes \<Rightarrow> bytes \<Rightarrow>
     ('s, 'i, 'v) echo_task \<Rightarrow> bool" where
  "echo_inv S W accepted delivered h a0 d0 (EchoRecv, stats, r) =
     (tcp_live S W h r \<and> (\<exists>d. echoed S accepted delivered h a0 d0 r d d))"
| "echo_inv S W accepted delivered h a0 d0 (EchoSend bs off, stats, r) =
     (tcp_live S W h r \<and> off \<le> length bs \<and> (\<exists>d. echoed S accepted delivered h a0 d0 r (d @ take off bs) (d @ bs)))"
| "echo_inv S W accepted delivered h a0 d0 (EchoClose, stats, r) =
     (tcp_live S W h r \<and> (\<exists>d n. echoed S accepted delivered h a0 d0 r (take n d) d))"
| "echo_inv S W accepted delivered h a0 d0 (EchoDone, stats, r) = True"

lemma echo_lawsD:
  assumes "echo_laws S accepted delivered"
  shows "stream_laws S accepted"
    and "tcp_recv_slice S n t = (Ok bs, t') \<Longrightarrow> delivered t' = delivered t @ bs \<and> accepted t' = accepted t"
    and "tcp_recv_slice S n t = (Err e, t') \<Longrightarrow> delivered t' = delivered t \<and> accepted t' = accepted t"
    and "tcp_send_slice S bs t = (res, t') \<Longrightarrow> delivered t' = delivered t"
    and "delivered (tcp_register_send_waker S k t) = delivered t" "delivered (tcp_register_recv_waker S k t) = delivered t"
    and "accepted (tcp_register_send_waker S k t) = accepted t" "accepted (tcp_register_recv_waker S k t) = accepted t"
    and "delivered (tcp_close S t) = delivered t" "accepted (tcp_close S t) = accepted t"
proof -
  note L = assms [unfolded echo_laws_def]
  note A = L [THEN conjunct1, unfolded stream_laws_def]
  have recv: "case tcp_recv_slice S n t of (res, t') \<Rightarrow>
      delivered t' = delivered t @ (case res of Ok bs \<Rightarrow> bs | Err e \<Rightarrow> []) \<and> accepted t' = accepted t" for n t
    using L [THEN conjunct2, THEN conjunct1, THEN spec [of _ n], THEN spec [of _ t]]
      A [THEN conjunct2, THEN conjunct1, THEN spec [of _ n], THEN spec [of _ t]]
    by (auto split: prod.splits)
  show "stream_laws S accepted" using L by blast
  show "tcp_recv_slice S n t = (Ok bs, t') \<Longrightarrow> delivered t' = delivered t @ bs \<and> accepted t' = accepted t"
    "tcp_recv_slice S n t = (Err e, t') \<Longrightarrow> delivered t' = delivered t \<and> accepted t' = accepted t"
    using recv [where n = n and t = t] by simp_all
  show "tcp_send_slice S bs t = (res, t') \<Longrightarrow> delivered t' = delivered t" using L by (metis snd_conv)
  show "delivered (tcp_register_send_waker S k t) = delivered t" "delivered (tcp_register_recv_waker S k t) = delivered t"
    "delivered (tcp_close S t) = delivered t" "accepted (tcp_close S t) = accepted t"
    using L by blast+
  show "accepted (tcp_register_send_waker S k t) = accepted t" "accepted (tcp_register_recv_waker S k t) = accepted t"
    using A by blast+
qed

lemma recv_echoes:
  assumes "echo_laws S accepted delivered" and "tcp_live S W h r" and "echoed S accepted delivered h a0 d0 r a d"
  shows "\<exists>p r'. tcp_recv_poll S cx h n r = Ret (p, r') \<and> tcp_live S W h r' \<and>
    echoed S accepted delivered h a0 d0 r' a (d @ (case p of Ready (Ok bs) \<Rightarrow> bs | _ \<Rightarrow> [])) \<and>
    (p = Pending \<longrightarrow> tcp_wakes S (tcp_rx W) cx h r')"
proof -
  note L = echo_lawsD [OF assms(1)]
  obtain t where t: "tcp_at S h r = Some t" "delivered t = d0 @ d" "accepted t = a0 @ a"
    using assms(3) by (auto simp: echoed_def)
  obtain x r' where x: "tcp_recv_poll S cx h n r = Ret (x, r')" "tcp_live S W h r'"
    using recv_future.poll_live [OF assms(2), of cx n] by blast
  moreover have "echoed S accepted delivered h a0 d0 r' a (d @ (case x of Ready (Ok bs) \<Rightarrow> bs | _ \<Rightarrow> []))"
    using x(1) t L(2,3,6,8) tcp_at_put [of S h r t] assms(2)
    unfolding tcp_recv_poll_def with_tcp_at [OF t(1)]
    by (auto simp: echoed_def tcp_live_def split: prod.splits Result.splits TcpRecvError.splits if_splits)
  ultimately show ?thesis using recv_future.pending_registered [OF assms(2)] by blast
qed

lemma send_echoes:
  assumes "echo_laws S accepted delivered" and "tcp_live S W h r" and "off \<le> length bs"
    and "echoed S accepted delivered h a0 d0 r (a @ take off bs) d"
  shows "\<exists>p off' r'. tcp_send_poll S cx h bs off r = Ret (p, off', r') \<and> tcp_live S W h r' \<and> off' \<le> length bs \<and>
    echoed S accepted delivered h a0 d0 r' (a @ take off' bs) d \<and> (\<forall>n. p = Ready (Ok n) \<longrightarrow> off' = length bs) \<and>
    (p = Pending \<longrightarrow> tcp_wakes S (tcp_tx W) cx h r')"
proof -
  note L = echo_lawsD [OF assms(1)]
  obtain t where t: "tcp_at S h r = Some t" "delivered t = d0 @ d" "accepted t = a0 @ a @ take off bs"
    using assms(4) by (auto simp: echoed_def)
  obtain t2 where P: "\<And>t'. tcp_at S h (put_tcp S h t' r) = Some t'" "\<And>t'. tcp_live S W h (put_tcp S h t' r)"
      "\<And>k t'. tcp_tx W (tcp_register_send_waker S k t') = Some k"
    using tcp_liveE [OF assms(2)] by metis
  obtain res t' where s: "tcp_send_slice S (drop off bs) t = (res, t')" by fastforce
  note eq = tcp_send_poll_at [OF t(1) assms(3), of cx, unfolded s prod.case]
  have d: "delivered t' = d0 @ d" using L(4) [OF s] t(2) by simp
  show ?thesis
  proof (cases res)
    case (Ok n)
    have n: "n \<le> length bs - off" "accepted t' = a0 @ a @ take (off + n) bs"
      using stream_lawsD(1) [OF L(1), of "drop off bs" t n t'] s Ok t(3) by (auto simp: take_add)
    then have "off + n \<le> length bs" using assms(3) by simp
    then show ?thesis
      unfolding eq using Ok n d P L(5,7) by (auto simp: echoed_def tcp_wakes_def)
  next
    case (Err e)
    then have "accepted t' = a0 @ a @ take off bs" using stream_lawsD(2) [OF L(1)] s t(3) by metis
    then show ?thesis unfolding eq using Err d P assms(3) by (auto simp: echoed_def)
  qed
qed

lemma close_echoes:
  assumes "echo_laws S accepted delivered" and "tcp_live S W h r" and "echoed S accepted delivered h a0 d0 r a d"
  shows "\<exists>r'. echo_close S h stats r = Ret (Ready (), (EchoClose, stats, r')) \<and> tcp_live S W h r' \<and>
    echoed S accepted delivered h a0 d0 r' a d"
proof -
  note L = echo_lawsD [OF assms(1)]
  obtain t where t: "tcp_at S h r = Some t" "delivered t = d0 @ d" "accepted t = a0 @ a"
    using assms(3) by (auto simp: echoed_def)
  have "echo_close S h stats r = Ret (Ready (), (EchoClose, stats, put_tcp S h (tcp_close S t) r))"
    by (simp add: echo_close_def tcp_stream_close_def with_tcp_at [OF t(1)])
  moreover have "tcp_at S h (put_tcp S h (tcp_close S t) r) = Some (tcp_close S t)"
    using assms(2) t(1) tcp_at_put by (auto simp: tcp_live_def)
  ultimately show ?thesis using assms(2) t L(9,10) by (auto simp: echoed_def tcp_live_def)
qed

lemma echo_step_inv:
  assumes "echo_laws S accepted delivered" and "echo_inv S W accepted delivered h a0 d0 (place, stats, r)"
  shows "\<exists>p x'. echo_step S cx h (place, stats, r) = Ret (p, x') \<and> echo_inv S W accepted delivered h a0 d0 x'"
proof (cases place)
  case EchoRecv
  then obtain d where d: "tcp_live S W h r" "echoed S accepted delivered h a0 d0 r d d" using assms(2) by auto
  obtain p r' where 1: "tcp_recv_poll S cx h 4096 r = Ret (p, r')" "tcp_live S W h r'"
      "echoed S accepted delivered h a0 d0 r' d (d @ (case p of Ready (Ok bs) \<Rightarrow> bs | _ \<Rightarrow> []))"
    using recv_echoes [OF assms(1) d] by blast
  have close: "\<exists>p x'. echo_close S h stats r' = Ret (p, x') \<and> echo_inv S W accepted delivered h a0 d0 x'"
    if "echoed S accepted delivered h a0 d0 r' d d"
    using close_echoes [OF assms(1) 1(2) that, of stats] by (metis echo_inv.simps(3) take_all_iff order_refl)
  show ?thesis
    using 1 close EchoRecv by (auto split: poll.split Result.split)
next
  case (EchoSend bs off)
  then obtain d where d: "tcp_live S W h r" "off \<le> length bs" "echoed S accepted delivered h a0 d0 r (d @ take off bs) (d @ bs)"
    using assms(2) by auto
  obtain p off' r' where 1: "tcp_send_poll S cx h bs off r = Ret (p, off', r')" "tcp_live S W h r'" "off' \<le> length bs"
      "echoed S accepted delivered h a0 d0 r' (d @ take off' bs) (d @ bs)" "\<forall>n. p = Ready (Ok n) \<longrightarrow> off' = length bs"
    using send_echoes [OF assms(1) d] by blast
  have "d @ take off' bs = take (length d + off') (d @ bs)" by simp
  then have close: "\<exists>p x'. echo_close S h st r' = Ret (p, x') \<and> echo_inv S W accepted delivered h a0 d0 x'" for st
    using close_echoes [OF assms(1) 1(2,4), of st] by (metis echo_inv.simps(3))
  show ?thesis
    using 1 close EchoSend by (auto split: poll.split Result.split)
next
  case EchoClose
  then obtain d n where d: "tcp_live S W h r" "echoed S accepted delivered h a0 d0 r (take n d) d" using assms(2) by auto
  obtain p r' where 1: "close_poll S cx h r = Ret (p, r')" "tcp_live S W h r'"
    using close_future.poll_live [OF d(1), of cx] by blast
  have "echoed S accepted delivered h a0 d0 r' (take n d) d"
    using 1(1) d echo_lawsD(5,7) [OF assms(1)] tcp_at_put [of S h r]
    unfolding close_poll_def by (auto simp: echoed_def with_tcp_at tcp_live_def split: if_splits)
  moreover have "\<exists>r2. tcp_stream_drop S h r' = Ret r2"
    using tcp_stream_drop_ok [of S r' h] 1(2) by (auto simp: tcp_live_def kinds_def tcp_at_def split: option.splits socket.splits)
  ultimately show ?thesis using 1 EchoClose by (auto split: poll.split)
qed simp

text \<open>What happens between the steps leaves the data of the handler's socket alone.\<close>

definition keeps_socket ::
  "('t, 'u, 's, 'i, 'v) smoltcp \<Rightarrow> ('t, 'u) waker_view \<Rightarrow> ('t \<Rightarrow> bytes) \<Rightarrow> ('t \<Rightarrow> bytes) \<Rightarrow> SocketHandle \<Rightarrow>
     (ServerStats \<times> ('s, 'i, 'v) reactor \<Rightarrow> ServerStats \<times> ('s, 'i, 'v) reactor) \<Rightarrow> bool" where
  "keeps_socket S W accepted delivered h env \<longleftrightarrow>
     (\<forall>x t. tcp_live S W h (snd x) \<and> tcp_at S h (snd x) = Some t \<longrightarrow> tcp_live S W h (snd (env x)) \<and>
       (\<exists>t'. tcp_at S h (snd (env x)) = Some t' \<and> accepted t' = accepted t \<and> delivered t' = delivered t))"

lemma keeps_socket_inv:
  assumes "keeps_socket S W accepted delivered h env" and "echo_inv S W accepted delivered h a0 d0 (place, stats, r)"
  shows "echo_inv S W accepted delivered h a0 d0 (place, env (stats, r))"
proof -
  obtain stats' r' where e: "env (stats, r) = (stats', r')" by fastforce
  have "echoed S accepted delivered h a0 d0 r a d \<Longrightarrow> tcp_live S W h r \<Longrightarrow> echoed S accepted delivered h a0 d0 r' a d" for a d
    using assms(1) e unfolding keeps_socket_def echoed_def by (metis snd_conv)
  moreover have "tcp_live S W h r \<Longrightarrow> tcp_live S W h r'"
    using assms(1) e unfolding keeps_socket_def by (metis snd_conv tcp_liveE)
  ultimately show ?thesis using assms(2) e by (cases place) (simp; blast)+
qed

lemma echo_run_inv:
  assumes "echo_laws S accepted delivered" and "\<forall>env \<in> set envs. keeps_socket S W accepted delivered h env"
    and "echo_inv S W accepted delivered h a0 d0 x"
  shows "\<exists>x'. echo_run S cx h envs x = Ret x' \<and> echo_inv S W accepted delivered h a0 d0 x'"
  using assms(2,3)
proof (induction envs arbitrary: x)
  case (Cons env envs)
  obtain place stats r where x: "x = (place, stats, r)" by (cases x) auto
  obtain p place' stats' r' where 1: "echo_step S cx h x = Ret (p, (place', stats', r'))"
      "echo_inv S W accepted delivered h a0 d0 (place', stats', r')"
    using echo_step_inv [OF assms(1), of W h a0 d0 place stats r cx] Cons.prems(2) x by auto
  have "echo_inv S W accepted delivered h a0 d0 (place', env (stats', r'))"
    using keeps_socket_inv [OF _ 1(2)] Cons.prems(1) by simp
  from Cons.IH [OF _ this] Cons.prems(1) 1(1) show ?case by simp
qed simp

text \<open>
  The handler of a connection echoes: at every moment, what it has given to its socket is a prefix
  of what it has received from it, and all of it while it waits to receive. It does not panic,
  whatever happens between its steps (C20).
\<close>

theorem echo_handler_echoes:
  assumes "echo_laws S accepted delivered" and "tcp_live S W h r" and "tcp_at S h r = Some t"
    and "\<forall>env \<in> set envs. keeps_socket S W accepted delivered h env"
  shows "\<exists>x. echo_run S cx h envs (EchoRecv, stats, r) = Ret x \<and>
    echo_inv S W accepted delivered h (accepted t) (delivered t) x"
proof (rule echo_run_inv [OF assms(1,4)])
  show "echo_inv S W accepted delivered h (accepted t) (delivered t) (EchoRecv, stats, r)"
    using assms(2,3) by (auto simp: echoed_def intro: exI [of _ "[]"])
qed

text \<open>A socket of the instance with two bytes to receive and room for one.\<close>

definition sim_echo :: "(sim_set, unit, unit) reactor" where
  "sim_echo = sim_reactor\<lparr>r_sockets :=
     [(1, TcpSock \<lparr>st_state = Established, st_accepted = [], st_room = 1, st_wakers = [], st_rx = [7, 8], st_delivered = []\<rparr>)]\<rparr>"

lemma sim_echo_laws: "echo_laws sim_stack st_accepted st_delivered"
  using sim_stream_laws by (simp add: echo_laws_def) (simp add: sim_stack_def Let_def)

theorem echo_handler_echoes_witness:
  "\<exists>x. echo_run sim_stack 3 1 [id, id, id] (EchoRecv, server_stats_new, sim_echo) = Ret x \<and>
    echo_inv sim_stack sim_wakers st_accepted st_delivered 1 [] [] x"
proof -
  let ?t = "\<lparr>st_state = Established, st_accepted = [], st_room = 1, st_wakers = [], st_rx = [7, 8], st_delivered = []\<rparr>"
  have t: "tcp_at sim_stack 1 sim_echo = Some ?t" by (simp add: tcp_at_def sim_echo_def sim_stack_def)
  have "tcp_live sim_stack sim_wakers 1 sim_echo"
    using t sim_socket_set_laws sim_waker_laws by (simp add: tcp_live_def)
  from echo_handler_echoes [OF sim_echo_laws this t, of "[id, id, id]" 3 server_stats_new] show ?thesis
    by (simp add: keeps_socket_def)
qed

subsection \<open>The accept loops\<close>

lemma accept_turn_live:
  assumes "accept_live S W (srv_listener srv, r)"
  shows "\<exists>res srv' r'. accept_turn task S cx cancelled cancel_first srv r = Ret (res, srv', r') \<and>
    accept_live S W (srv_listener srv', r') \<and>
    (srv_tasks srv' = srv_tasks srv \<and> srv_conn_id srv' = srv_conn_id srv \<or>
     (\<exists>h. srv_tasks srv' = srv_tasks srv @ [task (srv_conn_id srv) h] \<and> srv_conn_id srv' = srv_conn_id srv + 1))"
proof -
  obtain p l r' where p: "accept_poll S cx (srv_listener srv) r = Ret (p, l, r')" "accept_live S W (l, r')"
    using accept_future.poll_live [OF assms, of cx] by auto
  then show ?thesis
    using assms by (auto simp: accept_turn_def Let_def split: poll.split Result.split)
qed

text \<open>
  The connections of a server are numbered from 0 in the order in which they are accepted, one task
  for each, and the loop does not panic as long as what happens between its turns keeps the
  listener's sockets.
\<close>

theorem server_run_numbers:
  assumes "accept_live S W (srv_listener srv, r)" and "srv_tasks srv = []" and "srv_conn_id srv = 0"
    and "\<forall>(cancelled, cancel_first, env) \<in> set turns. \<forall>l r. accept_live S W (l, r) \<longrightarrow> accept_live S W (l, env r)"
  shows "\<exists>srv' r' hs. server_run task S cx turns srv r = Ret (srv', r') \<and> accept_live S W (srv_listener srv', r') \<and>
    srv_tasks srv' = map (\<lambda>i. task (of_nat i) (hs ! i)) [0..<length hs] \<and> srv_conn_id srv' = of_nat (length hs)"
proof -
  have "\<exists>srv' r' hs. server_run task S cx turns srv r = Ret (srv', r') \<and> accept_live S W (srv_listener srv', r') \<and>
      srv_tasks srv' = map (\<lambda>i. task (of_nat i) (hs ! i)) [0..<length hs] \<and> srv_conn_id srv' = of_nat (length hs)"
    if "accept_live S W (srv_listener srv, r)" "srv_conn_id srv = of_nat (length hs)"
      "srv_tasks srv = map (\<lambda>i. task (of_nat i) (hs ! i)) [0..<length hs]" for srv r hs
    using that assms(4)
  proof (induction turns arbitrary: srv r hs)
    case (Cons turn turns)
    obtain cancelled cancel_first env where turn: "turn = (cancelled, cancel_first, env)" by (cases turn) auto
    obtain res srv1 r1 where 1: "accept_turn task S cx cancelled cancel_first srv r = Ret (res, srv1, r1)"
        "accept_live S W (srv_listener srv1, r1)"
        "srv_tasks srv1 = srv_tasks srv \<and> srv_conn_id srv1 = srv_conn_id srv \<or>
         (\<exists>h. srv_tasks srv1 = srv_tasks srv @ [task (srv_conn_id srv) h] \<and> srv_conn_id srv1 = srv_conn_id srv + 1)"
      using accept_turn_live [OF Cons.prems(1)] by blast
    obtain hs1 where hs1: "srv_conn_id srv1 = of_nat (length hs1)"
        "srv_tasks srv1 = map (\<lambda>i. task (of_nat i) (hs1 ! i)) [0..<length hs1]"
    proof (cases "srv_tasks srv1 = srv_tasks srv \<and> srv_conn_id srv1 = srv_conn_id srv")
      case True
      with Cons.prems(2,3) show ?thesis using that by metis
    next
      case False
      then obtain h where "srv_tasks srv1 = srv_tasks srv @ [task (srv_conn_id srv) h]" "srv_conn_id srv1 = srv_conn_id srv + 1"
        using 1(3) by blast
      with Cons.prems(2,3) that [of "hs @ [h]"] show ?thesis by (simp add: nth_append)
    qed
    have "accept_live S W (srv_listener srv1, env r1)" using Cons.prems(4) turn 1(2) by simp
    from Cons.IH [OF this hs1] Cons.prems(4) 1(1,2) hs1 turn show ?case by auto
  qed auto
  from this [of srv r "[]"] assms show ?thesis by simp
qed

text \<open>
  When every socket of the backlog is dead, a turn of the loop neither waits nor changes anything:
  accepting fails at once every time, so that the loop repeats without waiting for anything, for as
  long as the sockets stay dead and the server is not cancelled (C23).
\<close>

theorem dead_listener_spins:
  assumes "all_tcp S (r_sockets r) (l_handles (srv_listener srv))"
    and "\<forall>h \<in> set (l_handles (srv_listener srv)). state_at S h (r_sockets r) \<in> {Some Closed, Some TimeWait}"
  shows "accept_turn task S cx False cancel_first srv r = Ret (TurnContinue, srv, r) \<and>
    server_run task S cx (replicate n (False, cancel_first, id)) srv r = Ret (srv, r)"
proof -
  have "find_established S 0 (l_handles (srv_listener srv)) (r_sockets r) = Ret None"
    using find_established_eq [OF assms(1), of 0] assms(2) unfolding first_established_def by (fastforce dest: nth_mem)
  then have turn: "accept_turn task S cx False cancel_first srv r = Ret (TurnContinue, srv, r)"
    using all_state_eq [OF assms(1), of "\<lambda>st. st = Closed \<or> st = TimeWait"] assms(2)
    by (auto simp: accept_turn_def accept_poll_def)
  moreover have "server_run task S cx (replicate n (False, cancel_first, id)) srv r = Ret (srv, r)"
    by (induction n) (use turn in auto)
  ultimately show ?thesis ..
qed

theorem server_run_numbers_witness:
  "\<exists>srv' r' hs. server_run EchoTask sim_stack 3 [(False, False, id), (False, True, id), (True, True, id)]
      (accept_server_new sim_listener) sim_listening = Ret (srv', r') \<and>
    srv_tasks srv' = map (\<lambda>i. EchoTask (of_nat i) (hs ! i)) [0..<length hs]"
proof -
  have "accept_live sim_stack sim_wakers (srv_listener (accept_server_new sim_listener), sim_listening)"
    using sim_socket_set_laws sim_waker_laws
    by (simp add: accept_live_def accept_server_new_def all_tcp_def kinds_def sim_listening_def sim_listener_def sim_stack_def)
  moreover have "srv_tasks (accept_server_new sim_listener) = []" "srv_conn_id (accept_server_new sim_listener) = 0"
    by (simp_all add: accept_server_new_def)
  ultimately show ?thesis
    using server_run_numbers [where turns = "[(False, False, id), (False, True, id), (True, True, id)]" and task = EchoTask
        and S = sim_stack and W = sim_wakers and cx = 3]
    by (simp del: server_run.simps) blast
qed

theorem dead_listener_spins_witness:
  "accept_turn EchoTask sim_stack 3 False True (accept_server_new (sim_listener\<lparr>l_handles := [1]\<rparr>))
    (sim_reactor\<lparr>r_sockets := [(1, TcpSock (tcp_new sim_stack 4 4))]\<rparr>) =
   Ret (TurnContinue, accept_server_new (sim_listener\<lparr>l_handles := [1]\<rparr>), sim_reactor\<lparr>r_sockets := [(1, TcpSock (tcp_new sim_stack 4 4))]\<rparr>)"
  by (rule dead_listener_spins [THEN conjunct1])
    (simp_all add: accept_server_new_def sim_listener_def all_tcp_def kinds_def state_at_def sim_stack_def)

end
