(* ===== verification/Manual_Echo.thy ===== *)
theory Manual_Echo
  imports Echo_Server
begin

section \<open>The synchronous echo server and client\<close>

text \<open>
  A model of \<^verbatim>\<open>dpdk-net-test/src/manual/tcp_echo.rs\<close> and of the server loop of
  \<^verbatim>\<open>dpdk-net-test/src/manual/echo_server.rs\<close>: programs that drive smoltcp directly, without the
  reactor. They call some functions of a socket that the library does not use; these are a second
  record. \<open>recv\<close> with the closure of this code takes the whole contiguous part of the receive
  buffer. A loop with a time limit runs over the list of the times at which it polls.
\<close>

subsection \<open>Sockets\<close>

record ('t, 's, 'i, 'v) smoltcp_sync =
  tcp_is_open :: "'t \<Rightarrow> bool"
  tcp_can_recv :: "'t \<Rightarrow> bool"
  tcp_can_send :: "'t \<Rightarrow> bool"
  tcp_recv_all :: "'t \<Rightarrow> (bytes, TcpRecvError) Result \<times> 't"
  iface_poll :: "nat \<Rightarrow> 'v \<Rightarrow> 'i \<Rightarrow> 's \<Rightarrow> 'v \<times> 'i \<times> 's"

record SocketConfig =
  sc_rx_buffer_size :: usize
  sc_tx_buffer_size :: usize

definition socket_config_default :: SocketConfig where
  "socket_config_default = \<lparr>sc_rx_buffer_size = 4096, sc_tx_buffer_size = 4096\<rparr>"

definition socket_config_new :: "usize \<Rightarrow> usize \<Rightarrow> SocketConfig" where
  "socket_config_new rx_size tx_size = \<lparr>sc_rx_buffer_size = rx_size, sc_tx_buffer_size = tx_size\<rparr>"

definition socket_config_large :: SocketConfig where
  "socket_config_large = \<lparr>sc_rx_buffer_size = 8192, sc_tx_buffer_size = 8192\<rparr>"

text \<open>The receive both sides share: what \<open>recv\<close> returns, if anything, and if it is not empty.\<close>

definition recv_some :: "('t, 's, 'i, 'v) smoltcp_sync \<Rightarrow> 't \<Rightarrow> bytes \<times> 't" where
  "recv_some E t =
     (if tcp_can_recv E t then (case tcp_recv_all E t of (Ok data, t) \<Rightarrow> (data, t) | (Err e, t) \<Rightarrow> ([], t)) else ([], t))"

subsection \<open>The server\<close>

record EchoServer =
  es_handle :: SocketHandle
  es_port :: u16
  es_pending_tx :: bytes
  es_bytes_received :: usize
  es_bytes_sent :: usize
  es_connections :: usize
  es_was_connected :: bool

definition echo_server_new ::
  "('t, 'u, 's, 'i, 'v) smoltcp \<Rightarrow> u16 \<Rightarrow> SocketConfig \<Rightarrow> 's \<Rightarrow> (EchoServer \<times> 's) outcome" where
  "echo_server_new S port config s =
     (case tcp_listen S port (tcp_new S (sc_rx_buffer_size config) (sc_tx_buffer_size config)) of
        (Err e, t) \<Rightarrow> Panic ''Failed to listen on port''
      | (Ok _, t) \<Rightarrow>
          let (handle, s) = set_add S (TcpSock t) s in
          Ret (\<lparr>es_handle = handle, es_port = port, es_pending_tx = [], es_bytes_received = 0, es_bytes_sent = 0,
                es_connections = 0, es_was_connected = False\<rparr>, s))"

definition echo_server_is_connected :: "('t, 'u, 's, 'i, 'v) smoltcp \<Rightarrow> EchoServer \<Rightarrow> 's \<Rightarrow> bool outcome" where
  "echo_server_is_connected S srv s = bind_outcome (get_tcp S (es_handle srv) s) (\<lambda>t. Ret (tcp_is_active S t))"

definition echo_server_state :: "('t, 'u, 's, 'i, 'v) smoltcp \<Rightarrow> EchoServer \<Rightarrow> 's \<Rightarrow> tcp_state outcome" where
  "echo_server_state S srv s = bind_outcome (get_tcp S (es_handle srv) s) (\<lambda>t. Ret (tcp_state_of S t))"

definition echo_server_is_ready :: "('t, 'u, 's, 'i, 'v) smoltcp \<Rightarrow> EchoServer \<Rightarrow> 's \<Rightarrow> bool outcome" where
  "echo_server_is_ready S srv s = bind_outcome (get_tcp S (es_handle srv) s) (\<lambda>t. Ret (tcp_state_of S t = Listen))"

text \<open>The two halves of \<open>process\<close> on a connection: receiving, then sending what is pending.\<close>

definition server_receive :: "('t, 's, 'i, 'v) smoltcp_sync \<Rightarrow> EchoServer \<Rightarrow> 't \<Rightarrow> EchoServer \<times> 't" where
  "server_receive E srv t =
     (let (data, t) = recv_some E t in
      if data \<noteq> [] then
        (srv\<lparr>es_bytes_received := es_bytes_received srv + length data, es_pending_tx := es_pending_tx srv @ data\<rparr>, t)
      else (srv, t))"

definition server_send ::
  "('t, 'u, 's, 'i, 'v) smoltcp \<Rightarrow> ('t, 's, 'i, 'v) smoltcp_sync \<Rightarrow> EchoServer \<Rightarrow> 't \<Rightarrow> (usize \<times> EchoServer \<times> 't) outcome" where
  "server_send S E srv t =
     (if es_pending_tx srv \<noteq> [] \<and> tcp_can_send E t then
        (case tcp_send_slice S (es_pending_tx srv) t of
           (Err e, t) \<Rightarrow> Ret (0, srv, t)
         | (Ok sent, t) \<Rightarrow>
             if sent > length (es_pending_tx srv) then Panic ''range end index out of range''
             else Ret (sent, srv\<lparr>es_bytes_sent := es_bytes_sent srv + sent, es_pending_tx := drop sent (es_pending_tx srv)\<rparr>, t))
      else Ret (0, srv, t))"

definition echo_server_process ::
  "('t, 'u, 's, 'i, 'v) smoltcp \<Rightarrow> ('t, 's, 'i, 'v) smoltcp_sync \<Rightarrow> EchoServer \<Rightarrow> 's \<Rightarrow> (usize \<times> EchoServer \<times> 's) outcome" where
  "echo_server_process S E srv s =
     bind_outcome (get_tcp S (es_handle srv) s) (\<lambda>t.
       if tcp_is_active S t then
         let srv = (if es_was_connected srv then srv
                    else srv\<lparr>es_connections := es_connections srv + 1, es_was_connected := True\<rparr>);
             (srv, t) = server_receive E srv t
         in bind_outcome (server_send S E srv t) (\<lambda>(echoed, srv, t).
              let t = (if tcp_state_of S t = CloseWait then tcp_close S t else t)
              in Ret (echoed, srv, set_put S (es_handle srv) (TcpSock t) s))
       else
         let srv = (if es_was_connected srv then srv\<lparr>es_was_connected := False, es_pending_tx := []\<rparr> else srv);
             t = (if tcp_state_of S t = Closed then snd (tcp_listen S (es_port srv) t) else t)
         in Ret (0, srv, set_put S (es_handle srv) (TcpSock t) s))"

definition echo_server_remove :: "('t, 'u, 's, 'i, 'v) smoltcp \<Rightarrow> EchoServer \<Rightarrow> 's \<Rightarrow> 's outcome" where
  "echo_server_remove S srv s = remove_socket S (es_handle srv) s"

subsection \<open>The client\<close>

datatype EchoClientState = Connecting | Connected | WaitingForEcho | Complete | ClientClosed

record EchoClient =
  ec_handle :: SocketHandle
  ec_state :: EchoClientState
  ec_data_to_send :: bytes
  ec_send_offset :: usize
  ec_received_data :: bytes
  ec_expected_len :: usize
  ec_bytes_sent :: usize
  ec_bytes_received :: usize

definition echo_client_new ::
  "('t, 'u, 's, 'i, 'v) smoltcp \<Rightarrow> Ipv4Addr \<Rightarrow> u16 \<Rightarrow> u16 \<Rightarrow> SocketConfig \<Rightarrow> 's \<times> 'i \<Rightarrow> (EchoClient \<times> 's \<times> 'i) outcome" where
  "echo_client_new S server_ip server_port local_port config x =
     (let (s, i) = x;
          (handle, s) = set_add S (TcpSock (tcp_new S (sc_rx_buffer_size config) (sc_tx_buffer_size config))) s
      in bind_outcome (get_tcp S handle s) (\<lambda>t.
           let (res, t, i) = tcp_connect S i (server_ip, server_port) local_port t in
           case res of
             Err e \<Rightarrow> Panic ''Failed to initiate connection''
           | Ok _ \<Rightarrow>
               Ret (\<lparr>ec_handle = handle, ec_state = Connecting, ec_data_to_send = [], ec_send_offset = 0,
                     ec_received_data = [], ec_expected_len = 0, ec_bytes_sent = 0, ec_bytes_received = 0\<rparr>,
                    set_put S handle (TcpSock t) s, i)))"

definition echo_client_is_complete :: "EchoClient \<Rightarrow> bool" where
  "echo_client_is_complete c = (ec_state c = Complete)"

definition echo_client_is_closed :: "EchoClient \<Rightarrow> bool" where
  "echo_client_is_closed c = (ec_state c = ClientClosed)"

definition echo_client_send :: "bytes \<Rightarrow> EchoClient \<Rightarrow> EchoClient" where
  "echo_client_send data c =
     c\<lparr>ec_data_to_send := ec_data_to_send c @ data, ec_expected_len := ec_expected_len c + length data\<rparr>"

definition verify_echo :: "EchoClient \<Rightarrow> bool outcome" where
  "verify_echo c =
     (if length (ec_received_data c) < ec_expected_len c then Ret False
      else if ec_expected_len c > length (ec_data_to_send c) then Panic ''range end index out of range''
      else Ret (take (ec_expected_len c) (ec_received_data c) = take (ec_expected_len c) (ec_data_to_send c)))"

text \<open>The three states of \<open>process\<close> that do something.\<close>

definition client_connecting :: "('t, 'u, 's, 'i, 'v) smoltcp \<Rightarrow> EchoClient \<Rightarrow> 't \<Rightarrow> EchoClient \<times> 't" where
  "client_connecting S c t = (if tcp_is_active S t then c\<lparr>ec_state := Connected\<rparr> else c, t)"

definition client_connected ::
  "('t, 'u, 's, 'i, 'v) smoltcp \<Rightarrow> ('t, 's, 'i, 'v) smoltcp_sync \<Rightarrow> EchoClient \<Rightarrow> 't \<Rightarrow> EchoClient \<times> 't" where
  "client_connected S E c t =
     (let (c, t) =
            (if ec_send_offset c < length (ec_data_to_send c) \<and> tcp_can_send E t then
               (case tcp_send_slice S (drop (ec_send_offset c) (ec_data_to_send c)) t of
                  (Ok sent, t) \<Rightarrow> (c\<lparr>ec_bytes_sent := ec_bytes_sent c + sent, ec_send_offset := ec_send_offset c + sent\<rparr>, t)
                | (Err e, t) \<Rightarrow> (c, t))
             else (c, t))
      in (if ec_send_offset c \<ge> length (ec_data_to_send c) \<and> ec_data_to_send c \<noteq> []
          then c\<lparr>ec_state := WaitingForEcho\<rparr> else c, t))"

definition client_waiting :: "('t, 's, 'i, 'v) smoltcp_sync \<Rightarrow> EchoClient \<Rightarrow> 't \<Rightarrow> EchoClient \<times> 't" where
  "client_waiting E c t =
     (let (data, t) = recv_some E t;
          c = (if data \<noteq> []
               then c\<lparr>ec_bytes_received := ec_bytes_received c + length data, ec_received_data := ec_received_data c @ data\<rparr>
               else c)
      in (if length (ec_received_data c) \<ge> ec_expected_len c then c\<lparr>ec_state := Complete\<rparr> else c, t))"

definition echo_client_process ::
  "('t, 'u, 's, 'i, 'v) smoltcp \<Rightarrow> ('t, 's, 'i, 'v) smoltcp_sync \<Rightarrow> EchoClient \<Rightarrow> 's \<Rightarrow> (bool \<times> EchoClient \<times> 's) outcome" where
  "echo_client_process S E c s =
     bind_outcome (get_tcp S (ec_handle c) s) (\<lambda>t.
       let old_state = ec_state c;
           (c, t) =
             (case ec_state c of
                Connecting \<Rightarrow> client_connecting S c t
              | Connected \<Rightarrow> client_connected S E c t
              | WaitingForEcho \<Rightarrow> client_waiting E c t
              | _ \<Rightarrow> (c, t));
           c = (if \<not> tcp_is_open E t \<and> ec_state c \<noteq> Complete then c\<lparr>ec_state := ClientClosed\<rparr> else c)
       in Ret (ec_state c \<noteq> old_state, c, set_put S (ec_handle c) (TcpSock t) s))"

definition echo_client_close :: "('t, 'u, 's, 'i, 'v) smoltcp \<Rightarrow> EchoClient \<Rightarrow> 's \<Rightarrow> 's outcome" where
  "echo_client_close S c s =
     bind_outcome (get_tcp S (ec_handle c) s) (\<lambda>t. Ret (set_put S (ec_handle c) (TcpSock (tcp_close S t)) s))"

definition echo_client_remove :: "('t, 'u, 's, 'i, 'v) smoltcp \<Rightarrow> EchoClient \<Rightarrow> 's \<Rightarrow> 's outcome" where
  "echo_client_remove S c s = remove_socket S (ec_handle c) s"

subsection \<open>The tests\<close>

record EchoTestResult =
  tr_connected :: bool
  tr_bytes_sent :: usize
  tr_bytes_received :: usize
  tr_echo_verified :: bool

type_synonym ('s, 'i, 'v) echo_test = "EchoServer \<times> EchoClient \<times> 'v \<times> 'i \<times> 's"

text \<open>One round of polling: the interface, the server, the client.\<close>

definition echo_round ::
  "('t, 'u, 's, 'i, 'v) smoltcp \<Rightarrow> ('t, 's, 'i, 'v) smoltcp_sync \<Rightarrow> nat \<Rightarrow> ('s, 'i, 'v) echo_test \<Rightarrow> ('s, 'i, 'v) echo_test outcome" where
  "echo_round S E timestamp x =
     (case x of (srv, c, v, i, s) \<Rightarrow>
       let (v, i, s) = iface_poll E timestamp v i s in
       bind_outcome (echo_server_process S E srv s) (\<lambda>(n, srv, s).
         bind_outcome (echo_client_process S E c s) (\<lambda>(b, c, s). Ret (srv, c, v, i, s))))"

fun echo_test_loop ::
  "('t, 'u, 's, 'i, 'v) smoltcp \<Rightarrow> ('t, 's, 'i, 'v) smoltcp_sync \<Rightarrow> nat list \<Rightarrow> ('s, 'i, 'v) echo_test \<Rightarrow> ('s, 'i, 'v) echo_test outcome" where
  "echo_test_loop S E [] x = Ret x"
| "echo_test_loop S E (timestamp # polls) x =
     bind_outcome (echo_round S E timestamp x) (\<lambda>x.
       if echo_client_is_complete (fst (snd x)) \<or> echo_client_is_closed (fst (snd x)) then Ret x
       else echo_test_loop S E polls x)"

definition run_echo_test ::
  "('t, 'u, 's, 'i, 'v) smoltcp \<Rightarrow> ('t, 's, 'i, 'v) smoltcp_sync \<Rightarrow> nat list \<Rightarrow> ('s, 'i, 'v) echo_test
     \<Rightarrow> (EchoTestResult \<times> ('s, 'i, 'v) echo_test) outcome" where
  "run_echo_test S E polls x =
     bind_outcome (echo_test_loop S E polls x) (\<lambda>x.
       let c = fst (snd x) in
       bind_outcome (verify_echo c) (\<lambda>verified.
         Ret (\<lparr>tr_connected = (ec_state c \<noteq> Connecting), tr_bytes_sent = ec_bytes_sent c,
               tr_bytes_received = ec_bytes_received c, tr_echo_verified = verified\<rparr>, x)))"

text \<open>Closing a round of the stress test: poll until the server listens again or the time is over.\<close>

fun close_loop ::
  "('t, 'u, 's, 'i, 'v) smoltcp \<Rightarrow> ('t, 's, 'i, 'v) smoltcp_sync \<Rightarrow> nat list \<Rightarrow> ('s, 'i, 'v) echo_test \<Rightarrow> ('s, 'i, 'v) echo_test outcome" where
  "close_loop S E [] x = Ret x"
| "close_loop S E (timestamp # polls) x =
     bind_outcome (echo_round S E timestamp x) (\<lambda>x.
       bind_outcome (echo_server_is_ready S (fst x) (snd (snd (snd (snd x))))) (\<lambda>ready.
         if ready then Ret x else close_loop S E polls x))"

definition stress_local_port :: "nat \<Rightarrow> u16 outcome" where
  "stress_local_port round =
     (let n = (of_nat round :: u16) in
      if 49152 + unat n < 65536 then Ret (49152 + n) else Panic ''attempt to add with overflow'')"

definition stress_message :: "nat \<Rightarrow> nat \<Rightarrow> bytes" where
  "stress_message round msg_num = ascii (''Round'' @ show_nat round @ ''-Msg'' @ show_nat msg_num)"

text \<open>The rounds of the stress test, each with the times of its two loops.\<close>

fun stress_rounds ::
  "('t, 'u, 's, 'i, 'v) smoltcp \<Rightarrow> ('t, 's, 'i, 'v) smoltcp_sync \<Rightarrow> Ipv4Addr \<Rightarrow> nat \<Rightarrow> nat \<Rightarrow> (nat list \<times> nat list) list \<Rightarrow>
     EchoServer \<times> 'v \<times> 'i \<times> 's \<Rightarrow> bool \<Rightarrow> EchoTestResult list \<Rightarrow>
     (bool \<times> EchoTestResult list \<times> EchoServer \<times> 'v \<times> 'i \<times> 's) outcome" where
  "stress_rounds S E server_ip messages round [] x all_passed results = Ret (all_passed, results, x)"
| "stress_rounds S E server_ip messages round ((test_polls, close_polls) # rounds) (srv, v, i, s) all_passed results =
     bind_outcome (stress_local_port round) (\<lambda>local_port.
       bind_outcome (echo_client_new S server_ip (es_port srv) local_port socket_config_default (s, i)) (\<lambda>(c, s, i).
         let c = fold (\<lambda>msg_num. echo_client_send (stress_message round msg_num)) [0..<messages] c in
         bind_outcome (run_echo_test S E test_polls (srv, c, v, i, s)) (\<lambda>(result, srv, c, v, i, s).
           bind_outcome (echo_client_close S c s) (\<lambda>s.
             bind_outcome (close_loop S E close_polls (srv, c, v, i, s)) (\<lambda>(srv, c, v, i, s).
               bind_outcome (echo_client_remove S c s) (\<lambda>s.
                 stress_rounds S E server_ip messages (round + 1) rounds (srv, v, i, s)
                   (all_passed \<and> tr_echo_verified result) (results @ [result])))))))"

definition run_stress_test ::
  "('t, 'u, 's, 'i, 'v) smoltcp \<Rightarrow> ('t, 's, 'i, 'v) smoltcp_sync \<Rightarrow> Ipv4Addr \<Rightarrow> nat \<Rightarrow> (nat list \<times> nat list) list \<Rightarrow>
     EchoServer \<times> 'v \<times> 'i \<times> 's \<Rightarrow> (bool \<times> EchoTestResult list \<times> EchoServer \<times> 'v \<times> 'i \<times> 's) outcome" where
  "run_stress_test S E server_ip messages_per_round rounds x =
     stress_rounds S E server_ip messages_per_round 0 rounds x True []"

subsection \<open>The server loop\<close>

text \<open>
  \<^verbatim>\<open>run_echo_server\<close>: as long as the flag is set, poll and process; both branches of the code call
  \<open>process\<close> and differ in what they print. The list says what the flag reads and the time.
\<close>

record EchoServerConfig =
  esc_status_interval_secs :: u64
  esc_waiting_message_interval :: u64
  esc_poll_interval_us :: u64
  esc_max_pending_tx_bytes :: usize

definition echo_server_config_default :: EchoServerConfig where
  "echo_server_config_default =
     \<lparr>esc_status_interval_secs = 10, esc_waiting_message_interval = 10000, esc_poll_interval_us = 100,
      esc_max_pending_tx_bytes = 0\<rparr>"

record EchoServerStats =
  ess_bytes_received :: u64
  ess_bytes_sent :: u64
  ess_connections :: u64
  ess_send_errors :: u64
  ess_bytes_dropped :: u64

record EchoServerResult =
  esr_stats :: EchoServerStats
  esr_runtime_secs :: u64

fun echo_server_loop ::
  "('t, 'u, 's, 'i, 'v) smoltcp \<Rightarrow> ('t, 's, 'i, 'v) smoltcp_sync \<Rightarrow> (bool \<times> nat) list \<Rightarrow> EchoServer \<times> 'v \<times> 'i \<times> 's
     \<Rightarrow> (EchoServer \<times> 'v \<times> 'i \<times> 's) outcome" where
  "echo_server_loop S E [] x = Ret x"
| "echo_server_loop S E ((running, timestamp) # turns) (srv, v, i, s) =
     (if \<not> running then Ret (srv, v, i, s)
      else
        let (v, i, s) = iface_poll E timestamp v i s in
        bind_outcome (echo_server_state S srv s) (\<lambda>state.
          bind_outcome (echo_server_is_connected S srv s) (\<lambda>is_connected.
            bind_outcome (echo_server_process S E srv s) (\<lambda>(echoed, srv, s). echo_server_loop S E turns (srv, v, i, s)))))"

definition run_echo_server ::
  "('t, 'u, 's, 'i, 'v) smoltcp \<Rightarrow> ('t, 's, 'i, 'v) smoltcp_sync \<Rightarrow> EchoServerConfig \<Rightarrow> u16 \<Rightarrow> (bool \<times> nat) list \<Rightarrow> u64 \<Rightarrow>
     'v \<times> 'i \<times> 's \<Rightarrow> (EchoServerResult \<times> EchoServer \<times> 'v \<times> 'i \<times> 's) outcome" where
  "run_echo_server S E config port turns elapsed_secs x =
     (let (v, i, s) = x;
          socket_config = (if esc_max_pending_tx_bytes config > 0
            then socket_config_new (esc_max_pending_tx_bytes config) (esc_max_pending_tx_bytes config)
            else socket_config_default)
      in bind_outcome (echo_server_new S port socket_config s) (\<lambda>(srv, s).
           bind_outcome (echo_server_loop S E turns (srv, v, i, s)) (\<lambda>(srv, v, i, s).
             Ret (\<lparr>esr_stats = \<lparr>ess_bytes_received = of_nat (es_bytes_received srv), ess_bytes_sent = of_nat (es_bytes_sent srv),
                     ess_connections = of_nat (es_connections srv), ess_send_errors = 0, ess_bytes_dropped = 0\<rparr>,
                   esr_runtime_secs = elapsed_secs\<rparr>, srv, v, i, s))))"

definition format_time :: "u64 \<Rightarrow> string" where
  "format_time now_secs =
     (let secs = unat now_secs mod 86400;
          show2 = (\<lambda>n. if n < 10 then ''0'' @ show_nat n else show_nat n)
      in show2 (secs div 3600) @ '':'' @ show2 (secs mod 3600 div 60) @ '':'' @ show2 (secs mod 60))"

subsection \<open>Properties\<close>

definition sync_laws ::
  "('t, 'u, 's, 'i, 'v) smoltcp \<Rightarrow> ('t, 's, 'i, 'v) smoltcp_sync \<Rightarrow> ('t \<Rightarrow> bytes) \<Rightarrow> ('t \<Rightarrow> bytes) \<Rightarrow> bool" where
  "sync_laws S E accepted delivered \<longleftrightarrow> socket_set_laws S \<and> echo_laws S accepted delivered \<and>
     (\<forall>t. case tcp_recv_all E t of (res, t') \<Rightarrow> accepted t' = accepted t \<and>
        delivered t' = delivered t @ (case res of Ok bs \<Rightarrow> bs | Err e \<Rightarrow> []))"

lemma recv_some_views:
  assumes "sync_laws S E accepted delivered" and "recv_some E t = (data, t')"
  shows "accepted t' = accepted t" "delivered t' = delivered t @ data"
proof -
  have "case tcp_recv_all E t of (res, t') \<Rightarrow> accepted t' = accepted t \<and>
      delivered t' = delivered t @ (case res of Ok bs \<Rightarrow> bs | Err e \<Rightarrow> [])"
    by (rule assms(1) [unfolded sync_laws_def, THEN conjunct2, THEN conjunct2, THEN spec [of _ t]])
  with assms(2) show "accepted t' = accepted t" "delivered t' = delivered t @ data"
    by (auto simp: recv_some_def split: if_splits prod.splits Result.splits)
qed

lemma send_slice_views:
  assumes "sync_laws S E accepted delivered" and "tcp_send_slice S bs t = (res, t')"
  shows "delivered t' = delivered t"
    and "res = Ok n \<Longrightarrow> n \<le> length bs \<and> accepted t' = accepted t @ take n bs"
    and "res = Err e \<Longrightarrow> accepted t' = accepted t"
proof -
  have L: "echo_laws S accepted delivered" using assms(1) by (simp add: sync_laws_def)
  show "delivered t' = delivered t" by (rule echo_lawsD(4) [OF L assms(2)])
  show "res = Ok n \<Longrightarrow> n \<le> length bs \<and> accepted t' = accepted t @ take n bs" "res = Err e \<Longrightarrow> accepted t' = accepted t"
    using stream_lawsD(1,2) [OF echo_lawsD(1) [OF L]] assms(2) by metis+
qed

text \<open>
  The server on a connection: if so far its socket was given \<open>a\<close>, and has delivered \<open>a\<close> followed by
  what is pending, this is also true after \<open>process\<close>, and the bytes it reports as echoed are the
  ones it has given to the socket.
\<close>

definition server_views ::
  "('t \<Rightarrow> bytes) \<Rightarrow> ('t \<Rightarrow> bytes) \<Rightarrow> bytes \<Rightarrow> bytes \<Rightarrow> bytes \<Rightarrow> EchoServer \<Rightarrow> 't \<Rightarrow> bool" where
  "server_views accepted delivered a0 d0 a srv t \<longleftrightarrow> accepted t = a0 @ a \<and> delivered t = d0 @ a @ es_pending_tx srv"

lemma server_receive_views:
  assumes "sync_laws S E accepted delivered" and "server_views accepted delivered a0 d0 a srv t"
    and "server_receive E srv t = (srv', t')"
  shows "server_views accepted delivered a0 d0 a srv' t'" "es_handle srv' = es_handle srv" "es_bytes_sent srv' = es_bytes_sent srv"
    "es_bytes_received srv' + length (es_pending_tx srv) = es_bytes_received srv + length (es_pending_tx srv')"
proof -
  obtain data t1 where r: "recv_some E t = (data, t1)" by fastforce
  show "server_views accepted delivered a0 d0 a srv' t'" "es_handle srv' = es_handle srv" "es_bytes_sent srv' = es_bytes_sent srv"
    "es_bytes_received srv' + length (es_pending_tx srv) = es_bytes_received srv + length (es_pending_tx srv')"
    using assms(2,3) recv_some_views [OF assms(1) r]
    by (auto simp: server_receive_def server_views_def r Let_def split: if_splits)
qed

lemma server_send_views:
  assumes "sync_laws S E accepted delivered" and "server_views accepted delivered a0 d0 a srv t"
  shows "\<exists>n srv' t'. server_send S E srv t = Ret (n, srv', t') \<and> n \<le> length (es_pending_tx srv) \<and>
    server_views accepted delivered a0 d0 (a @ take n (es_pending_tx srv)) srv' t' \<and> es_handle srv' = es_handle srv \<and>
    es_pending_tx srv' = drop n (es_pending_tx srv) \<and>
    es_bytes_sent srv' = es_bytes_sent srv + n \<and> es_bytes_received srv' = es_bytes_received srv"
proof (cases "es_pending_tx srv \<noteq> [] \<and> tcp_can_send E t")
  case True
  obtain res t1 where s: "tcp_send_slice S (es_pending_tx srv) t = (res, t1)" by fastforce
  note V = send_slice_views [OF assms(1) s]
  show ?thesis
  proof (cases res)
    case (Ok n)
    with True s V(1) V(2) [OF Ok] assms(2) show ?thesis
      by (intro exI [of _ n]) (auto simp: server_send_def server_views_def)
  next
    case (Err e)
    with True s V(1) V(3) [OF Err] assms(2) show ?thesis
      by (intro exI [of _ 0]) (auto simp: server_send_def server_views_def)
  qed
next
  case False
  with assms(2) show ?thesis by (intro exI [of _ 0]) (auto simp: server_send_def)
qed


text \<open>The client: what it has sent and received, and what it reports.\<close>

definition client_views ::
  "('t \<Rightarrow> bytes) \<Rightarrow> ('t \<Rightarrow> bytes) \<Rightarrow> bytes \<Rightarrow> bytes \<Rightarrow> EchoClient \<Rightarrow> 't \<Rightarrow> bool" where
  "client_views accepted delivered a0 d0 c t \<longleftrightarrow>
     ec_expected_len c = length (ec_data_to_send c) \<and> ec_send_offset c \<le> length (ec_data_to_send c) \<and>
     accepted t = a0 @ take (ec_send_offset c) (ec_data_to_send c) \<and> delivered t = d0 @ ec_received_data c \<and>
     (ec_state c = Complete \<longrightarrow> ec_expected_len c \<le> length (ec_received_data c))"

lemma client_connected_views:
  assumes "sync_laws S E accepted delivered" and "client_views accepted delivered a0 d0 c t" and "client_connected S E c t = (c', t')"
    and "ec_state c = Connected"
  shows "client_views accepted delivered a0 d0 c' t' \<and> ec_handle c' = ec_handle c \<and> ec_data_to_send c' = ec_data_to_send c"
proof (cases "ec_send_offset c < length (ec_data_to_send c) \<and> tcp_can_send E t")
  case True
  obtain res t1 where s: "tcp_send_slice S (drop (ec_send_offset c) (ec_data_to_send c)) t = (res, t1)" by fastforce
  note V = send_slice_views [OF assms(1) s]
  show ?thesis
  proof (cases res)
    case (Ok n)
    with V(2) [OF Ok] V(1) True s assms(2-4) show ?thesis
      by (auto simp: client_connected_def client_views_def take_add Let_def split: if_splits)
  next
    case (Err e)
    with V(3) [OF Err] V(1) True s assms(2-4) show ?thesis
      by (auto simp: client_connected_def client_views_def Let_def split: if_splits)
  qed
next
  case False
  with assms(2-4) show ?thesis by (auto simp: client_connected_def client_views_def Let_def split: if_splits)
qed

lemma client_waiting_views:
  assumes "sync_laws S E accepted delivered" and "client_views accepted delivered a0 d0 c t" and "client_waiting E c t = (c', t')"
    and "ec_state c = WaitingForEcho"
  shows "client_views accepted delivered a0 d0 c' t' \<and> ec_handle c' = ec_handle c \<and> ec_data_to_send c' = ec_data_to_send c"
proof -
  obtain data t1 where r: "recv_some E t = (data, t1)" by fastforce
  show ?thesis
    using assms(2-4) recv_some_views [OF assms(1) r]
    by (auto simp: client_waiting_def client_views_def r Let_def split: if_splits)
qed

lemma echo_client_process_views:
  assumes "sync_laws S E accepted delivered" and "set_get S s (ec_handle c) = Some (TcpSock t)"
    and "client_views accepted delivered a0 d0 c t"
  shows "\<exists>b c' s' t'. echo_client_process S E c s = Ret (b, c', s') \<and> ec_handle c' = ec_handle c \<and>
    set_get S s' = (set_get S s)(ec_handle c \<mapsto> TcpSock t') \<and> client_views accepted delivered a0 d0 c' t' \<and>
    ec_data_to_send c' = ec_data_to_send c"
proof -
  obtain c1 t1 where 1: "(case ec_state c of Connecting \<Rightarrow> client_connecting S c t | Connected \<Rightarrow> client_connected S E c t
      | WaitingForEcho \<Rightarrow> client_waiting E c t | _ \<Rightarrow> (c, t)) = (c1, t1)" by fastforce
  have V: "client_views accepted delivered a0 d0 c1 t1 \<and> ec_handle c1 = ec_handle c \<and> ec_data_to_send c1 = ec_data_to_send c"
  proof (cases "ec_state c")
    case Connecting
    with 1 assms(3) show ?thesis by (auto simp: client_connecting_def client_views_def split: if_splits)
  next
    case Connected
    with 1 show ?thesis by (intro client_connected_views [OF assms(1,3)]) simp_all
  next
    case WaitingForEcho
    with 1 show ?thesis by (intro client_waiting_views [OF assms(1,3)]) simp_all
  qed (use 1 assms(3) in simp_all)
  define c2 where "c2 = (if \<not> tcp_is_open E t1 \<and> ec_state c1 \<noteq> Complete then c1\<lparr>ec_state := ClientClosed\<rparr> else c1)"
  have "client_views accepted delivered a0 d0 c2 t1 \<and> ec_handle c2 = ec_handle c \<and> ec_data_to_send c2 = ec_data_to_send c"
    using V by (auto simp: c2_def client_views_def)
  moreover have "echo_client_process S E c s = Ret (ec_state c2 \<noteq> ec_state c, c2, set_put S (ec_handle c2) (TcpSock t1) s)"
    unfolding echo_client_process_def get_tcp_Ret [THEN iffD2, OF assms(2)] bind_outcome.simps Let_def 1
    by (simp add: c2_def)
  moreover have "set_get S (set_put S (ec_handle c) (TcpSock t1) s) = (set_get S s)(ec_handle c \<mapsto> TcpSock t1)"
    using set_putD [of S] assms(1,2) by (simp add: sync_laws_def)
  ultimately show ?thesis by auto
qed

text \<open>
  When the peer echoes, that is when the client has received a prefix of its data or all of it, the
  client reports success exactly when it has received as much as it sent; in particular when it is
  complete.
\<close>

lemma verify_echo_correct:
  assumes "client_views accepted delivered a0 d0 c t"
    and "take (length (ec_data_to_send c)) (ec_received_data c) = take (length (ec_received_data c)) (ec_data_to_send c)"
  shows "verify_echo c = Ret (length (ec_data_to_send c) \<le> length (ec_received_data c))"
    and "ec_state c = Complete \<Longrightarrow> verify_echo c = Ret True"
  using assms by (auto simp: verify_echo_def client_views_def)

text \<open>An active connection of the instance, with two bytes to receive and room for one.\<close>

definition sim_sync :: "(sim_tcp, sim_set, unit, unit) smoltcp_sync" where
  "sim_sync =
     \<lparr>tcp_is_open = (\<lambda>t. st_state t \<noteq> Closed), tcp_can_recv = (\<lambda>t. st_rx t \<noteq> []), tcp_can_send = (\<lambda>t. st_room t > 0),
      tcp_recv_all = (\<lambda>t. (Ok (st_rx t), t\<lparr>st_rx := [], st_delivered := st_delivered t @ st_rx t\<rparr>)),
      iface_poll = (\<lambda>ts v i s. (v, i, s))\<rparr>"

lemma sim_sync_laws: "sync_laws sim_stack sim_sync st_accepted st_delivered"
  using sim_socket_set_laws sim_echo_laws by (simp add: sync_laws_def sim_sync_def)


end
