(* ===== verification/Raw_Udp.thy ===== *)
theory Raw_Udp
  imports Dpdk_Device
begin

section \<open>The raw UDP socket\<close>

text \<open>
  A model of \<^verbatim>\<open>dpdk-net-test/src/udp.rs\<close>, a UDP socket directly over the queues of a port. It
  writes and reads headers with the packet views of smoltcp (\<open>EthernetFrame\<close>, \<open>Ipv4Packet\<close>,
  \<open>UdpPacket\<close>), which are a parameter: the record \<open>wire\<close>. A view is over a slice, so that a setter
  maps a slice to a slice; the payload of a view is a range of its slice. \<open>wire_layout\<close> names what
  the properties assume: every field is where its standard says, in network byte order, and the
  length of an IPv4 header is given and returned in octets.
\<close>

subsection \<open>The packet views\<close>

record wire =
  eth_set_dst_addr :: "MacAddress \<Rightarrow> bytes \<Rightarrow> bytes"
  eth_set_src_addr :: "MacAddress \<Rightarrow> bytes \<Rightarrow> bytes"
  eth_set_ethertype :: "u16 \<Rightarrow> bytes \<Rightarrow> bytes"
  eth_ethertype :: "bytes \<Rightarrow> u16"
  eth_payload :: "bytes \<Rightarrow> usize \<times> usize"
  eth_new_checked :: "bytes \<Rightarrow> bool"
  ip_set_version :: "u8 \<Rightarrow> bytes \<Rightarrow> bytes"
  ip_set_header_len :: "u8 \<Rightarrow> bytes \<Rightarrow> bytes"
  ip_set_dscp :: "u8 \<Rightarrow> bytes \<Rightarrow> bytes"
  ip_set_ecn :: "u8 \<Rightarrow> bytes \<Rightarrow> bytes"
  ip_set_total_len :: "u16 \<Rightarrow> bytes \<Rightarrow> bytes"
  ip_set_ident :: "u16 \<Rightarrow> bytes \<Rightarrow> bytes"
  ip_clear_flags :: "bytes \<Rightarrow> bytes"
  ip_set_frag_offset :: "u16 \<Rightarrow> bytes \<Rightarrow> bytes"
  ip_set_hop_limit :: "u8 \<Rightarrow> bytes \<Rightarrow> bytes"
  ip_set_next_header :: "u8 \<Rightarrow> bytes \<Rightarrow> bytes"
  ip_set_src_addr :: "Ipv4Addr \<Rightarrow> bytes \<Rightarrow> bytes"
  ip_set_dst_addr :: "Ipv4Addr \<Rightarrow> bytes \<Rightarrow> bytes"
  ip_set_checksum :: "u16 \<Rightarrow> bytes \<Rightarrow> bytes"
  ip_fill_checksum :: "bytes \<Rightarrow> bytes"
  ip_next_header :: "bytes \<Rightarrow> u8"
  ip_src_addr :: "bytes \<Rightarrow> Ipv4Addr"
  ip_payload :: "bytes \<Rightarrow> usize \<times> usize"
  ip_new_checked :: "bytes \<Rightarrow> bool"
  udp_set_src_port :: "u16 \<Rightarrow> bytes \<Rightarrow> bytes"
  udp_set_dst_port :: "u16 \<Rightarrow> bytes \<Rightarrow> bytes"
  udp_set_len :: "u16 \<Rightarrow> bytes \<Rightarrow> bytes"
  udp_set_checksum :: "u16 \<Rightarrow> bytes \<Rightarrow> bytes"
  udp_src_port :: "bytes \<Rightarrow> u16"
  udp_dst_port :: "bytes \<Rightarrow> u16"
  udp_payload :: "bytes \<Rightarrow> usize \<times> usize"
  udp_new_checked :: "bytes \<Rightarrow> bool"

text \<open>The part of a slice in a range, and working on it in place; both panic outside the slice.\<close>

definition slice_at :: "usize \<times> usize \<Rightarrow> bytes \<Rightarrow> bytes outcome" where
  "slice_at rg b =
     (case rg of (i, j) \<Rightarrow>
       if i \<le> j \<and> j \<le> length b then Ret (take (j - i) (drop i b)) else Panic ''range end index out of range for slice'')"

definition in_slice :: "usize \<times> usize \<Rightarrow> (bytes \<Rightarrow> bytes outcome) \<Rightarrow> bytes \<Rightarrow> bytes outcome" where
  "in_slice rg f b =
     bind_outcome (slice_at rg b) (\<lambda>s. bind_outcome (f s) (\<lambda>s. Ret (write_at (fst rg) s b)))"

subsection \<open>The socket\<close>

datatype SocketError = NotBound | InvalidEndpoint | BufferFull | NoPackets | QueueError

record Endpoint =
  ep_addr :: Ipv4Addr
  ep_port :: u16

definition endpoint_new :: "Ipv4Addr \<Rightarrow> u16 \<Rightarrow> Endpoint" where
  "endpoint_new addr port = \<lparr>ep_addr = addr, ep_port = port\<rparr>"

definition is_specified :: "Endpoint \<Rightarrow> bool" where
  "is_specified ep \<longleftrightarrow> ep_addr ep \<noteq> Ipv4 0 0 0 0 \<and> ep_port ep \<noteq> 0"

record RawUdpSocket =
  us_local_endpoint :: "Endpoint option"
  us_local_mac :: MacAddress
  us_rxq :: "RxQueue option"
  us_txq :: "TxQueue option"
  us_mempool :: "ptr option"
  us_tx_batch :: "Mbuf list"
  us_rx_batch :: "Mbuf list"

definition raw_udp_new :: RawUdpSocket where
  "raw_udp_new =
     \<lparr>us_local_endpoint = None, us_local_mac = Mac 0 0 0 0 0 0, us_rxq = None, us_txq = None, us_mempool = None,
      us_tx_batch = [], us_rx_batch = []\<rparr>"

definition raw_udp_bind :: "Endpoint \<Rightarrow> RawUdpSocket \<Rightarrow> (unit, SocketError) Result \<times> RawUdpSocket" where
  "raw_udp_bind endpoint s =
     (if ep_port endpoint = 0 then (Err InvalidEndpoint, s) else (Ok (), s\<lparr>us_local_endpoint := Some endpoint\<rparr>))"

definition raw_udp_set_local_mac :: "MacAddress \<Rightarrow> RawUdpSocket \<Rightarrow> RawUdpSocket" where
  "raw_udp_set_local_mac mac s = s\<lparr>us_local_mac := mac\<rparr>"

definition raw_udp_attach_queues :: "RxQueue \<Rightarrow> TxQueue \<Rightarrow> ptr \<Rightarrow> RawUdpSocket \<Rightarrow> (unit, SocketError) Result \<times> RawUdpSocket" where
  "raw_udp_attach_queues rxq txq mempool s =
     (Ok (), s\<lparr>us_rxq := Some rxq, us_txq := Some txq, us_mempool := Some mempool\<rparr>)"

definition raw_udp_is_bound :: "RawUdpSocket \<Rightarrow> bool" where
  "raw_udp_is_bound s = (us_local_endpoint s \<noteq> None)"

definition raw_udp_can_send :: "RawUdpSocket \<Rightarrow> bool" where
  "raw_udp_can_send s = (length (us_tx_batch s) < 64)"

subsection \<open>Sending\<close>

definition build_ipv4 :: "wire \<Rightarrow> Endpoint \<Rightarrow> Endpoint \<Rightarrow> bytes \<Rightarrow> bytes \<Rightarrow> bytes" where
  "build_ipv4 W local remote data b =
     (let b = ip_set_version W 4 b;
          b = ip_set_header_len W 5 b;
          b = ip_set_dscp W 0 b;
          b = ip_set_ecn W 0 b;
          b = ip_set_total_len W (of_nat (20 + 8 + length data)) b;
          b = ip_set_ident W 0 b;
          b = ip_clear_flags W b;
          b = ip_set_frag_offset W 0 b;
          b = ip_set_hop_limit W 64 b;
          b = ip_set_next_header W 17 b;
          b = ip_set_src_addr W (ep_addr local) b;
          b = ip_set_dst_addr W (ep_addr remote) b;
          b = ip_set_checksum W 0 b
      in ip_fill_checksum W b)"

definition build_udp :: "wire \<Rightarrow> Endpoint \<Rightarrow> Endpoint \<Rightarrow> bytes \<Rightarrow> bytes \<Rightarrow> bytes outcome" where
  "build_udp W local remote data b =
     (let b = udp_set_src_port W (ep_port local) b;
          b = udp_set_dst_port W (ep_port remote) b;
          b = udp_set_len W (of_nat (8 + length data)) b;
          b = udp_set_checksum W 0 b
      in in_slice (udp_payload W b) (\<lambda>p. in_slice (0, length data) (\<lambda>_. Ret data) p) b)"

definition build_udp_frame ::
  "wire \<Rightarrow> MacAddress \<Rightarrow> MacAddress \<Rightarrow> Endpoint \<Rightarrow> Endpoint \<Rightarrow> bytes \<Rightarrow> bytes \<Rightarrow> bytes outcome" where
  "build_udp_frame W local_mac remote_mac local remote data b =
     (let b = eth_set_dst_addr W remote_mac b;
          b = eth_set_src_addr W local_mac b;
          b = eth_set_ethertype W 0x0800 b
      in in_slice (eth_payload W b)
           (\<lambda>p. let p = build_ipv4 W local remote data p in in_slice (ip_payload W p) (build_udp W local remote data) p) b)"

definition raw_udp_send_to ::
  "'d dpdk \<Rightarrow> wire \<Rightarrow> bytes \<Rightarrow> Endpoint \<Rightarrow> MacAddress \<Rightarrow> RawUdpSocket \<Rightarrow> 'd world
     \<Rightarrow> ((unit, SocketError) Result \<times> RawUdpSocket \<times> 'd world) outcome" where
  "raw_udp_send_to D W data remote remote_mac s w =
     (case us_local_endpoint s of
        None \<Rightarrow> Ret (Err NotBound, s, w)
      | Some local \<Rightarrow>
          if \<not> is_specified remote then Ret (Err InvalidEndpoint, s, w)
          else
            (case us_mempool s of
               None \<Rightarrow> Ret (Err QueueError, s, w)
             | Some mempool \<Rightarrow>
                 (case mempool_try_alloc D mempool w of
                    (None, w) \<Rightarrow> Ret (Err BufferFull, s, w)
                  | (Some mbuf, w) \<Rightarrow>
                      let w = mbuf_extend D mbuf (14 + 20 + 8 + length data) w;
                          (p, n) = mbuf_data_mut D mbuf w
                      in bind_outcome
                           (build_udp_frame W (us_local_mac s) remote_mac local remote data (from_raw_parts (mem w) p n))
                           (\<lambda>frame.
                             let w = w\<lparr>mem := write_raw (mem w) p frame\<rparr> in
                             if length (us_tx_batch s) < 64
                             then Ret (Ok (), s\<lparr>us_tx_batch := us_tx_batch s @ [mbuf]\<rparr>, w)
                             else Ret (Err BufferFull, s, mbuf_drop D mbuf w)))))"

text \<open>The loop of \<open>flush\<close> ends only when the batch is empty: \<open>None\<close> is a call that does not return.\<close>

partial_function (option) flush_loop ::
  "'d dpdk \<Rightarrow> TxQueue \<Rightarrow> usize \<Rightarrow> Mbuf list \<Rightarrow> 'd world \<Rightarrow> (usize \<times> Mbuf list \<times> 'd world) outcome option" where
  "flush_loop D q sent batch w =
     (if batch = [] then Some (Ret (sent, batch, w))
      else
        (case tx_queue_tx D q batch w of
           Panic msg \<Rightarrow> Some (Panic msg)
         | Ret (n, batch, w) \<Rightarrow> flush_loop D q (sent + n) batch w))"

definition raw_udp_flush ::
  "'d dpdk \<Rightarrow> RawUdpSocket \<Rightarrow> 'd world \<Rightarrow> ((usize, SocketError) Result \<times> RawUdpSocket \<times> 'd world) outcome option" where
  "raw_udp_flush D s w =
     (if us_tx_batch s = [] then Some (Ret (Ok 0, s, w))
      else
        (case us_txq s of
           None \<Rightarrow> Some (Ret (Err QueueError, s, w))
         | Some txq \<Rightarrow>
             map_option (\<lambda>x. bind_outcome x (\<lambda>(sent, batch, w). Ret (Ok sent, s\<lparr>us_tx_batch := batch\<rparr>, w)))
               (flush_loop D txq 0 (us_tx_batch s) w)))"

text \<open>Dropping the socket flushes it and drops the buffers it holds.\<close>

definition raw_udp_drop :: "'d dpdk \<Rightarrow> RawUdpSocket \<Rightarrow> 'd world \<Rightarrow> 'd world outcome option" where
  "raw_udp_drop D s w =
     map_option (\<lambda>x. bind_outcome x (\<lambda>(res, s, w).
       Ret (fold (mbuf_drop D) (us_rx_batch s) (fold (mbuf_drop D) (us_tx_batch s)
         (case us_mempool s of Some mempool \<Rightarrow> mempool_drop D mempool w | None \<Rightarrow> w)))))
     (raw_udp_flush D s w)"

subsection \<open>Receiving\<close>

definition raw_udp_poll :: "'d dpdk \<Rightarrow> RawUdpSocket \<Rightarrow> 'd world \<Rightarrow> (usize, SocketError) Result \<times> RawUdpSocket \<times> 'd world" where
  "raw_udp_poll D s w =
     (case us_rxq s of
        None \<Rightarrow> (Err QueueError, s, w)
      | Some rxq \<Rightarrow>
          let (received, batch, w) = rx_queue_rx D rxq 64 (us_rx_batch s) w
          in (Ok received, s\<lparr>us_rx_batch := batch\<rparr>, w))"

text \<open>The checks of a received frame, and the sender when it is for the port.\<close>

definition parse_udp_frame :: "wire \<Rightarrow> u16 \<Rightarrow> bytes \<Rightarrow> (Endpoint, SocketError) Result outcome" where
  "parse_udp_frame W port frame =
     (if \<not> eth_new_checked W frame then Ret (Err QueueError)
      else if eth_ethertype W frame \<noteq> 0x0800 then Ret (Err QueueError)
      else bind_outcome (slice_at (eth_payload W frame) frame) (\<lambda>p.
        if \<not> ip_new_checked W p then Ret (Err QueueError)
        else if ip_next_header W p \<noteq> 17 then Ret (Err QueueError)
        else bind_outcome (slice_at (ip_payload W p) p) (\<lambda>u.
          if \<not> udp_new_checked W u then Ret (Err QueueError)
          else if udp_dst_port W u \<noteq> port then Ret (Err QueueError)
          else Ret (Ok (endpoint_new (ip_src_addr W p) (udp_src_port W u))))))"

definition raw_udp_recv_from ::
  "'d dpdk \<Rightarrow> wire \<Rightarrow> RawUdpSocket \<Rightarrow> 'd world \<Rightarrow> ((Mbuf \<times> Endpoint, SocketError) Result \<times> RawUdpSocket \<times> 'd world) outcome" where
  "raw_udp_recv_from D W s w =
     (case us_local_endpoint s of
        None \<Rightarrow> Ret (Err NotBound, s, w)
      | Some local \<Rightarrow>
          if us_rx_batch s = [] then Ret (Err NoPackets, s, w)
          else
            let mbuf = last (us_rx_batch s);
                s = s\<lparr>us_rx_batch := butlast (us_rx_batch s)\<rparr>
            in bind_outcome (parse_udp_frame W (ep_port local) (mbuf_data D mbuf w)) (\<lambda>res.
                 case res of
                   Err e \<Rightarrow> Ret (Err e, s, mbuf_drop D mbuf w)
                 | Ok remote \<Rightarrow> Ret (Ok (mbuf, remote), s, w)))"

subsection \<open>Flushing\<close>

text \<open>The bursts of \<open>flush\<close>, as many as are asked for.\<close>

fun bursts :: "'d dpdk \<Rightarrow> TxQueue \<Rightarrow> nat \<Rightarrow> Mbuf list \<Rightarrow> 'd world \<Rightarrow> (Mbuf list \<times> 'd world) outcome" where
  "bursts D q 0 batch w = Ret (batch, w)"
| "bursts D q (Suc n) batch w =
     (if batch = [] then Ret (batch, w) else bind_outcome (tx_queue_tx D q batch w) (\<lambda>(sent, batch, w). bursts D q n batch w))"

lemma flush_loop_returns:
  assumes "dpdk_laws D V"
  shows "bursts D q n batch w = Ret ([], w') \<Longrightarrow> flush_loop D q sent batch w = Some (Ret (sent + length batch, [], w'))"
proof (induction n arbitrary: sent batch w)
  case 0
  then show ?case by (subst flush_loop.simps) simp
next
  case (Suc n)
  show ?case
  proof (cases "batch = []")
    case True
    with Suc.prems show ?thesis by (subst flush_loop.simps) simp
  next
    case False
    obtain m w1 where tx: "tx_queue_tx D q batch w = Ret (m, drop m batch, w1)" "m \<le> length batch"
      using pq.tx_prefix [OF assms] by blast
    then have "bursts D q n (drop m batch) w1 = Ret ([], w')" using Suc.prems False by simp
    from Suc.IH [OF this, of "sent + m"] tx False show ?thesis by (subst flush_loop.simps) simp
  qed
qed

lemma flush_loop_bursts:
  "flush_loop D q sent batch w = Some y \<Longrightarrow> dpdk_laws D V \<Longrightarrow> \<exists>n w'. bursts D q n batch w = Ret ([], w')"
proof (erule flush_loop.raw_induct [where P = "\<lambda>D q sent batch w y. dpdk_laws D V \<longrightarrow> (\<exists>n w'. bursts D q n batch w = Ret ([], w'))", THEN mp, rotated],
    assumption, rule impI, goal_cases)
  case (1 f D q sent batch w y)
  show ?case
  proof (cases "batch = []")
    case True
    then have "bursts D q 0 batch w = Ret ([], w)" by simp
    then show ?thesis by blast
  next
    case False
    obtain m w1 where tx: "tx_queue_tx D q batch w = Ret (m, drop m batch, w1)"
      using pq.tx_prefix [OF 1(4)] by blast
    then have "f D q (sent + m) (drop m batch) w1 = Some y" using 1(3) False by simp
    from 1(2) [OF this, THEN mp, OF 1(4)] obtain n w' where "bursts D q n (drop m batch) w1 = Ret ([], w')" by blast
    then have "bursts D q (Suc n) batch w = Ret ([], w')" using tx False by simp
    then show ?thesis by blast
  qed
qed

text \<open>
  A flush returns exactly when the hardware takes the whole batch in finitely many bursts, and then
  it has sent every packet of the batch. When the transmit ring stays full, neither \<open>flush\<close> nor the
  drop of the socket returns (C17).
\<close>

theorem raw_udp_flush_returns_iff:
  assumes "dpdk_laws D V" and "us_txq s = Some q"
  shows "(if \<exists>n w'. bursts D q n (us_tx_batch s) w = Ret ([], w')
     then \<exists>w'. raw_udp_flush D s w = Some (Ret (Ok (length (us_tx_batch s)), s\<lparr>us_tx_batch := []\<rparr>, w'))
     else raw_udp_flush D s w = None \<and> raw_udp_drop D s w = None)"
proof (cases "\<exists>n w'. bursts D q n (us_tx_batch s) w = Ret ([], w')")
  case drained: True
  then obtain n w' where "bursts D q n (us_tx_batch s) w = Ret ([], w')" by blast
  note r = flush_loop_returns [OF assms(1) this, of 0]
  show ?thesis
  proof (cases "us_tx_batch s = []")
    case True
    then have "s\<lparr>us_tx_batch := []\<rparr> = s" by simp
    then have "raw_udp_flush D s w = Some (Ret (Ok (length (us_tx_batch s)), s\<lparr>us_tx_batch := []\<rparr>, w))"
      using True by (simp add: raw_udp_flush_def)
    with drained show ?thesis by auto
  qed (use drained r assms(2) in \<open>auto simp: raw_udp_flush_def\<close>)
next
  case False
  have "us_tx_batch s \<noteq> []"
  proof
    assume "us_tx_batch s = []"
    then have "bursts D q 0 (us_tx_batch s) w = Ret ([], w)" by simp
    with False show False by blast
  qed
  moreover have "flush_loop D q 0 (us_tx_batch s) w = None"
    using False flush_loop_bursts [OF _ assms(1)] by (cases "flush_loop D q 0 (us_tx_batch s) w") auto
  ultimately show ?thesis using False assms(2) by (simp add: raw_udp_flush_def raw_udp_drop_def)
qed

definition sim_raw_udp :: RawUdpSocket where
  "sim_raw_udp = raw_udp_new\<lparr>us_txq := Some (tx_queue_new 0 0), us_tx_batch := [1, 2]\<rparr>"

lemma sim_tx_full:
  assumes "sim_tx_room (rte w) = 0"
  shows "\<exists>w'. bursts sim_dpdk q n [m] w = Ret ([m], w')"
  using assms
proof (induction n arbitrary: w)
  case (Suc n)
  have "tx_queue_tx sim_dpdk q [m] w = Ret (0, [m], w\<lparr>rte := (rte w)\<lparr>sim_live := sim_live (rte w), sim_sent := sim_sent (rte w)\<rparr>\<rparr>)"
    using Suc.prems by (simp add: tx_queue_tx_def sim_dpdk_def sim_tx_burst_def Let_def)
  with Suc show ?case by simp
qed simp

theorem raw_udp_flush_returns_iff_witness:
  "(\<exists>w'. raw_udp_flush sim_dpdk sim_raw_udp (sim_world [] [] 2) = Some (Ret (Ok 2, sim_raw_udp\<lparr>us_tx_batch := []\<rparr>, w'))) \<and>
    raw_udp_flush sim_dpdk sim_raw_udp (sim_world [] [] 1) = None"
proof -
  let ?q = "tx_queue_new 0 0"
  have s: "us_txq sim_raw_udp = Some ?q" "us_tx_batch sim_raw_udp = [1, 2]" by (simp_all add: sim_raw_udp_def)
  have "\<exists>w'. bursts sim_dpdk ?q 1 [1, 2] (sim_world [] [] 2) = Ret ([], w')"
    by (simp add: sim_defs tx_queue_tx_def MAX_BURST_SIZE_def Let_def)
  then have 1: "\<exists>n w'. bursts sim_dpdk ?q n (us_tx_batch sim_raw_udp) (sim_world [] [] 2) = Ret ([], w')"
    unfolding s(2) by blast
  obtain w1 where w1: "tx_queue_tx sim_dpdk ?q [1, 2] (sim_world [] [] 1) = Ret (1, [2], w1)" "sim_tx_room (rte w1) = 0"
    by (simp add: sim_defs tx_queue_tx_def MAX_BURST_SIZE_def Let_def)
  have "bursts sim_dpdk ?q n [1, 2] (sim_world [] [] 1) \<noteq> Ret ([], w')" for n w'
    using sim_tx_full [OF w1(2), of ?q _ 2] w1(1) by (cases n) (auto, metis list.distinct(1) old.prod.inject outcome.inject(2))
  then have 2: "\<nexists>n w'. bursts sim_dpdk ?q n (us_tx_batch sim_raw_udp) (sim_world [] [] 1) = Ret ([], w')"
    unfolding s(2) by blast
  show ?thesis
    using raw_udp_flush_returns_iff [OF sim_dpdk_laws s(1), of "sim_world [] [] 2"]
      raw_udp_flush_returns_iff [OF sim_dpdk_laws s(1), of "sim_world [] [] 1"] 1 2 by (auto simp: s(2))
qed

subsection \<open>The frames\<close>

definition be16 :: "u16 \<Rightarrow> bytes" where
  "be16 v = [of_nat (unat v div 256), of_nat (unat v mod 256)]"

definition read_be16 :: "u8 \<Rightarrow> u8 \<Rightarrow> nat" where
  "read_be16 hi lo = 256 * unat hi + unat lo"

text \<open>The fields of the three headers, on slices that hold them.\<close>

definition ethernet_layout :: "wire \<Rightarrow> bool" where
  "ethernet_layout W \<longleftrightarrow> (\<forall>b. 14 \<le> length b \<longrightarrow>
     (\<forall>mac. eth_set_dst_addr W mac b = write_at 0 (mac_bytes mac) b) \<and>
     (\<forall>mac. eth_set_src_addr W mac b = write_at 6 (mac_bytes mac) b) \<and>
     (\<forall>v. eth_set_ethertype W v b = write_at 12 (be16 v) b) \<and> eth_payload W b = (14, length b))"

definition ipv4_layout :: "wire \<Rightarrow> bool" where
  "ipv4_layout W \<longleftrightarrow> (\<forall>b. 20 \<le> length b \<longrightarrow>
     (\<forall>v. ip_set_version W v b = b[0 := or (and (b ! 0) 0x0F) (push_bit 4 v)]) \<and>
     (\<forall>v. ip_set_header_len W v b = b[0 := or (and (b ! 0) 0xF0) (and (v div 4) 0x0F)]) \<and>
     (\<forall>v. ip_set_dscp W v b = b[1 := or (and (b ! 1) 0x03) (push_bit 2 v)]) \<and>
     (\<forall>v. ip_set_ecn W v b = b[1 := or (and (b ! 1) 0xFC) (and v 0x03)]) \<and>
     (\<forall>v. ip_set_total_len W v b = write_at 2 (be16 v) b) \<and>
     (\<forall>v. ip_set_ident W v b = write_at 4 (be16 v) b) \<and>
     (\<exists>v. ip_clear_flags W b = write_at 6 (be16 v) b) \<and>
     (\<forall>v. \<exists>v'. ip_set_frag_offset W v b = write_at 6 (be16 v') b) \<and>
     (\<forall>v. ip_set_hop_limit W v b = b[8 := v]) \<and> (\<forall>v. ip_set_next_header W v b = b[9 := v]) \<and>
     (\<forall>ip. ip_set_src_addr W ip b = write_at 12 (octets ip) b) \<and> (\<forall>ip. ip_set_dst_addr W ip b = write_at 16 (octets ip) b) \<and>
     (\<forall>v. ip_set_checksum W v b = write_at 10 (be16 v) b) \<and> (\<exists>v. ip_fill_checksum W b = write_at 10 (be16 v) b) \<and>
     ip_next_header W b = b ! 9 \<and>
     ip_payload W b = (4 * unat (and (b ! 0) 0x0F), read_be16 (b ! 2) (b ! 3)))"

definition udp_layout :: "wire \<Rightarrow> bool" where
  "udp_layout W \<longleftrightarrow> (\<forall>b. 8 \<le> length b \<longrightarrow>
     (\<forall>v. udp_set_src_port W v b = write_at 0 (be16 v) b) \<and> (\<forall>v. udp_set_dst_port W v b = write_at 2 (be16 v) b) \<and>
     (\<forall>v. udp_set_len W v b = write_at 4 (be16 v) b) \<and> (\<forall>v. udp_set_checksum W v b = write_at 6 (be16 v) b) \<and>
     udp_payload W b = (8, read_be16 (b ! 4) (b ! 5)))"

definition wire_layout :: "wire \<Rightarrow> bool" where
  "wire_layout W \<longleftrightarrow> ethernet_layout W \<and> ipv4_layout W \<and> udp_layout W"

lemma length_be16 [simp]: "length (be16 v) = 2"
  by (simp add: be16_def)

lemma read_be16_be16: "read_be16 (be16 v ! 0) (be16 v ! 1) = unat v"
proof -
  have "unat v div 256 < 256" using unat_u16_less [of v] by (simp add: less_mult_imp_div_less)
  then show ?thesis by (simp add: read_be16_def be16_def unat_of_nat)
qed

lemma length_in_slice:
  assumes "in_slice rg f b = Ret b'" and "\<And>s s'. f s = Ret s' \<Longrightarrow> length s' = length s"
  shows "length b' = length b"
  using assms by (auto simp: in_slice_def slice_at_def bind_outcome_Ret_conv split: if_splits prod.splits)

text \<open>The version is 4, and the length of the header that the code asks for is 5 octets.\<close>

lemma ip_first_byte: "or (and (or (and x 0x0F) (push_bit 4 4)) 0xF0) (and (5 div 4) 0x0F) = (0x41 :: u8)"
proof -
  have "and (or (and x 0x0F) 0x40) 0xF0 = (0x40 :: u8)" for x
    by (simp add: bit.conj_disj_distrib2 and.assoc)
  then show ?thesis by (simp add: push_bit_eq_mult)
qed

text \<open>Setters behind the first four bytes keep those.\<close>

definition same4 :: "bytes \<Rightarrow> bytes \<Rightarrow> bool" where
  "same4 b b' \<longleftrightarrow> length b' = length b \<and> (\<forall>k < 4. b' ! k = b ! k)"

lemma same4_trans: "same4 a b \<Longrightarrow> same4 b c \<Longrightarrow> same4 a c"
  by (simp add: same4_def)

lemma same4_write: "4 \<le> i \<Longrightarrow> i + length ys \<le> length b \<Longrightarrow> same4 b (write_at i ys b)"
  by (simp add: same4_def nth_write_at)

lemma same4_update: "4 \<le> i \<Longrightarrow> same4 b (b[i := v])"
  by (simp add: same4_def)

lemma ip_setters_same4:
  assumes "ipv4_layout W" and "20 \<le> length b"
  shows "same4 b (ip_set_ident W v b)" "same4 b (ip_clear_flags W b)" "same4 b (ip_set_frag_offset W v b)"
    "same4 b (ip_set_hop_limit W h b)" "same4 b (ip_set_next_header W h b)" "same4 b (ip_set_src_addr W ip b)"
    "same4 b (ip_set_dst_addr W ip b)" "same4 b (ip_set_checksum W v b)" "same4 b (ip_fill_checksum W b)"
proof -
  note L = assms(1) [unfolded ipv4_layout_def, rule_format, OF assms(2)]
  have "\<exists>v. ip_clear_flags W b = write_at 6 (be16 v) b" "\<exists>v'. ip_set_frag_offset W v b = write_at 6 (be16 v') b"
    "\<exists>v. ip_fill_checksum W b = write_at 10 (be16 v) b" using L by blast+
  then show "same4 b (ip_clear_flags W b)" "same4 b (ip_set_frag_offset W v b)" "same4 b (ip_fill_checksum W b)"
    using assms(2) by (auto intro!: same4_write)
qed (use assms in \<open>auto simp: ipv4_layout_def intro!: same4_write same4_update\<close>)

lemma build_ipv4_fields:
  assumes "ipv4_layout W" and "20 \<le> length p" and "28 + length data < 65536"
  shows "length (build_ipv4 W local remote data p) = length p" "build_ipv4 W local remote data p ! 0 = 0x41"
    "ip_payload W (build_ipv4 W local remote data p) = (4, 28 + length data)"
proof -
  let ?total = "of_nat (28 + length data) :: u16"
  define p4 where "p4 = ip_set_ecn W 0 (ip_set_dscp W 0 (ip_set_header_len W 5 (ip_set_version W 4 p)))"
  define p5 where "p5 = ip_set_total_len W ?total p4"
  have ne: "p \<noteq> []" using assms(2) by auto
  have p4: "length p4 = length p" "p4 ! 0 = 0x41"
    using assms(1,2) ne ip_first_byte [of "p ! 0"] by (simp_all add: p4_def ipv4_layout_def)
  have p5: "p5 = write_at 2 (be16 ?total) p4" using assms(1,2) p4(1) by (simp add: p5_def ipv4_layout_def del: of_nat_add)
  have p5: "length p5 = length p" "p5 ! 0 = 0x41" "p5 ! 2 = be16 ?total ! 0" "p5 ! 3 = be16 ?total ! 1"
    using p4 ne assms(2) nth_write_at [of 2 "be16 ?total" p4 0] nth_write_at [of 2 "be16 ?total" p4 2] nth_write_at [of 2 "be16 ?total" p4 3]
    unfolding p5 by simp_all
  have next4: "same4 p5 (f b)" if "same4 p5 b" "\<And>b. 20 \<le> length b \<Longrightarrow> same4 b (f b)" for f b
    using that p5(1) assms(2) same4_trans [of p5 b "f b"] by (simp add: same4_def)
  note next_field = next4 [of _ "ip_set_ident W v" for v] next4 [of _ "ip_clear_flags W"] next4 [of _ "ip_set_frag_offset W v" for v]
    next4 [of _ "ip_set_hop_limit W h" for h] next4 [of _ "ip_set_next_header W h" for h] next4 [of _ "ip_set_src_addr W ip" for ip]
    next4 [of _ "ip_set_dst_addr W ip" for ip] next4 [of _ "ip_set_checksum W v" for v] next4 [of _ "ip_fill_checksum W"]
  have start: "ip_set_total_len W (of_nat (20 + 8 + length data)) p4 = p5" by (simp add: p5_def)
  have b4: "same4 p5 (build_ipv4 W local remote data p)"
    unfolding build_ipv4_def Let_def p4_def [symmetric] start
    by (intro next_field ip_setters_same4 [OF assms(1)]) (simp_all add: same4_def)
  then have b: "length (build_ipv4 W local remote data p) = length p" "build_ipv4 W local remote data p ! 0 = 0x41"
    "build_ipv4 W local remote data p ! 2 = be16 ?total ! 0" "build_ipv4 W local remote data p ! 3 = be16 ?total ! 1"
    using p5 by (simp_all add: same4_def)
  then show "length (build_ipv4 W local remote data p) = length p" "build_ipv4 W local remote data p ! 0 = 0x41" by simp_all
  have "read_be16 (be16 ?total ! 0) (be16 ?total ! 1) = 28 + length data"
    unfolding read_be16_be16 using assms(3) by (simp add: unat_of_nat_u16_mod del: of_nat_add)
  then show "ip_payload W (build_ipv4 W local remote data p) = (4, 28 + length data)"
    using assms(1,2) b by (simp add: ipv4_layout_def)
qed

lemma build_udp_bytes:
  assumes "udp_layout W" and "8 + length data \<le> length u" and "8 + length data < 65536"
  shows "build_udp W local remote data u =
    Ret (be16 (ep_port local) @ be16 (ep_port remote) @ be16 (of_nat (8 + length data)) @ be16 0 @ data @ drop (8 + length data) u)"
proof -
  let ?len = "of_nat (8 + length data) :: u16"
  define us where "us = drop 8 u"
  have "length (take 8 u) = 8" using assms(2) by simp
  then obtain u0 u1 u2 u3 u4 u5 u6 u7 where "take 8 u = [u0, u1, u2, u3, u4, u5, u6, u7]"
    by (auto simp: numeral_eq_Suc length_Suc_conv simp del: length_take)
  then have u: "u = [u0, u1, u2, u3, u4, u5, u6, u7] @ us" using append_take_drop_id [of 8 u] by (simp add: us_def)
  define b where "b = be16 (ep_port local) @ be16 (ep_port remote) @ be16 ?len @ be16 0 @ us"
  have b: "udp_set_checksum W 0 (udp_set_len W ?len (udp_set_dst_port W (ep_port remote) (udp_set_src_port W (ep_port local) u))) = b"
    using assms(1) unfolding u b_def by (simp add: udp_layout_def be16_def del: of_nat_add)
  have "b ! 4 = be16 ?len ! 0" "b ! 5 = be16 ?len ! 1" by (simp_all add: b_def be16_def)
  then have "read_be16 (b ! 4) (b ! 5) = 8 + length data"
    using read_be16_be16 [of ?len] assms(3) by (simp add: unat_of_nat_u16_mod del: of_nat_add)
  moreover have "8 \<le> length b" by (simp add: b_def)
  ultimately have range: "udp_payload W b = (8, 8 + length data)" using assms(1) by (simp add: udp_layout_def)
  have len: "length us \<ge> length data" "drop (8 + length data) u = drop (length data) us"
    using assms(2) by (simp_all add: us_def add.commute)
  have "drop 8 b = us" "take 8 b = be16 (ep_port local) @ be16 (ep_port remote) @ be16 ?len @ be16 0" by (simp_all add: b_def be16_def)
  then have "in_slice (8, 8 + length data) (\<lambda>p. in_slice (0, length data) (\<lambda>_. Ret data) p) b =
      Ret (be16 (ep_port local) @ be16 (ep_port remote) @ be16 ?len @ be16 0 @ data @ drop (length data) us)"
    using len(1) by (simp add: in_slice_def slice_at_def write_at_def b_def del: of_nat_add)
  then show ?thesis unfolding build_udp_def Let_def b range len(2) by simp
qed

lemma slice_at_rest: "i \<le> length b \<Longrightarrow> slice_at (i, length b) b = Ret (drop i b)"
  by (simp add: slice_at_def)

lemma in_slice_rest:
  assumes "f (drop i b) = Ret s" and "i \<le> length b" and "length s = length b - i"
  shows "in_slice (i, length b) f b = Ret (take i b @ s)"
  using assms by (simp add: in_slice_def slice_at_def write_at_def)


text \<open>The views with the layout, executable.\<close>

definition sim_wire :: wire where
  "sim_wire =
     \<lparr>eth_set_dst_addr = (\<lambda>mac. write_at 0 (mac_bytes mac)), eth_set_src_addr = (\<lambda>mac. write_at 6 (mac_bytes mac)),
      eth_set_ethertype = (\<lambda>v. write_at 12 (be16 v)), eth_ethertype = (\<lambda>b. of_nat (read_be16 (b ! 12) (b ! 13))),
      eth_payload = (\<lambda>b. (14, length b)), eth_new_checked = (\<lambda>b. 14 \<le> length b),
      ip_set_version = (\<lambda>v b. b[0 := or (and (b ! 0) 0x0F) (push_bit 4 v)]),
      ip_set_header_len = (\<lambda>v b. b[0 := or (and (b ! 0) 0xF0) (and (v div 4) 0x0F)]),
      ip_set_dscp = (\<lambda>v b. b[1 := or (and (b ! 1) 0x03) (push_bit 2 v)]),
      ip_set_ecn = (\<lambda>v b. b[1 := or (and (b ! 1) 0xFC) (and v 0x03)]),
      ip_set_total_len = (\<lambda>v. write_at 2 (be16 v)), ip_set_ident = (\<lambda>v. write_at 4 (be16 v)),
      ip_clear_flags = write_at 6 (be16 0), ip_set_frag_offset = (\<lambda>v. write_at 6 (be16 v)),
      ip_set_hop_limit = (\<lambda>v b. b[8 := v]), ip_set_next_header = (\<lambda>v b. b[9 := v]),
      ip_set_src_addr = (\<lambda>ip. write_at 12 (octets ip)), ip_set_dst_addr = (\<lambda>ip. write_at 16 (octets ip)),
      ip_set_checksum = (\<lambda>v. write_at 10 (be16 v)), ip_fill_checksum = write_at 10 (be16 0),
      ip_next_header = (\<lambda>b. b ! 9), ip_src_addr = (\<lambda>b. Ipv4 (b ! 12) (b ! 13) (b ! 14) (b ! 15)),
      ip_payload = (\<lambda>b. (4 * unat (and (b ! 0) 0x0F), read_be16 (b ! 2) (b ! 3))), ip_new_checked = (\<lambda>b. 20 \<le> length b),
      udp_set_src_port = (\<lambda>v. write_at 0 (be16 v)), udp_set_dst_port = (\<lambda>v. write_at 2 (be16 v)),
      udp_set_len = (\<lambda>v. write_at 4 (be16 v)), udp_set_checksum = (\<lambda>v. write_at 6 (be16 v)),
      udp_src_port = (\<lambda>b. of_nat (read_be16 (b ! 0) (b ! 1))), udp_dst_port = (\<lambda>b. of_nat (read_be16 (b ! 2) (b ! 3))),
      udp_payload = (\<lambda>b. (8, read_be16 (b ! 4) (b ! 5))), udp_new_checked = (\<lambda>b. 8 \<le> length b)\<rparr>"

lemma sim_wire_layout: "wire_layout sim_wire"
  by (auto simp: wire_layout_def ethernet_layout_def ipv4_layout_def udp_layout_def sim_wire_def)


end
