(* ===== verification/Http_Text.thy ===== *)
theory Http_Text
  imports Net_Prelude
begin

section \<open>Text of the HTTP components\<close>

text \<open>
  What the HTTP code uses of Rust's strings: case conversion, search, the removal of white space
  and the parsing of unsigned numbers in a radix. A string is the list of its UTF-8 bytes.
\<close>

subsection \<open>Strings\<close>

definition to_ascii_lowercase :: "bytes \<Rightarrow> bytes" where
  "to_ascii_lowercase = map (\<lambda>b. if 65 \<le> b \<and> b \<le> 90 then b + 32 else b)"

definition eq_ignore_ascii_case :: "bytes \<Rightarrow> bytes \<Rightarrow> bool" where
  "eq_ignore_ascii_case s t \<longleftrightarrow> to_ascii_lowercase s = to_ascii_lowercase t"

fun starts_with :: "bytes \<Rightarrow> bytes \<Rightarrow> bool" where
  "starts_with s [] = True"
| "starts_with [] (x # p) = False"
| "starts_with (y # s) (x # p) = (x = y \<and> starts_with s p)"

fun str_contains :: "bytes \<Rightarrow> bytes \<Rightarrow> bool" where
  "str_contains [] p = starts_with [] p"
| "str_contains (x # s) p = (starts_with (x # s) p \<or> str_contains s p)"

text \<open>The encodings of the characters with the Unicode property White\_Space.\<close>

definition white_space :: "bytes list" where
  "white_space = [[9], [10], [11], [12], [13], [32], [0xC2, 0x85], [0xC2, 0xA0], [0xE1, 0x9A, 0x80]] @
     map (\<lambda>b. [0xE2, 0x80, b]) [0x80, 0x81, 0x82, 0x83, 0x84, 0x85, 0x86, 0x87, 0x88, 0x89, 0x8A, 0xA8, 0xA9, 0xAF] @
     [[0xE2, 0x81, 0x9F], [0xE3, 0x80, 0x80]]"

text \<open>\<open>trim_start\<close> removes white space from the front; the patterns are also used reversed.\<close>

fun trim_with :: "nat \<Rightarrow> bytes list \<Rightarrow> bytes \<Rightarrow> bytes" where
  "trim_with 0 ws s = s"
| "trim_with (Suc n) ws s =
     (case List.find (starts_with s) ws of None \<Rightarrow> s | Some w \<Rightarrow> trim_with n ws (drop (length w) s))"

definition trim :: "bytes \<Rightarrow> bytes" where
  "trim s =
     (let s = trim_with (length s) white_space s
      in rev (trim_with (length s) (map rev white_space) (rev s)))"

subsection \<open>Numbers\<close>

definition to_digit :: "nat \<Rightarrow> u8 \<Rightarrow> nat option" where
  "to_digit radix b =
     (let n = unat b;
          d = (if 48 \<le> n \<and> n \<le> 57 then Some (n - 48)
               else if 97 \<le> n \<and> n \<le> 122 then Some (n - 87)
               else if 65 \<le> n \<and> n \<le> 90 then Some (n - 55) else None)
      in (case d of Some k \<Rightarrow> if k < radix then Some k else None | None \<Rightarrow> None))"

fun digits_value :: "nat \<Rightarrow> nat \<Rightarrow> nat \<Rightarrow> bytes \<Rightarrow> nat option" where
  "digits_value bound radix acc [] = Some acc"
| "digits_value bound radix acc (b # bs) =
     (case to_digit radix b of
        None \<Rightarrow> None
      | Some d \<Rightarrow>
          let acc = acc * radix + d in
          if acc < bound then digits_value bound radix acc bs else None)"

text \<open>
  \<open>from_str_radix\<close> of an unsigned type with values below \<open>bound\<close>: one leading plus sign is
  allowed, an empty string, a lone sign, a foreign character and an overflow are errors.
\<close>

definition from_str_radix :: "nat \<Rightarrow> nat \<Rightarrow> bytes \<Rightarrow> nat option" where
  "from_str_radix bound radix s =
     (case s of
        [] \<Rightarrow> None
      | b # bs \<Rightarrow>
          if b = 43 then (if bs = [] then None else digits_value bound radix 0 bs)
          else digits_value bound radix 0 s)"

abbreviation parse_usize :: "bytes \<Rightarrow> nat option" where
  "parse_usize \<equiv> from_str_radix (2 ^ 64) 10"

subsection \<open>Printing and parsing\<close>

text \<open>The digits of a number, as \<open>to_string\<close> (radix 10) and \<open>{:x}\<close> (radix 16) write them.\<close>

definition digit_byte :: "nat \<Rightarrow> u8" where
  "digit_byte d = (if d < 10 then of_nat (48 + d) else of_nat (87 + d))"

fun show_radix :: "nat \<Rightarrow> nat \<Rightarrow> bytes" where
  "show_radix radix n =
     (if radix < 2 \<or> n < radix then [digit_byte n]
      else show_radix radix (n div radix) @ [digit_byte (n mod radix)])"

declare show_radix.simps [simp del]

lemma unat_digit_byte: "d < 16 \<Longrightarrow> unat (digit_byte d) = (if d < 10 then 48 + d else 87 + d)"
  by (simp add: digit_byte_def unat_of_nat del: of_nat_add)

lemma to_digit_digit_byte: "d < radix \<Longrightarrow> radix \<le> 16 \<Longrightarrow> to_digit radix (digit_byte d) = Some d"
  by (auto simp: to_digit_def unat_digit_byte Let_def)

lemma digits_value_append:
  "digits_value bound radix acc (xs @ ys) =
     (case digits_value bound radix acc xs of None \<Rightarrow> None | Some a \<Rightarrow> digits_value bound radix a ys)"
  by (induction xs arbitrary: acc) (auto simp: Let_def split: option.splits)

lemma digits_value_show:
  assumes "2 \<le> radix" and "radix \<le> 16" and "n < bound"
  shows "digits_value bound radix 0 (show_radix radix n) = Some n"
  using assms
proof (induction radix n rule: show_radix.induct)
  case (1 radix n)
  show ?case
  proof (cases "n < radix")
    case True
    with 1 show ?thesis by (subst show_radix.simps) (simp add: to_digit_digit_byte)
  next
    case False
    have "n div radix * radix + n mod radix = n" by simp
    with False 1 show ?thesis
      by (subst show_radix.simps)
        (simp add: digits_value_append to_digit_digit_byte mult.commute [of _ radix] order_le_less_trans [OF div_le_dividend])
  qed
qed

lemma show_radix_nonempty: "show_radix radix n \<noteq> []"
  by (subst show_radix.simps) simp

lemma show_radix_digits:
  assumes "2 \<le> radix" and "radix \<le> 16"
  shows "b \<in> set (show_radix radix n) \<Longrightarrow> \<exists>d < radix. b = digit_byte d"
  using assms
proof (induction radix n rule: show_radix.induct)
  case (1 radix n)
  show ?case
  proof (cases "n < radix")
    case True
    with 1 show ?thesis by (auto simp: show_radix.simps [of radix n])
  next
    case False
    have less: "n mod radix < radix" using 1 by simp
    consider "b \<in> set (show_radix radix (n div radix))" | "b = digit_byte (n mod radix)"
      using 1 False by (auto simp: show_radix.simps [of radix n])
    then show ?thesis
    proof cases
      case 1
      show ?thesis using "1.IH" 1 "1.prems"(2,3) False by simp
    qed (use less in blast)
  qed
qed

lemma digit_byte_range:
  assumes "d < 16"
  shows "digit_byte d \<noteq> 43" "digit_byte d \<noteq> 10" "digit_byte d \<noteq> 13" "digit_byte d \<noteq> 59" "digit_byte d < 128"
    "32 < digit_byte d"
  using assms unat_digit_byte [OF assms] by (auto simp: word_unat_eq_iff word_less_nat_alt split: if_splits)

lemma from_str_radix_show:
  assumes "2 \<le> radix" and "radix \<le> 16" and "n < bound"
  shows "from_str_radix bound radix (show_radix radix n) = Some n"
proof -
  obtain b bs where s: "show_radix radix n = b # bs" using show_radix_nonempty by (meson neq_Nil_conv)
  then obtain d where "d < radix" "b = digit_byte d" using show_radix_digits [OF assms(1,2), of b n] by auto
  then have "b \<noteq> 43" using digit_byte_range(1) [of d] assms(2) by simp
  then show ?thesis using s digits_value_show [OF assms] by (simp add: from_str_radix_def)
qed

text \<open>Trimming leaves a string of printable ASCII characters without spaces as it is.\<close>

definition plain :: "bytes \<Rightarrow> bool" where
  "plain s \<longleftrightarrow> (\<forall>b \<in> set s. 32 < b \<and> b < 128)"

lemma plain_show_radix: "2 \<le> radix \<Longrightarrow> radix \<le> 16 \<Longrightarrow> plain (show_radix radix n)"
  unfolding plain_def using show_radix_digits digit_byte_range(5,6) by (metis order_less_le_trans)

lemma trim_with_plain:
  assumes "plain s" and "\<forall>w \<in> set ws. w \<noteq> [] \<and> \<not> (32 < hd w \<and> hd w < 128)"
  shows "trim_with n ws s = s"
proof (cases n)
  case (Suc m)
  have "\<not> starts_with s w" if "w \<in> set ws" for w
    using assms that by (cases s; cases w) (auto simp: plain_def)
  then have "List.find (starts_with s) ws = None" by (simp add: find_None_iff)
  with Suc show ?thesis by simp
qed simp

lemma trim_plain: "plain s \<Longrightarrow> trim s = s"
proof -
  assume s: "plain s"
  have 1: "trim_with n white_space s = s" for n
    by (rule trim_with_plain [OF s]) (auto simp: white_space_def)
  have "plain (rev s)" using s by (simp add: plain_def)
  then have 2: "trim_with n (map rev white_space) (rev s) = rev s" for n
    by (rule trim_with_plain) (auto simp: white_space_def)
  show ?thesis by (simp add: trim_def 1 2)
qed

end
