(* ===== verification/Http_Lib.thy ===== *)
theory Http_Lib
  imports Http_Text
begin

section \<open>HTTP: streams, the libraries, and chunks\<close>

text \<open>
  What the two HTTP servers of \<^verbatim>\<open>dpdk-net-test/src/app\<close> share. Their functions are asynchronous,
  fail with a \<open>ParseError\<close>, may panic and may wait for ever: \<open>act\<close> is the type of their results,
  where \<open>None\<close> stands for a call that does not return, and \<open>act_bind\<close> is the \<open>?\<close> operator.

  The libraries \<open>httparse\<close> and \<open>http\<close>, and the asynchronous streams, are parameters: the records
  \<open>http_lib\<close> and \<open>byte_stream\<close>. What the properties assume of them is named: \<open>stream_ok\<close> describes a
  connection without I/O errors, \<open>head_parser_ok\<close> the incremental parsing of a request head.
\<close>

subsection \<open>Results\<close>

datatype stream_error = StreamEof string | StreamOther string

datatype ParseError = Io stream_error | Parse string | InvalidMethod | InvalidVersion | InvalidHeader
  | InvalidUri | HeadersTooLarge | InvalidContentLength | ConnectionClosed

type_synonym ('a, 'p) act = "(('a, ParseError) Result \<times> 'p) outcome option"

definition act_ok :: "'a \<Rightarrow> 'p \<Rightarrow> ('a, 'p) act" where
  "act_ok a p = Some (Ret (Ok a, p))"

definition act_err :: "ParseError \<Rightarrow> 'p \<Rightarrow> ('a, 'p) act" where
  "act_err e p = Some (Ret (Err e, p))"

definition act_bind :: "('a, 'p) act \<Rightarrow> ('a \<Rightarrow> 'p \<Rightarrow> ('b, 'p) act) \<Rightarrow> ('b, 'p) act" where
  "act_bind m f = Option.bind m (\<lambda>x.
     case x of
       Panic msg \<Rightarrow> Some (Panic msg)
     | Ret (r, p) \<Rightarrow> (case r of Err e \<Rightarrow> Some (Ret (Err e, p)) | Ok a \<Rightarrow> f a p))"

text \<open>A \<open>match\<close> on the result of an asynchronous call.\<close>

definition act_case ::
  "('a, 'p) act \<Rightarrow> (('a, ParseError) Result \<Rightarrow> 'p \<Rightarrow> ('b, 'p) act) \<Rightarrow> ('b, 'p) act" where
  "act_case m f = Option.bind m (\<lambda>x. case x of Panic msg \<Rightarrow> Some (Panic msg) | Ret (r, p) \<Rightarrow> f r p)"

lemma act_bind_simps [simp]:
  "act_bind (act_ok a p) f = f a p" "act_bind (act_err e p) f = act_err e p" "act_bind (Some (Panic msg)) f = Some (Panic msg)"
  by (simp_all add: act_bind_def act_ok_def act_err_def)

lemma act_case_simps [simp]:
  "act_case (act_ok a p) f = f (Ok a) p" "act_case (act_err e p) f = f (Err e) p"
  "act_case (Some (Panic msg)) f = Some (Panic msg)"
  by (simp_all add: act_case_def act_ok_def act_err_def)

lemma act_inject [simp]:
  "act_ok a p = act_ok a' p' \<longleftrightarrow> a = a' \<and> p = p'" "act_err e p = act_err e' p' \<longleftrightarrow> e = e' \<and> p = p'"
  "act_ok a p \<noteq> act_err e p'" "act_err e p' \<noteq> act_ok a p"
  by (auto simp: act_ok_def act_err_def)

lemma act_bind_mono [partial_function_mono]:
  assumes "mono_option F" and "\<And>a p. mono_option (\<lambda>f. G f a p)"
  shows "mono_option (\<lambda>f. act_bind (F f) (G f))"
  unfolding act_bind_def
proof (rule bind_mono [OF assms(1)])
  fix x
  show "mono_option (\<lambda>f. case x of Panic msg \<Rightarrow> Some (Panic msg)
      | Ret (r, p) \<Rightarrow> (case r of Err e \<Rightarrow> Some (Ret (Err e, p)) | Ok a \<Rightarrow> G f a p))"
  proof (cases x)
    case (Ret y)
    obtain r p where y: "y = (r, p)" by fastforce
    show ?thesis using assms(2) by (cases r) (simp_all add: Ret y option.const_mono)
  qed (simp add: option.const_mono)
qed

lemma act_case_mono [partial_function_mono]:
  assumes "mono_option F" and "\<And>r p. mono_option (\<lambda>f. G f r p)"
  shows "mono_option (\<lambda>f. act_case (F f) (G f))"
  unfolding act_case_def
proof (rule bind_mono [OF assms(1)])
  fix x
  show "mono_option (\<lambda>f. case x of Panic msg \<Rightarrow> Some (Panic msg) | Ret (r, p) \<Rightarrow> G f r p)"
    using assms(2) by (cases x) (auto split: prod.split intro: option.const_mono)
qed

text \<open>A call that returns (a result, an error or a panic), and satisfies \<open>Q\<close> when it succeeds.\<close>

definition act_post :: "('a \<Rightarrow> 'p \<Rightarrow> bool) \<Rightarrow> ('a, 'p) act \<Rightarrow> bool" where
  "act_post Q m \<longleftrightarrow> (\<exists>x. m = Some x \<and> (\<forall>a p. x = Ret (Ok a, p) \<longrightarrow> Q a p))"

lemma act_post_simps [simp]:
  "act_post Q (act_ok a p) = Q a p" "act_post Q (act_err e p)" "act_post Q (Some (Panic msg))" "\<not> act_post Q None"
  by (auto simp: act_post_def act_ok_def act_err_def)

lemma act_post_mono: "act_post Q m \<Longrightarrow> (\<And>a p. Q a p \<Longrightarrow> R a p) \<Longrightarrow> act_post R m"
  by (auto simp: act_post_def)

lemma act_post_bind: "act_post Q m \<Longrightarrow> (\<And>a p. Q a p \<Longrightarrow> act_post R (f a p)) \<Longrightarrow> act_post R (act_bind m f)"
  by (auto simp: act_post_def act_bind_def split: outcome.splits Result.splits prod.splits)

subsection \<open>The libraries\<close>

datatype Version = HTTP_09 | HTTP_10 | HTTP_11 | HTTP_2 | HTTP_3

record 'm Request =
  rq_method :: bytes
  rq_uri :: bytes
  rq_version :: Version
  rq_headers :: 'm
  rq_body :: bytes

record 'm Response =
  rs_version :: Version
  rs_status :: nat
  rs_headers :: 'm
  rs_body :: bytes

text \<open>What \<open>httparse\<close> reports of a complete request head, with its length.\<close>

record parsed_head =
  ph_method :: "bytes option"
  ph_path :: "bytes option"
  ph_version :: "nat option"
  ph_headers :: "(bytes \<times> bytes) list"
  ph_len :: usize

text \<open>
  \<open>'m\<close> is the \<open>HeaderMap\<close>. \<open>h_parse\<close> takes the number of header slots; \<open>Ok None\<close> is a partial
  head. The conversions of \<open>http\<close> return \<open>None\<close> for their errors.
\<close>

record 'm http_lib =
  h_parse :: "nat \<Rightarrow> bytes \<Rightarrow> (parsed_head option, string) Result"
  h_method :: "bytes \<Rightarrow> bytes option"
  h_header_name :: "bytes \<Rightarrow> bytes option"
  h_header_value :: "bytes \<Rightarrow> bytes option"
  h_uri :: "bytes \<Rightarrow> bytes option"
  h_to_str :: "bytes \<Rightarrow> bytes option"
  h_map_new :: 'm
  h_map_insert :: "bytes \<Rightarrow> bytes \<Rightarrow> 'm \<Rightarrow> 'm"
  h_map_get :: "'m \<Rightarrow> bytes \<Rightarrow> bytes option"
  h_map_iter :: "'m \<Rightarrow> (bytes \<times> bytes) list"
  h_status_str :: "nat \<Rightarrow> bytes"
  h_reason :: "nat \<Rightarrow> bytes option"

text \<open>
  A bidirectional stream: \<open>s_read n\<close> returns at least one and at most \<open>n\<close> bytes, or none at the
  end; \<open>s_read_exact\<close> is tokio's \<open>read_exact\<close>.
\<close>

record 'r byte_stream =
  s_read :: "usize \<Rightarrow> 'r \<Rightarrow> (bytes, stream_error) Result \<times> 'r"
  s_read_exact :: "usize \<Rightarrow> 'r \<Rightarrow> (bytes, stream_error) Result \<times> 'r"
  s_write_all :: "bytes \<Rightarrow> 'r \<Rightarrow> (unit, stream_error) Result \<times> 'r"
  s_flush :: "'r \<Rightarrow> (unit, stream_error) Result \<times> 'r"

text \<open>
  A connection without I/O errors: \<open>incoming r\<close> are the bytes that have still to be read and
  \<open>written r\<close> those written so far.
\<close>

definition stream_ok :: "'r byte_stream \<Rightarrow> ('r \<Rightarrow> bytes) \<Rightarrow> ('r \<Rightarrow> bytes) \<Rightarrow> bool" where
  "stream_ok T incoming written \<longleftrightarrow>
     (\<forall>n r. \<exists>bs r'. s_read T n r = (Ok bs, r') \<and> incoming r = bs @ incoming r' \<and> written r' = written r \<and>
        length bs \<le> n \<and> (0 < n \<and> incoming r \<noteq> [] \<longrightarrow> bs \<noteq> [])) \<and>
     (\<forall>n r. if n \<le> length (incoming r)
        then \<exists>r'. s_read_exact T n r = (Ok (take n (incoming r)), r') \<and> incoming r' = drop n (incoming r) \<and>
          written r' = written r
        else \<exists>msg r'. s_read_exact T n r = (Err (StreamEof msg), r') \<and> written r' = written r) \<and>
     (\<forall>bs r. \<exists>r'. s_write_all T bs r = (Ok (), r') \<and> incoming r' = incoming r \<and> written r' = written r @ bs) \<and>
     (\<forall>r. \<exists>r'. s_flush T r = (Ok (), r') \<and> incoming r' = incoming r \<and> written r' = written r)"

text \<open>
  An incremental parser of heads: what it reports of a complete head does not depend on what
  follows, and before the end of the head it asks for more.
\<close>

definition head_parser_ok :: "'m http_lib \<Rightarrow> bool" where
  "head_parser_ok H \<longleftrightarrow>
     (\<forall>n bs ph. h_parse H n bs = Ok (Some ph) \<longrightarrow>
        0 < ph_len ph \<and> ph_len ph \<le> length bs \<and>
        (\<forall>tail. h_parse H n (take (ph_len ph) bs @ tail) = Ok (Some ph)) \<and>
        (\<forall>k < ph_len ph. h_parse H n (take k bs) = Ok None))"

lemma stream_okD:
  assumes "stream_ok T incoming written"
  shows "\<exists>bs r'. s_read T n r = (Ok bs, r') \<and> incoming r = bs @ incoming r' \<and> written r' = written r \<and>
      length bs \<le> n \<and> (0 < n \<and> incoming r \<noteq> [] \<longrightarrow> bs \<noteq> [])"
    and "n \<le> length (incoming r) \<Longrightarrow> \<exists>r'. s_read_exact T n r = (Ok (take n (incoming r)), r') \<and>
      incoming r' = drop n (incoming r) \<and> written r' = written r"
    and "length (incoming r) < n \<Longrightarrow> \<exists>msg r'. s_read_exact T n r = (Err (StreamEof msg), r') \<and> written r' = written r"
    and "\<exists>r'. s_write_all T bs r = (Ok (), r') \<and> incoming r' = incoming r \<and> written r' = written r @ bs"
    and "\<exists>r'. s_flush T r = (Ok (), r') \<and> incoming r' = incoming r \<and> written r' = written r"
  using assms unfolding stream_ok_def by (blast, metis, metis not_less, blast, blast)

lemma head_parser_okD:
  assumes "head_parser_ok H" and "h_parse H n bs = Ok (Some ph)"
  shows "0 < ph_len ph" "ph_len ph \<le> length bs" "h_parse H n (take (ph_len ph) bs @ tail) = Ok (Some ph)"
    "k < ph_len ph \<Longrightarrow> h_parse H n (take k bs) = Ok None"
  using assms unfolding head_parser_ok_def by blast+

subsection \<open>The chunk loop\<close>

text \<open>
  Both servers read a chunked body with the same loop, over their own \<open>read_line\<close> and
  \<open>read_exact\<close>. The size is what stands before a semicolon in the first line of a chunk.
\<close>

definition chunk_size_of :: "bytes \<Rightarrow> nat option" where
  "chunk_size_of size_line = from_str_radix (2 ^ 64) 16 (trim (takeWhile (\<lambda>b. b \<noteq> 59) size_line))"

partial_function (option) chunk_loop ::
  "('p \<Rightarrow> (bytes, 'p) act) \<Rightarrow> (usize \<Rightarrow> 'p \<Rightarrow> (bytes, 'p) act) \<Rightarrow> bytes \<Rightarrow> 'p \<Rightarrow> (bytes, 'p) act" where
  "chunk_loop read_line read_exact body p =
     act_bind (read_line p) (\<lambda>size_line p.
       case chunk_size_of size_line of
         None \<Rightarrow> act_err InvalidContentLength p
       | Some chunk_size \<Rightarrow>
           if chunk_size = 0 then act_bind (read_line p) (\<lambda>_ p. act_ok body p)
           else act_bind (read_exact chunk_size p) (\<lambda>chunk p.
             act_bind (read_line p) (\<lambda>_ p. chunk_loop read_line read_exact (body @ chunk) p)))"

text \<open>A chunk as a client writes it, with an extension after the size.\<close>

definition encode_chunk :: "bytes \<times> bytes \<Rightarrow> bytes" where
  "encode_chunk c = (case c of (ext, chunk) \<Rightarrow> show_radix 16 (length chunk) @ ext @ [13, 10] @ chunk @ [13, 10])"

definition encode_chunks :: "(bytes \<times> bytes) list \<Rightarrow> bytes" where
  "encode_chunks cs = concat (map encode_chunk cs) @ [48, 13, 10, 13, 10]"

definition chunk_ok :: "bytes \<times> bytes \<Rightarrow> bool" where
  "chunk_ok c \<longleftrightarrow> (case c of (ext, chunk) \<Rightarrow>
     chunk \<noteq> [] \<and> length chunk < 2 ^ 63 \<and> 10 \<notin> set ext \<and> (ext = [] \<or> hd ext = 59))"

text \<open>A line as \<open>read_line\<close> returns it: without the newline and one carriage return before it.\<close>

definition strip_cr :: "bytes \<Rightarrow> bytes" where
  "strip_cr line = (if line \<noteq> [] \<and> last line = 13 then butlast line else line)"

lemma strip_cr_crlf [simp]: "strip_cr (line @ [13]) = line"
  by (simp add: strip_cr_def)

lemma chunk_size_line:
  assumes "n < 2 ^ 64" and "ext = [] \<or> hd ext = 59"
  shows "chunk_size_of (show_radix 16 n @ ext) = Some n"
proof -
  have "\<forall>b \<in> set (show_radix 16 n). b \<noteq> 59"
    using show_radix_digits [of 16] digit_byte_range(4) by fastforce
  then have "takeWhile (\<lambda>b. b \<noteq> 59) (show_radix 16 n @ ext) = show_radix 16 n @ takeWhile (\<lambda>b. b \<noteq> 59) ext"
    by (simp add: takeWhile_append2)
  moreover have "takeWhile (\<lambda>b. b \<noteq> 59) ext = []" using assms(2) by (cases ext) auto
  ultimately show ?thesis
    using assms(1) by (simp add: chunk_size_of_def trim_plain plain_show_radix from_str_radix_show)
qed

lemma newline_not_in_size: "10 \<notin> set (show_radix 16 n)"
  using show_radix_digits [of 16 10 n] digit_byte_range(2) by fastforce

text \<open>
  The interface of the chunk loop: \<open>rest\<close> is what a parser has still to deliver, however much of
  it has already arrived, and \<open>kept\<close> what reading leaves alone.
\<close>

locale framed_input =
  fixes ok :: "'p \<Rightarrow> bool"
    and rest :: "'p \<Rightarrow> bytes"
    and kept :: "'p \<Rightarrow> 'o"
    and read_line :: "'p \<Rightarrow> (bytes, 'p) act"
    and read_exact :: "usize \<Rightarrow> 'p \<Rightarrow> (bytes, 'p) act"
  assumes read_line_ok: "ok p \<Longrightarrow> rest p = line @ 10 # tail \<Longrightarrow> 10 \<notin> set line \<Longrightarrow>
      \<exists>p'. read_line p = act_ok (strip_cr line) p' \<and> ok p' \<and> rest p' = tail \<and> kept p' = kept p"
    and read_line_eof: "ok p \<Longrightarrow> 10 \<notin> set (rest p) \<Longrightarrow>
      \<exists>p'. read_line p = act_err ConnectionClosed p' \<and> kept p' = kept p"
    and read_exact_ok: "ok p \<Longrightarrow> rest p = bs @ tail \<Longrightarrow> length bs = n \<Longrightarrow> n < 2 ^ 63 \<Longrightarrow>
      \<exists>p'. read_exact n p = act_ok bs p' \<and> ok p' \<and> rest p' = tail \<and> kept p' = kept p"
    and read_exact_eof: "ok p \<Longrightarrow> length (rest p) < n \<Longrightarrow> n < 2 ^ 63 \<Longrightarrow>
      \<exists>p'. read_exact n p = act_err ConnectionClosed p' \<and> kept p' = kept p"
    and read_exact_huge: "2 ^ 63 \<le> n \<Longrightarrow> read_exact n p = Some (Panic ''capacity overflow'')"
begin

lemma read_crlf_line:
  assumes "ok p" and "rest p = line @ [13, 10] @ tail" and "10 \<notin> set line"
  shows "\<exists>p'. read_line p = act_ok line p' \<and> ok p' \<and> rest p' = tail \<and> kept p' = kept p"
  using read_line_ok [OF assms(1), of "line @ [13]" tail] assms(2,3) by simp

lemma chunk_loop_chunk:
  assumes "ok p" and "rest p = encode_chunk c @ tail" and "chunk_ok c"
  shows "\<exists>p'. chunk_loop read_line read_exact body p = chunk_loop read_line read_exact (body @ snd c) p' \<and>
    ok p' \<and> rest p' = tail \<and> kept p' = kept p"
proof -
  obtain ext chunk where c: "c = (ext, chunk)" by fastforce
  have ch: "chunk \<noteq> []" "length chunk < 2 ^ 63" "10 \<notin> set ext" "ext = [] \<or> hd ext = 59"
    using assms(3) by (auto simp: chunk_ok_def c)
  let ?line = "show_radix 16 (length chunk) @ ext"
  have r: "rest p = ?line @ [13, 10] @ (chunk @ ([] @ [13, 10] @ tail))"
    using assms(2) by (simp add: encode_chunk_def c)
  obtain p1 where 1: "read_line p = act_ok ?line p1" "ok p1" "rest p1 = chunk @ ([] @ [13, 10] @ tail)" "kept p1 = kept p"
    using read_crlf_line [OF assms(1) r] ch(3) newline_not_in_size by auto
  obtain p2 where 2: "read_exact (length chunk) p1 = act_ok chunk p2" "ok p2" "rest p2 = [] @ [13, 10] @ tail" "kept p2 = kept p1"
    using read_exact_ok [OF 1(2,3) refl ch(2)] by auto
  obtain p3 where 3: "read_line p2 = act_ok [] p3" "ok p3" "rest p3 = tail" "kept p3 = kept p2"
    using read_crlf_line [OF 2(2,3)] by auto
  have "chunk_size_of ?line = Some (length chunk)"
    by (rule chunk_size_line) (use ch in auto)
  then have "chunk_loop read_line read_exact body p = chunk_loop read_line read_exact (body @ chunk) p3"
    using 1 2 3 ch(1) by (simp add: chunk_loop.simps [of read_line read_exact body])
  with 1 2 3 c show ?thesis by auto
qed

lemma chunk_loop_chunks:
  assumes "ok p" and "rest p = concat (map encode_chunk cs) @ tail" and "\<forall>c \<in> set cs. chunk_ok c"
  shows "\<exists>p'. chunk_loop read_line read_exact body p = chunk_loop read_line read_exact (body @ concat (map snd cs)) p' \<and>
    ok p' \<and> rest p' = tail \<and> kept p' = kept p"
  using assms
proof (induction cs arbitrary: body p)
  case (Cons c cs)
  obtain p1 where 1: "chunk_loop read_line read_exact body p = chunk_loop read_line read_exact (body @ snd c) p1"
      "ok p1" "rest p1 = concat (map encode_chunk cs) @ tail" "kept p1 = kept p"
    using chunk_loop_chunk [of p c "concat (map encode_chunk cs) @ tail" body] Cons.prems by auto
  show ?case using Cons.IH [OF 1(2,3), of "body @ snd c"] Cons.prems(3) 1(1,4) by auto
qed auto

lemma chunk_loop_decodes:
  assumes "ok p" and "rest p = encode_chunks cs @ tail" and "\<forall>c \<in> set cs. chunk_ok c"
  shows "\<exists>p'. chunk_loop read_line read_exact body p = act_ok (body @ concat (map snd cs)) p' \<and>
    ok p' \<and> rest p' = tail \<and> kept p' = kept p"
proof -
  let ?body = "body @ concat (map snd cs)"
  obtain p0 where 0: "chunk_loop read_line read_exact body p = chunk_loop read_line read_exact ?body p0"
      "ok p0" "rest p0 = [48] @ [13, 10] @ ([] @ [13, 10] @ tail)" "kept p0 = kept p"
    using chunk_loop_chunks [OF assms(1), of cs "[48, 13, 10, 13, 10] @ tail" body] assms(2,3)
    by (auto simp: encode_chunks_def)
  obtain p1 where 1: "read_line p0 = act_ok [48] p1" "ok p1" "rest p1 = [] @ [13, 10] @ tail" "kept p1 = kept p0"
    using read_crlf_line [OF 0(2,3)] by auto
  obtain p2 where 2: "read_line p1 = act_ok [] p2" "ok p2" "rest p2 = tail" "kept p2 = kept p1"
    using read_crlf_line [OF 1(2,3)] by auto
  have "chunk_size_of [48] = Some 0" using chunk_size_line [of 0 "[]"] by (simp add: show_radix.simps digit_byte_def)
  with 0 1 2 show ?thesis by (simp add: chunk_loop.simps [of read_line read_exact ?body])
qed

text \<open>After some chunks, a line that is not a size, a line that does not end, and missing data.\<close>

lemma chunk_loop_bad_size:
  assumes "ok p" and "rest p = concat (map encode_chunk cs) @ line @ 10 # tail" and "\<forall>c \<in> set cs. chunk_ok c"
    and "10 \<notin> set line" and "chunk_size_of (strip_cr line) = None"
  shows "\<exists>p'. chunk_loop read_line read_exact body p = act_err InvalidContentLength p' \<and> kept p' = kept p"
proof -
  obtain p0 body' where 0: "chunk_loop read_line read_exact body p = chunk_loop read_line read_exact body' p0"
      "ok p0" "rest p0 = line @ 10 # tail" "kept p0 = kept p"
    using chunk_loop_chunks [OF assms(1,2,3), of body] by blast
  with read_line_ok [OF 0(2,3) assms(4)] assms(5) show ?thesis
    by (auto simp: chunk_loop.simps [of read_line read_exact body'])
qed

lemma chunk_loop_no_line:
  assumes "ok p" and "rest p = concat (map encode_chunk cs) @ line" and "\<forall>c \<in> set cs. chunk_ok c" and "10 \<notin> set line"
  shows "\<exists>p'. chunk_loop read_line read_exact body p = act_err ConnectionClosed p' \<and> kept p' = kept p"
proof -
  obtain p0 body' where 0: "chunk_loop read_line read_exact body p = chunk_loop read_line read_exact body' p0"
      "ok p0" "rest p0 = line" "kept p0 = kept p"
    using chunk_loop_chunks [OF assms(1,2,3), of body] by blast
  with read_line_eof [OF 0(2)] assms(4) show ?thesis
    by (auto simp: chunk_loop.simps [of read_line read_exact body'])
qed

lemma chunk_loop_short:
  assumes "ok p" and "rest p = concat (map encode_chunk cs) @ line @ 10 # bs" and "\<forall>c \<in> set cs. chunk_ok c"
    and "10 \<notin> set line" and "chunk_size_of (strip_cr line) = Some n" and "length bs < n" and "n < 2 ^ 63"
  shows "\<exists>p'. chunk_loop read_line read_exact body p = act_err ConnectionClosed p' \<and> kept p' = kept p"
proof -
  obtain p0 body' where 0: "chunk_loop read_line read_exact body p = chunk_loop read_line read_exact body' p0"
      "ok p0" "rest p0 = line @ 10 # bs" "kept p0 = kept p"
    using chunk_loop_chunks [OF assms(1,2,3), of body] by blast
  obtain p1 where 1: "read_line p0 = act_ok (strip_cr line) p1" "ok p1" "rest p1 = bs" "kept p1 = kept p0"
    using read_line_ok [OF 0(2,3) assms(4)] by blast
  with read_exact_eof [OF 1(2), of n] 0 assms(5,6,7) show ?thesis
    by (auto simp: chunk_loop.simps [of read_line read_exact body'])
qed

lemma chunk_loop_huge:
  assumes "ok p" and "rest p = concat (map encode_chunk cs) @ line @ 10 # tail" and "\<forall>c \<in> set cs. chunk_ok c"
    and "10 \<notin> set line" and "chunk_size_of (strip_cr line) = Some n" and "2 ^ 63 \<le> n"
  shows "chunk_loop read_line read_exact body p = Some (Panic ''capacity overflow'')"
proof -
  obtain p0 body' where 0: "chunk_loop read_line read_exact body p = chunk_loop read_line read_exact body' p0"
      "ok p0" "rest p0 = line @ 10 # tail" "kept p0 = kept p"
    using chunk_loop_chunks [OF assms(1,2,3), of body] by blast
  with read_line_ok [OF 0(2,3) assms(4)] read_exact_huge [OF assms(6)] assms(5,6) show ?thesis
    by (auto simp: chunk_loop.simps [of read_line read_exact body'])
qed

text \<open>Whatever the input, the loop returns: every round consumes at least one line.\<close>

lemma read_line_post:
  assumes "ok p"
  shows "act_post (\<lambda>_ p'. ok p' \<and> length (rest p') < length (rest p)) (read_line p)"
proof (cases "10 \<in> set (rest p)")
  case True
  then obtain line tail where "rest p = line @ 10 # tail" "10 \<notin> set line" by (meson split_list_first)
  with read_line_ok [OF assms this] show ?thesis by auto
next
  case False
  with read_line_eof [OF assms] show ?thesis by auto
qed

lemma read_exact_post:
  assumes "ok p"
  shows "act_post (\<lambda>_ p'. ok p' \<and> length (rest p') \<le> length (rest p)) (read_exact n p)"
proof -
  consider "2 ^ 63 \<le> n" | "length (rest p) < n" "n < 2 ^ 63" | "n \<le> length (rest p)" "n < 2 ^ 63" by linarith
  then show ?thesis
  proof cases
    case 1
    then show ?thesis by (simp add: read_exact_huge)
  next
    case 2
    with read_exact_eof [OF assms 2] show ?thesis by auto
  next
    case 3
    with read_exact_ok [OF assms, of "take n (rest p)" "drop n (rest p)" n] show ?thesis by auto
  qed
qed

lemma chunk_loop_post:
  assumes "ok p"
  shows "act_post (\<lambda>_ p'. ok p' \<and> length (rest p') < length (rest p)) (chunk_loop read_line read_exact body p)"
  using assms
proof (induction "length (rest p)" arbitrary: p body rule: less_induct)
  case less
  have trailer: "act_post (\<lambda>_ p'. ok p' \<and> length (rest p') < length (rest p)) (act_bind (read_line p1) (\<lambda>_ p. act_ok body p))"
    if "ok p1" "length (rest p1) < length (rest p)" for p1
    by (rule act_post_bind [OF read_line_post [OF that(1)]]) (use that(2) in simp)
  have again: "act_post (\<lambda>_ p'. ok p' \<and> length (rest p') < length (rest p))
      (act_bind (read_line p2) (\<lambda>_ p. chunk_loop read_line read_exact (body @ bs) p))"
    if "ok p2" "length (rest p2) < length (rest p)" for p2 bs
  proof (rule act_post_bind [OF read_line_post [OF that(1)]])
    fix l p3 assume "ok p3 \<and> length (rest p3) < length (rest p2)"
    then have 3: "ok p3" "length (rest p3) < length (rest p)" using that(2) by auto
    show "act_post (\<lambda>_ p'. ok p' \<and> length (rest p') < length (rest p)) (chunk_loop read_line read_exact (body @ bs) p3)"
      by (rule act_post_mono [OF less.hyps [OF 3(2,1)]]) (use 3(2) in auto)
  qed
  have chunk: "act_post (\<lambda>_ p'. ok p' \<and> length (rest p') < length (rest p))
      (act_bind (read_exact n p1) (\<lambda>chunk p. act_bind (read_line p) (\<lambda>_ p. chunk_loop read_line read_exact (body @ chunk) p)))"
    if "ok p1" "length (rest p1) < length (rest p)" for p1 n
    by (rule act_post_bind [OF read_exact_post [OF that(1)]], rule again) (use that(2) in auto)
  show ?case
    by (subst chunk_loop.simps, rule act_post_bind [OF read_line_post [OF less.prems]])
      (auto simp: trailer chunk split: option.split)
qed

end

end
