(* ===== verification/Http_Parser.thy ===== *)
theory Http_Parser
  imports Http_Lib
begin

section \<open>HTTP: requests and responses, and what a parser promises\<close>

text \<open>
  \<^verbatim>\<open>custom_http.rs\<close> and \<^verbatim>\<open>kimojio_server.rs\<close> have the same code for the inspection of headers,
  the conversion of a parsed head and the serialisation of responses; that of the first is modelled
  here, that of the second in \<^verbatim>\<open>Kimojio_Text\<close>.
  Then the relations \<open>wire_request\<close> and \<open>wire_session\<close> say what a sequence of bytes means as
  HTTP, without buffers or segments, and the locale \<open>http_parser\<close> proves once that a buffered
  parser over a stream delivers what the bytes mean.

  The lossy conversion of a line to a string is left out: it changes only bytes that are not ASCII,
  which the number parser that follows rejects, and neither adds nor removes white space.
\<close>

definition MAX_HEADERS :: nat where
  "MAX_HEADERS = 100"

definition INITIAL_BUF_SIZE :: nat where
  "INITIAL_BUF_SIZE = 1024"

definition MAX_BUF_SIZE :: nat where
  "MAX_BUF_SIZE = 64 * 1024"

fun show_stream_error :: "stream_error \<Rightarrow> string" where
  "show_stream_error (StreamEof msg) = msg"
| "show_stream_error (StreamOther msg) = msg"

fun show_parse_error :: "ParseError \<Rightarrow> string" where
  "show_parse_error (Io e) = ''I/O error: '' @ show_stream_error e"
| "show_parse_error (Parse e) = ''Parse error: '' @ e"
| "show_parse_error InvalidMethod = ''Invalid HTTP method''"
| "show_parse_error InvalidVersion = ''Invalid HTTP version''"
| "show_parse_error InvalidHeader = ''Invalid header format''"
| "show_parse_error InvalidUri = ''Invalid URI''"
| "show_parse_error HeadersTooLarge = ''Headers too large''"
| "show_parse_error InvalidContentLength = ''Invalid Content-Length''"
| "show_parse_error ConnectionClosed = ''Connection closed''"

subsection \<open>Headers\<close>

definition get_content_length :: "'m http_lib \<Rightarrow> 'm \<Rightarrow> usize option" where
  "get_content_length H headers =
     Option.bind (h_map_get H headers (ascii ''content-length'')) (\<lambda>v.
       Option.bind (h_to_str H v) parse_usize)"

definition is_chunked :: "'m http_lib \<Rightarrow> 'm \<Rightarrow> bool" where
  "is_chunked H headers =
     (case Option.bind (h_map_get H headers (ascii ''transfer-encoding'')) (h_to_str H) of
        Some v \<Rightarrow> str_contains (to_ascii_lowercase v) (ascii ''chunked'')
      | None \<Rightarrow> False)"

definition should_keep_alive :: "'m http_lib \<Rightarrow> 'm \<Rightarrow> Version \<Rightarrow> bool" where
  "should_keep_alive H headers version =
     (case h_map_get H headers (ascii ''connection'') of
        Some conn \<Rightarrow>
          (case h_to_str H conn of Some s \<Rightarrow> eq_ignore_ascii_case s (ascii ''keep-alive'') | None \<Rightarrow> False)
      | None \<Rightarrow> version = HTTP_11)"

fun version_str :: "Version \<Rightarrow> string" where
  "version_str HTTP_10 = ''HTTP/1.0''"
| "version_str HTTP_11 = ''HTTP/1.1''"
| "version_str HTTP_2 = ''HTTP/2.0''"
| "version_str HTTP_3 = ''HTTP/3.0''"
| "version_str v = ''HTTP/1.1''"

definition reason_phrase :: "'m http_lib \<Rightarrow> nat \<Rightarrow> bytes" where
  "reason_phrase H status = (case h_reason H status of Some r \<Rightarrow> r | None \<Rightarrow> ascii ''Unknown'')"

subsection \<open>The conversion of a head\<close>

text \<open>The conversion of a complete head: method, path, version, and the headers one by one.\<close>

fun insert_headers :: "'m http_lib \<Rightarrow> (bytes \<times> bytes) list \<Rightarrow> 'm \<Rightarrow> ('m, ParseError) Result" where
  "insert_headers H [] m = Ok m"
| "insert_headers H ((nm, v) # hs) m =
     (case h_header_name H nm of
        None \<Rightarrow> Err InvalidHeader
      | Some nm \<Rightarrow>
          (case h_header_value H v of
             None \<Rightarrow> Err InvalidHeader
           | Some v \<Rightarrow> insert_headers H hs (h_map_insert H nm v m)))"

definition convert_head ::
  "'m http_lib \<Rightarrow> parsed_head \<Rightarrow> (bytes \<times> bytes \<times> Version \<times> 'm \<times> usize, ParseError) Result" where
  "convert_head H ph =
     (case h_method H (case ph_method ph of Some b \<Rightarrow> b | None \<Rightarrow> []) of
        None \<Rightarrow> Err InvalidMethod
      | Some mth \<Rightarrow>
          let uri = (case ph_path ph of Some b \<Rightarrow> b | None \<Rightarrow> ascii ''/'') in
          (case (if ph_version ph = Some 0 then Some HTTP_10 else if ph_version ph = Some 1 then Some HTTP_11 else None) of
             None \<Rightarrow> Err InvalidVersion
           | Some version \<Rightarrow>
               (case insert_headers H (ph_headers ph) (h_map_new H) of
                  Err e \<Rightarrow> Err e
                | Ok header_map \<Rightarrow> Ok (mth, uri, version, header_map, ph_len ph))))"

definition isize_max :: nat where
  "isize_max = 2 ^ 63 - 1"

definition position_nl :: "bytes \<Rightarrow> nat option" where
  "position_nl bs = (let pos = length (takeWhile (\<lambda>b. b \<noteq> 10) bs) in if pos < length bs then Some pos else None)"

subsection \<open>Responses\<close>

definition serialize_response :: "'m http_lib \<Rightarrow> 'm Response \<Rightarrow> bytes" where
  "serialize_response H response =
     (let body = rs_body response;
          buf = ascii (version_str (rs_version response)) @ ascii '' '' @ h_status_str H (rs_status response) @
            ascii '' '' @ reason_phrase H (rs_status response) @ [13, 10];
          buf = buf @ concat (map (\<lambda>(key, v). key @ ascii '': '' @ v @ [13, 10]) (h_map_iter H (rs_headers response)));
          buf = (if h_map_get H (rs_headers response) (ascii ''content-length'') = None
                 then buf @ ascii ''Content-Length: '' @ show_radix 10 (length body) @ [13, 10] else buf)
      in buf @ [13, 10] @ body)"

definition error_response :: "'m http_lib \<Rightarrow> ParseError \<Rightarrow> 'm Response" where
  "error_response H e =
     \<lparr>rs_version = HTTP_11, rs_status = 400,
      rs_headers = h_map_insert H (ascii ''connection'') (ascii ''close'') (h_map_new H),
      rs_body = ascii (''Parse error: '' @ show_parse_error e)\<rparr>"

definition simple_echo_handler :: "'m http_lib \<Rightarrow> 'm Request \<Rightarrow> 'm Response" where
  "simple_echo_handler H req =
     \<lparr>rs_version = HTTP_11, rs_status = 200,
      rs_headers = h_map_insert H (ascii ''content-type'') (ascii ''text/plain'') (h_map_new H),
      rs_body = rq_body req\<rparr>"


subsection \<open>The buffer\<close>

text \<open>
  The buffer is a vector of which the first \<open>len\<close> bytes are valid; its capacity is 1024 bytes,
  doubled at most six times.
\<close>

definition buffer_ok :: "bytes \<Rightarrow> usize \<Rightarrow> bool" where
  "buffer_ok buf len \<longleftrightarrow> len \<le> length buf \<and> (\<exists>k \<le> 6. length buf = INITIAL_BUF_SIZE * 2 ^ k)"

lemmas buf_sizes = INITIAL_BUF_SIZE_def MAX_BUF_SIZE_def

lemma capacity_bounds:
  assumes "k \<le> (6 :: nat)"
  shows "INITIAL_BUF_SIZE * 2 ^ k \<le> MAX_BUF_SIZE" "0 < INITIAL_BUF_SIZE * 2 ^ k"
    "INITIAL_BUF_SIZE * 2 ^ k < MAX_BUF_SIZE \<Longrightarrow> \<exists>j \<le> 6. INITIAL_BUF_SIZE * 2 ^ k * 2 = INITIAL_BUF_SIZE * 2 ^ j"
proof -
  have "(2 :: nat) ^ k \<le> 2 ^ 6" using assms by (intro power_increasing) auto
  then show "INITIAL_BUF_SIZE * 2 ^ k \<le> MAX_BUF_SIZE" "0 < INITIAL_BUF_SIZE * 2 ^ k" by (auto simp: buf_sizes)
  assume "INITIAL_BUF_SIZE * 2 ^ k < MAX_BUF_SIZE"
  then have "k \<noteq> 6" by (auto simp: buf_sizes)
  with assms show "\<exists>j \<le> 6. INITIAL_BUF_SIZE * 2 ^ k * 2 = INITIAL_BUF_SIZE * 2 ^ j"
    by (intro exI [of _ "Suc k"]) auto
qed

lemma buffer_ok_bounds:
  assumes "buffer_ok buf len"
  shows "length buf \<le> MAX_BUF_SIZE" "0 < length buf" "len \<le> length buf" "length (take len buf) = len"
  using assms capacity_bounds(1,2) by (auto simp: buffer_ok_def)

lemma buffer_ok_new: "buffer_ok (replicate INITIAL_BUF_SIZE 0) 0"
  by (auto simp: buffer_ok_def intro: exI [of _ 0])

lemma buffer_ok_consume:
  assumes "buffer_ok buf len" and "n \<le> len"
  shows "buffer_ok (write_at 0 (drop n (take len buf)) buf) (len - n)"
    "take (len - n) (write_at 0 (drop n (take len buf)) buf) = drop n (take len buf)"
  using assms by (auto simp: buffer_ok_def write_at_def)

lemma buffer_ok_grow:
  assumes "buffer_ok buf len" and "len < MAX_BUF_SIZE"
  defines "buf' \<equiv> (if len = length buf then buf @ replicate (length buf) 0 else buf)"
  shows "buffer_ok buf' len" "len < length buf'" "take len buf' = take len buf"
proof -
  obtain k where k: "len \<le> length buf" "k \<le> 6" "length buf = INITIAL_BUF_SIZE * 2 ^ k"
    using assms(1) by (auto simp: buffer_ok_def)
  then show "len < length buf'" "take len buf' = take len buf"
    using capacity_bounds(2) [OF k(2)] by (auto simp: buf'_def)
  show "buffer_ok buf' len"
    using k capacity_bounds(3) [OF k(2)] assms(2) by (auto simp: buffer_ok_def buf'_def mult_2_right)
qed

lemma buffer_ok_fill:
  assumes "buffer_ok buf len" and "length bs \<le> length buf - len"
  shows "buffer_ok (write_at len bs buf) (len + length bs)" "take (len + length bs) (write_at len bs buf) = take len buf @ bs"
  using assms by (auto simp: buffer_ok_def take_write_at_over)

subsection \<open>What the bytes of a connection mean\<close>

text \<open>
  \<open>head_at H bs k r\<close>: of \<open>bs\<close>, the head parser needs the first \<open>k\<close> bytes, and then answers \<open>r\<close>,
  whatever part of the remaining bytes it is shown.
\<close>

definition head_at :: "'m http_lib \<Rightarrow> bytes \<Rightarrow> nat \<Rightarrow> (parsed_head option, string) Result \<Rightarrow> bool" where
  "head_at H bs k r \<longleftrightarrow> k \<le> length bs \<and> k \<le> MAX_BUF_SIZE \<and>
     (\<forall>j < k. h_parse H MAX_HEADERS (take j bs) = Ok None) \<and>
     (\<forall>j. k \<le> j \<and> j \<le> length bs \<longrightarrow> h_parse H MAX_HEADERS (take j bs) = r)"

definition no_head :: "'m http_lib \<Rightarrow> bytes \<Rightarrow> bool" where
  "no_head H bs \<longleftrightarrow> (\<forall>j \<le> min (length bs) MAX_BUF_SIZE. h_parse H MAX_HEADERS (take j bs) = Ok None)"

inductive wire_body :: "'m http_lib \<Rightarrow> 'm \<Rightarrow> bytes \<Rightarrow> (bytes, ParseError) Result \<Rightarrow> bytes \<Rightarrow> bool"
  for H headers where
  empty: "\<not> is_chunked H headers \<Longrightarrow> get_content_length H headers = None \<Longrightarrow> wire_body H headers tail (Ok []) tail"
| fixed: "\<not> is_chunked H headers \<Longrightarrow> get_content_length H headers = Some (length body) \<Longrightarrow> length body < 2 ^ 63 \<Longrightarrow>
    wire_body H headers (body @ tail) (Ok body) tail"
| fixed_short: "\<not> is_chunked H headers \<Longrightarrow> get_content_length H headers = Some n \<Longrightarrow> length bs < n \<Longrightarrow> n < 2 ^ 63 \<Longrightarrow>
    wire_body H headers bs (Err ConnectionClosed) []"
| chunked: "is_chunked H headers \<Longrightarrow> \<forall>c \<in> set cs. chunk_ok c \<Longrightarrow>
    wire_body H headers (encode_chunks cs @ tail) (Ok (concat (map snd cs))) tail"
| bad_size: "is_chunked H headers \<Longrightarrow> \<forall>c \<in> set cs. chunk_ok c \<Longrightarrow> 10 \<notin> set line \<Longrightarrow>
    chunk_size_of (strip_cr line) = None \<Longrightarrow>
    wire_body H headers (concat (map encode_chunk cs) @ line @ 10 # tail) (Err InvalidContentLength) []"
| no_line: "is_chunked H headers \<Longrightarrow> \<forall>c \<in> set cs. chunk_ok c \<Longrightarrow> 10 \<notin> set line \<Longrightarrow>
    wire_body H headers (concat (map encode_chunk cs) @ line) (Err ConnectionClosed) []"
| chunk_short: "is_chunked H headers \<Longrightarrow> \<forall>c \<in> set cs. chunk_ok c \<Longrightarrow> 10 \<notin> set line \<Longrightarrow>
    chunk_size_of (strip_cr line) = Some n \<Longrightarrow> length bs < n \<Longrightarrow> n < 2 ^ 63 \<Longrightarrow>
    wire_body H headers (concat (map encode_chunk cs) @ line @ 10 # bs) (Err ConnectionClosed) []"

inductive wire_request :: "'m http_lib \<Rightarrow> bytes \<Rightarrow> ('m Request option, ParseError) Result \<Rightarrow> bytes \<Rightarrow> bool"
  for H where
  closed: "no_head H [] \<Longrightarrow> wire_request H [] (Ok None) []"
| head_short: "no_head H bs \<Longrightarrow> bs \<noteq> [] \<Longrightarrow> length bs < MAX_BUF_SIZE \<Longrightarrow> wire_request H bs (Err ConnectionClosed) []"
| head_large: "no_head H bs \<Longrightarrow> MAX_BUF_SIZE \<le> length bs \<Longrightarrow> wire_request H bs (Err HeadersTooLarge) []"
| head_malformed: "head_at H bs k (Err e) \<Longrightarrow> wire_request H bs (Err (Parse e)) []"
| head_invalid: "head_at H bs k (Ok (Some ph)) \<Longrightarrow> convert_head H ph = Err e \<Longrightarrow> wire_request H bs (Err e) []"
| body_invalid: "head_at H bs k (Ok (Some ph)) \<Longrightarrow> convert_head H ph = Ok (mth, path, version, headers, k) \<Longrightarrow>
    wire_body H headers (drop k bs) (Err e) tail \<Longrightarrow> wire_request H bs (Err e) []"
| uri_invalid: "head_at H bs k (Ok (Some ph)) \<Longrightarrow> convert_head H ph = Ok (mth, path, version, headers, k) \<Longrightarrow>
    wire_body H headers (drop k bs) (Ok body) tail \<Longrightarrow> h_uri H path = None \<Longrightarrow> wire_request H bs (Err InvalidUri) []"
| request: "head_at H bs k (Ok (Some ph)) \<Longrightarrow> convert_head H ph = Ok (mth, path, version, headers, k) \<Longrightarrow>
    wire_body H headers (drop k bs) (Ok body) tail \<Longrightarrow> h_uri H path = Some uri \<Longrightarrow>
    wire_request H bs (Ok (Some \<lparr>rq_method = mth, rq_uri = uri, rq_version = version, rq_headers = headers,
      rq_body = body\<rparr>)) tail"

text \<open>The response to a request, and the bytes a server that follows the order of the requests writes.\<close>

definition final_response :: "'m http_lib \<Rightarrow> ('m Request \<Rightarrow> 'm Response) \<Rightarrow> 'm Request \<Rightarrow> 'm Response" where
  "final_response H handler request =
     (if should_keep_alive H (rq_headers request) (rq_version request) then handler request
      else (handler request)\<lparr>rs_headers :=
        h_map_insert H (ascii ''connection'') (ascii ''close'') (rs_headers (handler request))\<rparr>)"

inductive wire_session ::
  "'m http_lib \<Rightarrow> ('m Request \<Rightarrow> 'm Response) \<Rightarrow> bytes \<Rightarrow> bytes \<Rightarrow> (unit, ParseError) Result \<Rightarrow> bool"
  for H handler where
  ended: "wire_request H bs (Ok None) tail \<Longrightarrow> wire_session H handler bs [] (Ok ())"
| dropped: "wire_request H bs (Err ConnectionClosed) tail \<Longrightarrow> wire_session H handler bs [] (Ok ())"
| refused: "wire_request H bs (Err e) tail \<Longrightarrow> e \<noteq> ConnectionClosed \<Longrightarrow>
    wire_session H handler bs (serialize_response H (error_response H e)) (Err e)"
| last: "wire_request H bs (Ok (Some req)) tail \<Longrightarrow> \<not> should_keep_alive H (rq_headers req) (rq_version req) \<Longrightarrow>
    wire_session H handler bs (serialize_response H (final_response H handler req)) (Ok ())"
| next_request: "wire_request H bs (Ok (Some req)) tail \<Longrightarrow> should_keep_alive H (rq_headers req) (rq_version req) \<Longrightarrow>
    wire_session H handler tail out res \<Longrightarrow>
    wire_session H handler bs (serialize_response H (final_response H handler req) @ out) res"

lemma head_at_complete:
  assumes "head_parser_ok H" and "h_parse H MAX_HEADERS bs = Ok (Some ph)" and "ph_len ph \<le> MAX_BUF_SIZE"
  shows "head_at H bs (ph_len ph) (Ok (Some ph))"
proof -
  have "h_parse H MAX_HEADERS (take j bs) = Ok (Some ph)" if "ph_len ph \<le> j" for j
  proof -
    have "take j bs = take (ph_len ph) bs @ take (j - ph_len ph) (drop (ph_len ph) bs)"
      using that take_add [of "ph_len ph" "j - ph_len ph" bs] by simp
    then show ?thesis using head_parser_okD(3) [OF assms(1,2)] by simp
  qed
  then show ?thesis
    using head_parser_okD(2,4) [OF assms(1,2)] assms(3) by (simp add: head_at_def)
qed

lemma convert_head_len: "convert_head H ph = Ok (mth, path, version, headers, k) \<Longrightarrow> k = ph_len ph"
  by (auto simp: convert_head_def Let_def split: option.splits Result.splits if_splits)

lemma wire_request_complete:
  assumes "head_parser_ok H" and "h_parse H MAX_HEADERS bs = Ok (Some ph)" and "ph_len ph \<le> MAX_BUF_SIZE"
    and "convert_head H ph = Ok (mth, path, version, headers, k)"
    and "wire_body H headers (drop (ph_len ph) bs) (Ok body) tail" and "h_uri H path = Some uri"
  shows "wire_request H bs (Ok (Some \<lparr>rq_method = mth, rq_uri = uri, rq_version = version, rq_headers = headers,
      rq_body = body\<rparr>)) tail"
  using wire_request.request [OF head_at_complete [OF assms(1-3)]] convert_head_len [OF assms(4)] assms(4-6) by metis

lemma wire_request_nonempty:
  assumes "no_head H []" and "wire_request H bs (Ok (Some req)) tail"
  shows "bs \<noteq> []"
  using assms(2)
proof cases
  case (request k ph)
  then show ?thesis using assms(1) by (auto simp: head_at_def no_head_def)
qed

lemma position_nl_Some: "10 \<notin> set line \<Longrightarrow> position_nl (line @ 10 # tail) = Some (length line)"
proof -
  assume "10 \<notin> set line"
  then have "takeWhile (\<lambda>b. b \<noteq> 10) (line @ 10 # tail) = line" by (subst takeWhile_append2) auto
  then show ?thesis by (simp add: position_nl_def)
qed

lemma position_nl_None: "10 \<notin> set bs \<Longrightarrow> position_nl bs = None"
  by (subst position_nl_def, subst takeWhile_eq_all_conv [THEN iffD2]) auto

subsection \<open>A parser over a buffer and a stream\<close>

text \<open>
  The interface both servers implement: \<open>buffered\<close> are the valid bytes of the buffer, \<open>incoming\<close> the
  bytes still in the stream. The laws are those of the buffer (reading more of the stream, consuming
  from the front), of \<open>read_exact\<close>, and the equations of the functions that are built on them.
\<close>

locale http_parser =
  fixes H :: "'m http_lib"
    and ok :: "'p \<Rightarrow> bool"
    and buffered :: "'p \<Rightarrow> bytes"
    and incoming :: "'p \<Rightarrow> bytes"
    and kept :: "'p \<Rightarrow> 'o"
    and read_more :: "'p \<Rightarrow> (usize, 'p) act"
    and consume :: "usize \<Rightarrow> 'p \<Rightarrow> 'p"
    and parse_headers :: "'p \<Rightarrow> ((bytes \<times> bytes \<times> Version \<times> 'm \<times> usize) option, 'p) act"
    and read_line :: "bytes \<Rightarrow> 'p \<Rightarrow> (bytes, 'p) act"
    and read_exact :: "usize \<Rightarrow> 'p \<Rightarrow> (bytes, 'p) act"
    and parse_request :: "'p \<Rightarrow> ('m Request option, 'p) act"
  assumes buffered_bound: "ok p \<Longrightarrow> length (buffered p) \<le> MAX_BUF_SIZE"
    and read_more_ok: "ok p \<Longrightarrow> length (buffered p) < MAX_BUF_SIZE \<Longrightarrow>
      \<exists>bs p'. read_more p = act_ok (length bs) p' \<and> ok p' \<and> kept p' = kept p \<and> buffered p' = buffered p @ bs \<and>
        incoming p = bs @ incoming p' \<and> (incoming p \<noteq> [] \<longrightarrow> bs \<noteq> [])"
    and read_more_full: "ok p \<Longrightarrow> MAX_BUF_SIZE \<le> length (buffered p) \<Longrightarrow> read_more p = act_err HeadersTooLarge p"
    and consume_ok: "ok p \<Longrightarrow> n \<le> length (buffered p) \<Longrightarrow> ok (consume n p) \<and> kept (consume n p) = kept p \<and>
        buffered (consume n p) = drop n (buffered p) \<and> incoming (consume n p) = incoming p"
    and read_exact_ok: "ok p \<Longrightarrow> buffered p @ incoming p = bs @ tail \<Longrightarrow> length bs = n \<Longrightarrow> n < 2 ^ 63 \<Longrightarrow>
      \<exists>p'. read_exact n p = act_ok bs p' \<and> ok p' \<and> buffered p' @ incoming p' = tail \<and> kept p' = kept p"
    and read_exact_eof: "ok p \<Longrightarrow> length (buffered p @ incoming p) < n \<Longrightarrow> n < 2 ^ 63 \<Longrightarrow>
      \<exists>p'. read_exact n p = act_err ConnectionClosed p' \<and> kept p' = kept p"
    and read_exact_huge: "2 ^ 63 \<le> n \<Longrightarrow> read_exact n p = Some (Panic ''capacity overflow'')"
    and parse_headers_eq: "ok p \<Longrightarrow> parse_headers p =
      (case h_parse H MAX_HEADERS (buffered p) of
         Err e \<Rightarrow> act_err (Parse e) p
       | Ok (Some ph) \<Rightarrow> (case convert_head H ph of Err e \<Rightarrow> act_err e p | Ok parsed \<Rightarrow> act_ok (Some parsed) p)
       | Ok None \<Rightarrow> act_bind (read_more p) (\<lambda>n p'.
           if n = 0 then (if buffered p = [] then act_ok None p' else act_err ConnectionClosed p') else parse_headers p'))"
    and read_line_eq: "ok p \<Longrightarrow> read_line line p =
      (case position_nl (buffered p) of
         Some pos \<Rightarrow> act_ok (strip_cr (line @ take pos (buffered p))) (consume (pos + 1) p)
       | None \<Rightarrow> act_bind (read_more (consume (length (buffered p)) p)) (\<lambda>n p'.
           if n = 0 then act_err ConnectionClosed p' else read_line (line @ buffered p) p'))"
    and parse_request_eq: "parse_request p =
      act_bind (parse_headers p) (\<lambda>parsed p.
        case parsed of
          None \<Rightarrow> act_ok None p
        | Some (mth, uri, version, headers, header_len) \<Rightarrow>
            act_bind
              (if is_chunked H headers then chunk_loop (read_line []) read_exact [] (consume header_len p)
               else (case get_content_length H headers of
                       Some n \<Rightarrow> read_exact n (consume header_len p)
                     | None \<Rightarrow> act_ok [] (consume header_len p)))
              (\<lambda>body p. case h_uri H uri of
                 None \<Rightarrow> act_err InvalidUri p
               | Some uri \<Rightarrow> act_ok (Some \<lparr>rq_method = mth, rq_uri = uri, rq_version = version,
                   rq_headers = headers, rq_body = body\<rparr>) p))"
begin

lemma parse_headers_at:
  assumes "ok p" and "head_at H (buffered p @ incoming p) k r" and "r \<noteq> Ok None"
  shows "\<exists>p'. parse_headers p =
      (case r of
         Err e \<Rightarrow> act_err (Parse e) p'
       | Ok None \<Rightarrow> act_ok None p'
       | Ok (Some ph) \<Rightarrow> (case convert_head H ph of Err e \<Rightarrow> act_err e p' | Ok parsed \<Rightarrow> act_ok (Some parsed) p')) \<and>
    ok p' \<and> kept p' = kept p \<and> buffered p' @ incoming p' = buffered p @ incoming p \<and> k \<le> length (buffered p')"
  using assms
proof (induction "length (incoming p)" arbitrary: p rule: less_induct)
  case less
  let ?bs = "buffered p @ incoming p"
  have part: "take (length (buffered p)) ?bs = buffered p" by simp
  have h: "k \<le> length ?bs" "k \<le> MAX_BUF_SIZE" "\<And>j. j < k \<Longrightarrow> h_parse H MAX_HEADERS (take j ?bs) = Ok None"
      "\<And>j. k \<le> j \<Longrightarrow> j \<le> length ?bs \<Longrightarrow> h_parse H MAX_HEADERS (take j ?bs) = r"
    using less.prems(2) by (auto simp: head_at_def)
  show ?case
  proof (cases "k \<le> length (buffered p)")
    case True
    then have "h_parse H MAX_HEADERS (buffered p) = r" using h(4) [of "length (buffered p)"] part by simp
    with True less.prems(1,3) show ?thesis
      by (intro exI [of _ p]) (auto simp: parse_headers_eq split: Result.split option.split)
  next
    case False
    then have partial: "h_parse H MAX_HEADERS (buffered p) = Ok None" using h(3) [of "length (buffered p)"] part by simp
    have "incoming p \<noteq> []" using False h(1) by auto
    then obtain bs p1 where 1: "read_more p = act_ok (length bs) p1" "ok p1" "kept p1 = kept p" "buffered p1 = buffered p @ bs"
        "incoming p = bs @ incoming p1" "bs \<noteq> []"
      using read_more_ok [OF less.prems(1)] False h(2) by force
    have eq: "buffered p1 @ incoming p1 = ?bs" using 1 by simp
    have "length (incoming p1) < length (incoming p)" using 1(5,6) by simp
    from less.hyps [OF this 1(2), unfolded eq, OF less.prems(2,3)] 1 show ?thesis
      by (simp add: parse_headers_eq [OF less.prems(1)] partial)
  qed
qed

lemma parse_headers_none:
  assumes "ok p" and "no_head H (buffered p @ incoming p)"
  shows "\<exists>p'. parse_headers p =
      (if MAX_BUF_SIZE \<le> length (buffered p @ incoming p) then act_err HeadersTooLarge p'
       else if buffered p @ incoming p = [] then act_ok None p' else act_err ConnectionClosed p') \<and> kept p' = kept p"
  using assms
proof (induction "length (incoming p)" arbitrary: p rule: less_induct)
  case less
  let ?bs = "buffered p @ incoming p"
  have partial: "h_parse H MAX_HEADERS (buffered p) = Ok None"
    using less.prems(2)[unfolded no_head_def, THEN spec [of _ "length (buffered p)"]] buffered_bound [OF less.prems(1)]
    by simp
  show ?case
  proof (cases "MAX_BUF_SIZE \<le> length (buffered p)")
    case True
    with read_more_full [OF less.prems(1)] show ?thesis
      by (auto simp: parse_headers_eq [OF less.prems(1)] partial)
  next
    case False
    obtain bs p1 where 1: "read_more p = act_ok (length bs) p1" "ok p1" "kept p1 = kept p" "buffered p1 = buffered p @ bs"
        "incoming p = bs @ incoming p1" "incoming p \<noteq> [] \<longrightarrow> bs \<noteq> []"
      using read_more_ok [OF less.prems(1)] False by force
    have eq: "buffered p1 @ incoming p1 = ?bs" using 1 by simp
    show ?thesis
    proof (cases "bs = []")
      case True
      with 1 False show ?thesis by (auto simp: parse_headers_eq [OF less.prems(1)] partial)
    next
      case ne: False
      then have "length (incoming p1) < length (incoming p)" using 1(5) by simp
      from less.hyps [OF this 1(2), unfolded eq, OF less.prems(2)] 1 ne show ?thesis
        by (simp add: parse_headers_eq [OF less.prems(1)] partial)
    qed
  qed
qed

lemma read_line_found:
  assumes "ok p" and "buffered p @ incoming p = rest @ 10 # tail" and "10 \<notin> set rest"
  shows "\<exists>p'. read_line line p = act_ok (strip_cr (line @ rest)) p' \<and> ok p' \<and> buffered p' @ incoming p' = tail \<and>
    kept p' = kept p"
  using assms
proof (induction "length (incoming p)" arbitrary: p line rest rule: less_induct)
  case less
  show ?case
  proof (cases "length rest < length (buffered p)")
    case True
    then obtain us where b: "buffered p = rest @ 10 # us" "tail = us @ incoming p"
      using less.prems(2) by (auto simp: append_eq_append_conv2 Cons_eq_append_conv append_eq_Cons_conv)
    then have "read_line line p = act_ok (strip_cr (line @ rest)) (consume (length rest + 1) p)"
      by (simp add: read_line_eq [OF less.prems(1)] position_nl_Some [OF less.prems(3)])
    with b consume_ok [OF less.prems(1), of "length rest + 1"] show ?thesis by auto
  next
    case False
    then obtain us where b: "rest = buffered p @ us" "incoming p = us @ 10 # tail"
      using less.prems(2) by (auto simp: append_eq_append_conv2 Cons_eq_append_conv append_eq_Cons_conv)
    let ?p = "consume (length (buffered p)) p"
    have c: "ok ?p" "buffered ?p = []" "incoming ?p = incoming p" "kept ?p = kept p"
      using consume_ok [OF less.prems(1)] by auto
    obtain bs p1 where 1: "read_more ?p = act_ok (length bs) p1" "ok p1" "kept p1 = kept p" "buffered p1 = bs"
        "incoming p = bs @ incoming p1" "bs \<noteq> []"
      using read_more_ok [OF c(1)] c b(2) by (auto simp: MAX_BUF_SIZE_def)
    have pos: "position_nl (buffered p) = None" using less.prems(3) b(1) by (simp add: position_nl_None)
    have "length (incoming p1) < length (incoming p)" using 1(5,6) by simp
    from less.hyps [OF this 1(2), of us "line @ buffered p"] less.prems(3) 1 b show ?thesis
      by (simp add: read_line_eq [OF less.prems(1)] pos)
  qed
qed

lemma read_line_missing:
  assumes "ok p" and "10 \<notin> set (buffered p @ incoming p)"
  shows "\<exists>p'. read_line line p = act_err ConnectionClosed p' \<and> kept p' = kept p"
  using assms
proof (induction "length (incoming p)" arbitrary: p line rule: less_induct)
  case less
  let ?p = "consume (length (buffered p)) p"
  have c: "ok ?p" "buffered ?p = []" "incoming ?p = incoming p" "kept ?p = kept p"
    using consume_ok [OF less.prems(1)] by auto
  obtain bs p1 where 1: "read_more ?p = act_ok (length bs) p1" "ok p1" "kept p1 = kept p" "buffered p1 = bs"
      "incoming p = bs @ incoming p1"
    using read_more_ok [OF c(1)] c by (auto simp: MAX_BUF_SIZE_def)
  have pos: "position_nl (buffered p) = None" using less.prems(2) by (simp add: position_nl_None)
  show ?case
  proof (cases "bs = []")
    case True
    with 1 show ?thesis by (simp add: read_line_eq [OF less.prems(1)] pos)
  next
    case False
    then have "length (incoming p1) < length (incoming p)" using 1(5) by simp
    from less.hyps [OF this 1(2), of "line @ buffered p"] less.prems(2) 1 False show ?thesis
      by (simp add: read_line_eq [OF less.prems(1)] pos)
  qed
qed

end

sublocale http_parser \<subseteq> framed: framed_input ok "\<lambda>p. buffered p @ incoming p" kept "read_line []" read_exact
proof (unfold_locales, goal_cases)
  case (1 p line tail)
  then show ?case using read_line_found [of p line tail "[]"] by simp
next
  case (2 p)
  then show ?case using read_line_missing [of p "[]"] by simp
qed (use read_exact_ok read_exact_eof read_exact_huge in blast)+

context http_parser
begin

abbreviation body_of :: "'m \<Rightarrow> 'p \<Rightarrow> (bytes, 'p) act" where
  "body_of headers p \<equiv>
     (if is_chunked H headers then chunk_loop (read_line []) read_exact [] p
      else (case get_content_length H headers of Some n \<Rightarrow> read_exact n p | None \<Rightarrow> act_ok [] p))"

lemma body_of_wire:
  assumes "wire_body H headers bs res tail" and "ok p" and "buffered p @ incoming p = bs"
  shows "\<exists>p'. body_of headers p = Some (Ret (res, p')) \<and> kept p' = kept p \<and>
    (is_ok res \<longrightarrow> ok p' \<and> buffered p' @ incoming p' = tail)"
  using assms
proof (induction rule: wire_body.induct)
  case (fixed body tail)
  then show ?case using read_exact_ok [of p body tail] by (auto simp: act_ok_def)
next
  case (fixed_short n bs)
  then show ?case using read_exact_eof [of p n] by (auto simp: act_err_def)
next
  case (chunked cs tail)
  then show ?case using framed.chunk_loop_decodes [of p cs tail "[]"] by (auto simp: act_ok_def)
next
  case (bad_size cs line tail)
  then show ?case using framed.chunk_loop_bad_size [of p cs line tail "[]"] by (auto simp: act_err_def)
next
  case (no_line cs line)
  then show ?case using framed.chunk_loop_no_line [of p cs line "[]"] by (auto simp: act_err_def)
next
  case (chunk_short cs line n bs)
  then show ?case using framed.chunk_loop_short [of p cs line bs n "[]"] by (auto simp: act_err_def)
qed (auto simp: act_ok_def)

lemma parse_request_body:
  assumes "ok p" and "head_at H (buffered p @ incoming p) k (Ok (Some ph))"
    and "convert_head H ph = Ok (mth, path, version, headers, k)"
  shows "\<exists>p'. parse_request p = act_bind (body_of headers p') (\<lambda>body p.
      case h_uri H path of
        None \<Rightarrow> act_err InvalidUri p
      | Some uri \<Rightarrow> act_ok (Some \<lparr>rq_method = mth, rq_uri = uri, rq_version = version, rq_headers = headers,
          rq_body = body\<rparr>) p) \<and>
    ok p' \<and> kept p' = kept p \<and> buffered p' @ incoming p' = drop k (buffered p @ incoming p)"
proof -
  obtain p1 where 1: "parse_headers p = act_ok (Some (mth, path, version, headers, k)) p1" "ok p1" "kept p1 = kept p"
      "buffered p1 @ incoming p1 = buffered p @ incoming p" "k \<le> length (buffered p1)"
    using parse_headers_at [OF assms(1,2)] assms(3) by auto
  have "buffered (consume k p1) @ incoming (consume k p1) = drop k (buffered p1 @ incoming p1)"
    using consume_ok [OF 1(2,5)] 1(5) by simp
  with 1 consume_ok [OF 1(2,5)] show ?thesis
    by (intro exI [of _ "consume k p1"]) (simp add: parse_request_eq [of p])
qed

lemma parse_request_wire:
  assumes "wire_request H bs res tail" and "ok p" and "buffered p @ incoming p = bs"
  shows "\<exists>p'. parse_request p = Some (Ret (res, p')) \<and> kept p' = kept p \<and>
    (\<forall>req. res = Ok (Some req) \<longrightarrow> ok p' \<and> buffered p' @ incoming p' = tail)"
  using assms
proof (induction rule: wire_request.induct)
  case closed
  then show ?case using parse_headers_none [of p] by (auto simp: parse_request_eq act_ok_def MAX_BUF_SIZE_def act_bind_def)
next
  case (head_short bs)
  then show ?case using parse_headers_none [of p] by (auto simp: parse_request_eq act_err_def act_bind_def)
next
  case (head_large bs)
  then show ?case using parse_headers_none [of p] by (auto simp: parse_request_eq act_err_def act_bind_def)
next
  case (head_malformed bs k e)
  then show ?case using parse_headers_at [of p k "Err e"] by (auto simp: parse_request_eq act_err_def act_bind_def)
next
  case (head_invalid bs k ph e)
  then show ?case using parse_headers_at [of p k "Ok (Some ph)"] by (auto simp: parse_request_eq act_err_def act_bind_def)
next
  case (body_invalid bs k ph mth path version headers e tail)
  then obtain p1 where 1: "ok p1" "kept p1 = kept p" "buffered p1 @ incoming p1 = drop k bs"
      "parse_request p = act_bind (body_of headers p1) (\<lambda>body p.
         case h_uri H path of
           None \<Rightarrow> act_err InvalidUri p
         | Some uri \<Rightarrow> act_ok (Some \<lparr>rq_method = mth, rq_uri = uri, rq_version = version, rq_headers = headers,
             rq_body = body\<rparr>) p)"
    using parse_request_body [of p k ph mth path version headers] by blast
  with body_of_wire [OF body_invalid(3) 1(1,3)] show ?case by (auto simp: act_bind_def)
next
  case (uri_invalid bs k ph mth path version headers body tail)
  then obtain p1 where 1: "ok p1" "kept p1 = kept p" "buffered p1 @ incoming p1 = drop k bs"
      "parse_request p = act_bind (body_of headers p1) (\<lambda>_ p. act_err InvalidUri p)"
    using parse_request_body [of p k ph mth path version headers] by auto
  with body_of_wire [OF uri_invalid(3) 1(1,3)] show ?case by (auto simp: act_bind_def act_err_def)
next
  case (request bs k ph mth path version headers body tail uri)
  then obtain p1 where 1: "ok p1" "kept p1 = kept p" "buffered p1 @ incoming p1 = drop k bs"
      "parse_request p = act_bind (body_of headers p1) (\<lambda>body p. act_ok (Some \<lparr>rq_method = mth, rq_uri = uri,
         rq_version = version, rq_headers = headers, rq_body = body\<rparr>) p)"
    using parse_request_body [of p k ph mth path version headers] by auto
  with body_of_wire [OF request(3) 1(1,3)] show ?case by (auto simp: act_bind_def act_ok_def)
qed

lemma parse_request_huge:
  assumes "ok p" and "head_at H (buffered p @ incoming p) k (Ok (Some ph))"
    and "convert_head H ph = Ok (mth, path, version, headers, k)"
    and "\<not> is_chunked H headers" and "get_content_length H headers = Some n" and "2 ^ 63 \<le> n"
  shows "parse_request p = Some (Panic ''capacity overflow'')"
  using parse_request_body [OF assms(1-3)] assms(4,5) read_exact_huge [OF assms(6)] by auto

text \<open>Parsing returns for every input, and a request takes at least one byte.\<close>

lemma parse_headers_post:
  assumes "ok p"
  shows "act_post (\<lambda>parsed p'. parsed \<noteq> None \<longrightarrow> ok p' \<and> buffered p' @ incoming p' = buffered p @ incoming p \<and>
    (\<exists>ph. h_parse H MAX_HEADERS (buffered p') = Ok (Some ph) \<and> convert_head H ph = Ok (the parsed))) (parse_headers p)"
  using assms
proof (induction "length (incoming p)" arbitrary: p rule: less_induct)
  case less
  show ?case
  proof (cases "h_parse H MAX_HEADERS (buffered p) = Ok None")
    case False
    then show ?thesis
      using less.prems by (auto simp: parse_headers_eq [OF less.prems] split: Result.split option.split)
  next
    case partial: True
    show ?thesis
    proof (cases "length (buffered p) < MAX_BUF_SIZE")
      case False
      then show ?thesis by (simp add: parse_headers_eq [OF less.prems] partial read_more_full [OF less.prems])
    next
      case True
      obtain bs p1 where 1: "read_more p = act_ok (length bs) p1" "ok p1" "buffered p1 = buffered p @ bs" "incoming p = bs @ incoming p1"
        using read_more_ok [OF less.prems True] by blast
      have eq: "buffered p1 @ incoming p1 = buffered p @ incoming p" using 1 by simp
      have "bs \<noteq> [] \<Longrightarrow> length (incoming p1) < length (incoming p)" using 1(4) by simp
      from less.hyps [OF this 1(2), unfolded eq] 1(1) show ?thesis
        by (auto simp: parse_headers_eq [OF less.prems] partial)
    qed
  qed
qed

lemma body_of_post:
  assumes "ok p"
  shows "act_post (\<lambda>_ p'. ok p' \<and> length (buffered p' @ incoming p') \<le> length (buffered p @ incoming p)) (body_of headers p)"
  using act_post_mono [OF framed.chunk_loop_post [OF assms, of "[]"]] framed.read_exact_post [OF assms] assms
  by (auto split: option.split)

lemma parse_request_post:
  assumes "head_parser_ok H" and "ok p"
  shows "act_post (\<lambda>req p'. req \<noteq> None \<longrightarrow> ok p' \<and> length (buffered p' @ incoming p') < length (buffered p @ incoming p))
    (parse_request p)"
proof (subst parse_request_eq, rule act_post_bind [OF parse_headers_post [OF assms(2)]], goal_cases)
  case (1 parsed p1)
  show ?case
  proof (cases parsed)
    case (Some parts)
    obtain mth uri version headers k where parts: "parts = (mth, uri, version, headers, k)" by (cases parts) auto
    obtain ph where ph: "ok p1" "buffered p1 @ incoming p1 = buffered p @ incoming p"
        "h_parse H MAX_HEADERS (buffered p1) = Ok (Some ph)" "convert_head H ph = Ok (mth, uri, version, headers, k)"
      using 1 Some parts by auto
    have k: "0 < k" "k \<le> length (buffered p1)"
      using convert_head_len [OF ph(4)] head_parser_okD(1,2) [OF assms(1) ph(3)] by auto
    note c = consume_ok [OF ph(1) k(2)]
    have less: "length (buffered (consume k p1) @ incoming (consume k p1)) < length (buffered p @ incoming p)"
      unfolding ph(2) [symmetric] using c k by simp
    have "act_post (\<lambda>req p'. req \<noteq> None \<longrightarrow> ok p' \<and> length (buffered p' @ incoming p') < length (buffered p @ incoming p))
        (act_bind (body_of headers (consume k p1)) (\<lambda>body p. case h_uri H uri of
           None \<Rightarrow> act_err InvalidUri p
         | Some uri \<Rightarrow> act_ok (Some \<lparr>rq_method = mth, rq_uri = uri, rq_version = version, rq_headers = headers,
             rq_body = body\<rparr>) p))"
      by (rule act_post_bind [OF body_of_post]) (use c less in \<open>auto split: option.split\<close>)
    with Some parts show ?thesis by simp
  qed simp
qed

end

end
