(* ===== verification/Http_Sim.thy ===== *)
theory Http_Sim
  imports Http_Lib
begin

section \<open>A small instance of the HTTP libraries and of a stream\<close>

text \<open>
  An executable instance of the parameters of the HTTP theories, which satisfies what they assume.
  A head of this instance is one line: its first byte is the method, a \<open>P\<close> is followed by the value
  of the content length, a \<open>C\<close> announces a chunked body, an \<open>X\<close> closes the connection. A stream
  is the list of the segments that arrive, with what has been written.
\<close>

type_synonym sim_headers = "(bytes \<times> bytes) list"

definition sim_head :: "bytes \<Rightarrow> parsed_head" where
  "sim_head line =
     \<lparr>ph_method = Some (take 1 line), ph_path = Some (ascii ''/''), ph_version = Some 1,
      ph_headers = (case line of
          [] \<Rightarrow> []
        | b # bs \<Rightarrow>
            (if b = 80 then [(ascii ''content-length'', bs)]
             else if b = 67 then [(ascii ''transfer-encoding'', ascii ''chunked'')]
             else if b = 88 then [(ascii ''connection'', ascii ''close'')] else [])),
      ph_len = length line + 1\<rparr>"

definition sim_parse :: "nat \<Rightarrow> bytes \<Rightarrow> (parsed_head option, string) Result" where
  "sim_parse n bs =
     (if 10 \<notin> set bs then Ok None
      else if hd bs = 10 then Err ''Token''
      else Ok (Some (sim_head (takeWhile (\<lambda>b. b \<noteq> 10) bs))))"

definition sim_http :: "sim_headers http_lib" where
  "sim_http =
     \<lparr>h_parse = sim_parse, h_method = (\<lambda>b. if b = [] then None else Some b), h_header_name = Some, h_header_value = Some,
      h_uri = (\<lambda>b. if b = [] then None else Some b), h_to_str = Some, h_map_new = [],
      h_map_insert = (\<lambda>k v m. AList.update k v m), h_map_get = map_of, h_map_iter = (\<lambda>m. m),
      h_status_str = show_radix 10, h_reason = (\<lambda>s. if s = 200 then Some (ascii ''OK'') else None)\<rparr>"

lemma sim_head_parser: "head_parser_ok sim_http"
proof -
  have "0 < ph_len ph \<and> ph_len ph \<le> length bs \<and>
      (\<forall>tail. sim_parse n (take (ph_len ph) bs @ tail) = Ok (Some ph)) \<and>
      (\<forall>k < ph_len ph. sim_parse n (take k bs) = Ok None)"
    if "sim_parse n bs = Ok (Some ph)" for n bs ph
  proof -
    have nl: "10 \<in> set bs" "hd bs \<noteq> 10" "ph = sim_head (takeWhile (\<lambda>b. b \<noteq> 10) bs)"
      using that by (auto simp: sim_parse_def split: if_splits)
    then obtain line tail where bs: "bs = line @ 10 # tail" "10 \<notin> set line" by (meson split_list_first)
    have line: "takeWhile (\<lambda>b. b \<noteq> 10) (line @ 10 # t) = line" for t
      using bs(2) by (subst takeWhile_append2) auto
    then have ph: "ph = sim_head line" using nl(3) bs(1) by simp
    have "line \<noteq> []" using nl(2) bs(1) by auto
    then have "hd line \<noteq> 10" using bs(2) hd_in_set by metis
    with \<open>line \<noteq> []\<close> have "sim_parse n ((line @ [10]) @ t) = Ok (Some ph)" for t
      using line [of t] bs(2) ph by (auto simp: sim_parse_def hd_append)
    moreover have "sim_parse n (take k line) = Ok None" for k
      using bs(2) by (auto simp: sim_parse_def dest: in_set_takeD)
    ultimately show ?thesis using bs ph by (auto simp: sim_head_def)
  qed
  then show ?thesis by (simp add: head_parser_ok_def sim_http_def)
qed

type_synonym sim_conn = "bytes list \<times> bytes"

definition sim_stream :: "sim_conn byte_stream" where
  "sim_stream =
     \<lparr>s_read = (\<lambda>n (segs, w).
        case dropWhile (\<lambda>s. s = []) segs of
          [] \<Rightarrow> (Ok [], ([], w))
        | s # ss \<Rightarrow> (Ok (take n s), (drop n s # ss, w))),
      s_read_exact = (\<lambda>n (segs, w).
        if n \<le> length (concat segs) then (Ok (take n (concat segs)), ([drop n (concat segs)], w))
        else (Err (StreamEof ''early eof''), ([], w))),
      s_write_all = (\<lambda>bs (segs, w). (Ok (), (segs, w @ bs))),
      s_flush = (\<lambda>r. (Ok (), r))\<rparr>"

abbreviation sim_incoming :: "sim_conn \<Rightarrow> bytes" where
  "sim_incoming r \<equiv> concat (fst r)"

abbreviation sim_written :: "sim_conn \<Rightarrow> bytes" where
  "sim_written r \<equiv> snd r"

lemma concat_dropWhile_Nil: "concat (dropWhile (\<lambda>s. s = []) segs) = concat segs"
  by (induction segs) auto

lemma sim_stream_ok: "stream_ok sim_stream sim_incoming sim_written"
proof -
  have "\<exists>bs r'. s_read sim_stream n (segs, w) = (Ok bs, r') \<and> concat segs = bs @ sim_incoming r' \<and> sim_written r' = w \<and>
      length bs \<le> n \<and> (0 < n \<and> concat segs \<noteq> [] \<longrightarrow> bs \<noteq> [])" for n segs w
  proof (cases "dropWhile (\<lambda>s. s = []) segs")
    case Nil
    then have "concat segs = []" using concat_dropWhile_Nil [of segs] by simp
    moreover have "s_read sim_stream n (segs, w) = (Ok [], ([], w))" 
      using Nil by (simp add: sim_stream_def del: dropWhile_eq_Nil_conv)
    ultimately show ?thesis by simp
  next
    case (Cons s ss)
    then have "s \<noteq> []" "concat segs = s @ concat ss"
      using concat_dropWhile_Nil [of segs] hd_dropWhile [of "\<lambda>s. s = []" segs] by auto
    with Cons show ?thesis by (simp add: sim_stream_def)
  qed
  then show ?thesis
    by (auto simp: stream_ok_def) (auto simp: sim_stream_def)
qed

end
