(* ===== verification/Custom_Http.thy ===== *)
theory Custom_Http
  imports Http_Parser Http_Sim
begin

section \<open>The HTTP/1.1 server over tokio streams\<close>

text \<open>
  A model of \<^verbatim>\<open>dpdk-net-test/src/app/custom_http.rs\<close>: the incremental parser over a buffer and a
  stream, the serialisation of responses, and the loop that serves a connection. The buffer is a
  vector of which \<open>hp_len\<close> bytes are valid. Growing a vector beyond \<open>isize::MAX\<close> panics.
\<close>

fun from_io_error :: "stream_error \<Rightarrow> ParseError" where
  "from_io_error (StreamEof msg) = ConnectionClosed"
| "from_io_error e = Io e"

subsection \<open>The parser\<close>

record 'r HttpParser =
  hp_reader :: 'r
  hp_buf :: bytes
  hp_len :: usize

definition http_parser_new :: "'r \<Rightarrow> 'r HttpParser" where
  "http_parser_new reader = \<lparr>hp_reader = reader, hp_buf = replicate INITIAL_BUF_SIZE 0, hp_len = 0\<rparr>"

text \<open>\<open>buf.copy_within(from..len, 0); len -= from\<close>, for \<open>from \<le> len\<close>.\<close>

definition consume :: "usize \<Rightarrow> 'r HttpParser \<Rightarrow> 'r HttpParser" where
  "consume from p =
     p\<lparr>hp_buf := write_at 0 (drop from (take (hp_len p) (hp_buf p))) (hp_buf p), hp_len := hp_len p - from\<rparr>"

definition read_more :: "'r byte_stream \<Rightarrow> 'r HttpParser \<Rightarrow> (usize, 'r HttpParser) act" where
  "read_more T p =
     (if hp_len p = length (hp_buf p) \<and> length (hp_buf p) \<ge> MAX_BUF_SIZE then act_err HeadersTooLarge p
      else
        let p = (if hp_len p = length (hp_buf p)
                 then p\<lparr>hp_buf := hp_buf p @ replicate (length (hp_buf p)) 0\<rparr> else p);
            (res, r) = s_read T (length (hp_buf p) - hp_len p) (hp_reader p);
            p = p\<lparr>hp_reader := r\<rparr>
        in (case res of
              Err e \<Rightarrow> act_err (from_io_error e) p
            | Ok bs \<Rightarrow> act_ok (length bs)
                (p\<lparr>hp_buf := write_at (hp_len p) bs (hp_buf p), hp_len := hp_len p + length bs\<rparr>)))"

partial_function (option) parse_headers ::
  "'m http_lib \<Rightarrow> 'r byte_stream \<Rightarrow> 'r HttpParser \<Rightarrow> ((bytes \<times> bytes \<times> Version \<times> 'm \<times> usize) option, 'r HttpParser) act" where
  "parse_headers H T p =
     (case h_parse H MAX_HEADERS (take (hp_len p) (hp_buf p)) of
        Err e \<Rightarrow> act_err (Parse e) p
      | Ok (Some ph) \<Rightarrow> (case convert_head H ph of Err e \<Rightarrow> act_err e p | Ok parsed \<Rightarrow> act_ok (Some parsed) p)
      | Ok None \<Rightarrow>
          (if hp_len p = 0 then
             act_bind (read_more T p) (\<lambda>n p. if n = 0 then act_ok None p else parse_headers H T p)
           else
             act_bind (read_more T p) (\<lambda>n p. if n = 0 then act_err ConnectionClosed p else parse_headers H T p)))"

definition read_exact :: "'r byte_stream \<Rightarrow> usize \<Rightarrow> 'r HttpParser \<Rightarrow> (bytes, 'r HttpParser) act" where
  "read_exact T len p =
     (if len > isize_max then Some (Panic ''capacity overflow'')
      else
        let from_buf = min (hp_len p) len;
            data = take from_buf (hp_buf p);
            p = consume from_buf p
        in if length data < len then
             (case s_read_exact T (len - from_buf) (hp_reader p) of
                (Err e, r) \<Rightarrow> act_err (from_io_error e) (p\<lparr>hp_reader := r\<rparr>)
              | (Ok bs, r) \<Rightarrow> act_ok (data @ bs) (p\<lparr>hp_reader := r\<rparr>))
           else act_ok data p)"

text \<open>\<open>read_fixed_body\<close> has the same text as \<open>read_exact\<close>.\<close>

definition read_fixed_body :: "'r byte_stream \<Rightarrow> usize \<Rightarrow> 'r HttpParser \<Rightarrow> (bytes, 'r HttpParser) act" where
  "read_fixed_body T len p =
     (if len > isize_max then Some (Panic ''capacity overflow'')
      else
        let from_buf = min (hp_len p) len;
            body = take from_buf (hp_buf p);
            p = consume from_buf p
        in if length body < len then
             (case s_read_exact T (len - from_buf) (hp_reader p) of
                (Err e, r) \<Rightarrow> act_err (from_io_error e) (p\<lparr>hp_reader := r\<rparr>)
              | (Ok bs, r) \<Rightarrow> act_ok (body @ bs) (p\<lparr>hp_reader := r\<rparr>))
           else act_ok body p)"

partial_function (option) read_line_loop :: "'r byte_stream \<Rightarrow> bytes \<Rightarrow> 'r HttpParser \<Rightarrow> (bytes, 'r HttpParser) act" where
  "read_line_loop T line p =
     (case position_nl (take (hp_len p) (hp_buf p)) of
        Some pos \<Rightarrow>
          (let line = line @ take pos (hp_buf p);
               line = (if line \<noteq> [] \<and> last line = 13 then butlast line else line)
           in act_ok line (consume (pos + 1) p))
      | None \<Rightarrow>
          (let line = line @ take (hp_len p) (hp_buf p) in
           act_bind (read_more T (p\<lparr>hp_len := 0\<rparr>)) (\<lambda>n p.
             if n = 0 then act_err ConnectionClosed p else read_line_loop T line p)))"

definition read_line :: "'r byte_stream \<Rightarrow> 'r HttpParser \<Rightarrow> (bytes, 'r HttpParser) act" where
  "read_line T p = read_line_loop T [] p"

definition read_chunked_body :: "'r byte_stream \<Rightarrow> 'r HttpParser \<Rightarrow> (bytes, 'r HttpParser) act" where
  "read_chunked_body T p = chunk_loop (read_line T) (read_exact T) [] p"

definition read_body :: "'m http_lib \<Rightarrow> 'r byte_stream \<Rightarrow> 'm \<Rightarrow> 'r HttpParser \<Rightarrow> (bytes, 'r HttpParser) act" where
  "read_body H T headers p =
     (if is_chunked H headers then read_chunked_body T p
      else (case get_content_length H headers of
              Some content_length \<Rightarrow> read_fixed_body T content_length p
            | None \<Rightarrow> act_ok [] p))"

definition parse_request :: "'m http_lib \<Rightarrow> 'r byte_stream \<Rightarrow> 'r HttpParser \<Rightarrow> ('m Request option, 'r HttpParser) act" where
  "parse_request H T p =
     act_bind (parse_headers H T p) (\<lambda>parsed p.
       case parsed of
         None \<Rightarrow> act_ok None p
       | Some (mth, uri, version, headers, header_len) \<Rightarrow>
           act_bind (read_body H T headers (consume header_len p)) (\<lambda>body p.
             case h_uri H uri of
               None \<Rightarrow> act_err InvalidUri p
             | Some uri \<Rightarrow> act_ok (Some \<lparr>rq_method = mth, rq_uri = uri, rq_version = version,
                 rq_headers = headers, rq_body = body\<rparr>) p))"

subsection \<open>Responses\<close>

definition write_response ::
  "'m http_lib \<Rightarrow> 'r byte_stream \<Rightarrow> 'm Response \<Rightarrow> 'r \<Rightarrow> (unit, stream_error) Result \<times> 'r" where
  "write_response H T response r =
     (case s_write_all T (serialize_response H response) r of
        (Err e, r) \<Rightarrow> (Err e, r)
      | (Ok _, r) \<Rightarrow> s_flush T r)"

text \<open>The loop over the requests of a connection; \<open>handler\<close> is the user's function.\<close>

partial_function (option) connection_loop ::
  "'m http_lib \<Rightarrow> 'r byte_stream \<Rightarrow> ('m Request \<Rightarrow> 'm Response) \<Rightarrow> 'r HttpParser \<Rightarrow> (unit, 'r HttpParser) act" where
  "connection_loop H T handler p =
     act_case (parse_request H T p) (\<lambda>res p.
       case res of
         Ok None \<Rightarrow> act_ok () p
       | Err ConnectionClosed \<Rightarrow> act_ok () p
       | Err e \<Rightarrow>
           (let (res, r) = write_response H T (error_response H e) (hp_reader p)
            in act_err e (p\<lparr>hp_reader := r\<rparr>))
       | Ok (Some request) \<Rightarrow>
           (let keep_alive = should_keep_alive H (rq_headers request) (rq_version request);
                response = handler request;
                response = (if keep_alive then response
                  else response\<lparr>rs_headers := h_map_insert H (ascii ''connection'') (ascii ''close'') (rs_headers response)\<rparr>)
            in (case write_response H T response (hp_reader p) of
                  (Err e, r) \<Rightarrow> act_err (Io e) (p\<lparr>hp_reader := r\<rparr>)
                | (Ok _, r) \<Rightarrow>
                    if keep_alive then connection_loop H T handler (p\<lparr>hp_reader := r\<rparr>)
                    else act_ok () (p\<lparr>hp_reader := r\<rparr>))))"

definition handle_connection ::
  "'m http_lib \<Rightarrow> 'r byte_stream \<Rightarrow> ('m Request \<Rightarrow> 'm Response) \<Rightarrow> 'r \<Rightarrow> (unit, 'r HttpParser) act" where
  "handle_connection H T handler io = connection_loop H T handler (http_parser_new io)"


subsection \<open>The parser implements the interface\<close>

definition buffered :: "'r HttpParser \<Rightarrow> bytes" where
  "buffered p = take (hp_len p) (hp_buf p)"

text \<open>The invariant of the parser on a connection without I/O errors.\<close>

definition parser_ok :: "'r byte_stream \<Rightarrow> ('r \<Rightarrow> bytes) \<Rightarrow> ('r \<Rightarrow> bytes) \<Rightarrow> 'r HttpParser \<Rightarrow> bool" where
  "parser_ok T incoming written p \<longleftrightarrow> stream_ok T incoming written \<and> buffer_ok (hp_buf p) (hp_len p)"

lemma parser_ok_new: "stream_ok T incoming written \<Longrightarrow> parser_ok T incoming written (http_parser_new r)"
  by (simp add: parser_ok_def http_parser_new_def buffer_ok_new)

lemma length_buffered: "parser_ok T incoming written p \<Longrightarrow> length (buffered p) = hp_len p"
  unfolding parser_ok_def buffered_def by (blast intro: buffer_ok_bounds(4))

lemma consume_laws:
  assumes "parser_ok T incoming written p" and "n \<le> length (buffered p)"
  shows "parser_ok T incoming written (consume n p)" "hp_reader (consume n p) = hp_reader p"
    "buffered (consume n p) = drop n (buffered p)"
  using assms buffer_ok_consume [of "hp_buf p" "hp_len p" n]
  by (simp_all add: parser_ok_def consume_def buffered_def)

text \<open>What \<open>read_more\<close> does below the capacity: it grows a full buffer and appends what it reads.\<close>

lemma read_more_below:
  assumes "parser_ok T incoming written p" and "length (buffered p) < MAX_BUF_SIZE"
  shows "\<exists>bs p'. read_more T p = act_ok (length bs) p' \<and> parser_ok T incoming written p' \<and>
    written (hp_reader p') = written (hp_reader p) \<and> buffered p' = buffered p @ bs \<and>
    incoming (hp_reader p) = bs @ incoming (hp_reader p') \<and> (incoming (hp_reader p) \<noteq> [] \<longrightarrow> bs \<noteq> [])"
proof -
  have p: "stream_ok T incoming written" "buffer_ok (hp_buf p) (hp_len p)" "hp_len p < MAX_BUF_SIZE"
    using assms length_buffered [OF assms(1)] by (auto simp: parser_ok_def)
  let ?buf = "if hp_len p = length (hp_buf p) then hp_buf p @ replicate (length (hp_buf p)) 0 else hp_buf p"
  note g = buffer_ok_grow [OF p(2,3)]
  obtain bs r where r: "s_read T (length ?buf - hp_len p) (hp_reader p) = (Ok bs, r)"
      "incoming (hp_reader p) = bs @ incoming r" "written r = written (hp_reader p)" "length bs \<le> length ?buf - hp_len p"
      "incoming (hp_reader p) \<noteq> [] \<longrightarrow> bs \<noteq> []"
    using stream_okD(1) [OF p(1), of "length ?buf - hp_len p" "hp_reader p"] g(2) by auto
  let ?p = "p\<lparr>hp_reader := r, hp_buf := write_at (hp_len p) bs ?buf, hp_len := hp_len p + length bs\<rparr>"
  have "read_more T p = act_ok (length bs) ?p"
    using r(1) p(3) by (auto simp: read_more_def Let_def split: if_splits)
  with r p(1) buffer_ok_fill [OF g(1) r(4)] g(3) show ?thesis
    by (auto simp: parser_ok_def buffered_def)
qed

lemma read_more_full:
  assumes "parser_ok T incoming written p" and "MAX_BUF_SIZE \<le> length (buffered p)"
  shows "read_more T p = act_err HeadersTooLarge p"
  using assms buffer_ok_bounds [of "hp_buf p" "hp_len p"] by (auto simp: parser_ok_def read_more_def buffered_def)

lemma read_exact_present:
  assumes "parser_ok T incoming written p" and "buffered p @ incoming (hp_reader p) = bs @ tail" and "length bs = n" and "n < 2 ^ 63"
  shows "\<exists>p'. read_exact T n p = act_ok bs p' \<and> parser_ok T incoming written p' \<and>
    buffered p' @ incoming (hp_reader p') = tail \<and> written (hp_reader p') = written (hp_reader p)"
proof -
  note len = length_buffered [OF assms(1)]
  have small: "\<not> n > isize_max" using assms(4) by (simp add: isize_max_def)
  show ?thesis
  proof (cases "n \<le> hp_len p")
    case True
    have "take n (hp_buf p) = take n (buffered p)" using True by (simp add: buffered_def)
    also have "\<dots> = bs" using True len assms(2,3) by (metis append_eq_append_conv_if append_take_drop_id length_take min.absorb2)
    finally have data: "take n (hp_buf p) = bs" .
    have "buffered p = bs @ drop n (buffered p)" using \<open>take n (buffered p) = bs\<close> append_take_drop_id by metis
    then have "drop n (buffered p) @ incoming (hp_reader p) = tail" using assms(2) by (metis append.assoc same_append_eq)
    moreover have "n \<le> length (hp_buf p)" using True assms(1) buffer_ok_bounds(3) by (fastforce simp: parser_ok_def)
    then have "read_exact T n p = act_ok bs (consume n p)"
      using True small data assms(3) by (simp add: read_exact_def min.absorb2 Let_def)
    ultimately show ?thesis using consume_laws [OF assms(1), of n] True len by auto
  next
    case False
    then obtain us where us: "bs = buffered p @ us" "incoming (hp_reader p) = us @ tail"
      using assms(2,3) len by (auto simp: append_eq_append_conv2)
    let ?p = "consume (hp_len p) p"
    have c: "parser_ok T incoming written ?p" "hp_reader ?p = hp_reader p" "buffered ?p = []"
      using consume_laws [OF assms(1), of "hp_len p"] len by auto
    obtain r where r: "s_read_exact T (length us) (hp_reader p) = (Ok us, r)" "incoming r = tail" "written r = written (hp_reader p)"
      using stream_okD(2) [of T incoming written "length us" "hp_reader p"] assms(1) us(2) by (auto simp: parser_ok_def)
    have "n - hp_len p = length us" using us(1) assms(3) len by simp
    moreover have "take (hp_len p) (hp_buf p) = buffered p" by (simp add: buffered_def)
    ultimately have "read_exact T n p = act_ok bs (?p\<lparr>hp_reader := r\<rparr>)"
      using False small r(1) c(2) us(1) len by (simp add: read_exact_def min_def Let_def)
    with c r show ?thesis by (auto simp: parser_ok_def buffered_def)
  qed
qed

lemma read_exact_missing:
  assumes "parser_ok T incoming written p" and "length (buffered p @ incoming (hp_reader p)) < n" and "n < 2 ^ 63"
  shows "\<exists>p'. read_exact T n p = act_err ConnectionClosed p' \<and> written (hp_reader p') = written (hp_reader p)"
proof -
  note len = length_buffered [OF assms(1)]
  have "length (incoming (hp_reader p)) < n - hp_len p" using assms(2) len by simp
  then obtain msg r where r: "s_read_exact T (n - hp_len p) (hp_reader p) = (Err (StreamEof msg), r)" "written r = written (hp_reader p)"
    using stream_okD(3) [of T incoming written "hp_reader p" "n - hp_len p"] assms(1) by (auto simp: parser_ok_def)
  have "hp_reader (consume (hp_len p) p) = hp_reader p" using consume_laws [OF assms(1), of "hp_len p"] len by simp
  moreover have "length (take (hp_len p) (hp_buf p)) < n" using assms(2) len by (simp add: buffered_def)
  ultimately show ?thesis
    using r assms len by (auto simp: read_exact_def isize_max_def min_def Let_def)
qed

lemma read_fixed_body_eq: "read_fixed_body T n p = read_exact T n p"
  by (simp add: read_fixed_body_def read_exact_def)

lemma consume_all: "p\<lparr>hp_len := 0\<rparr> = consume (hp_len p) p"
  by (simp add: consume_def)

interpretation parser: http_parser H "parser_ok T incoming written" buffered "\<lambda>p. incoming (hp_reader p)"
  "\<lambda>p. written (hp_reader p)" "read_more T" consume "parse_headers H T" "read_line_loop T" "read_exact T" "parse_request H T"
  for H T incoming written
proof (unfold_locales, goal_cases)
  case (1 p)
  then show ?case using buffer_ok_bounds(1) by (fastforce simp: parser_ok_def buffered_def)
next
  case (2 p)
  then show ?case by (rule read_more_below)
next
  case (3 p)
  then show ?case by (rule read_more_full)
next
  case (4 p n)
  then show ?case using consume_laws by metis
next
  case (5 p bs tail n)
  then show ?case by (rule read_exact_present)
next
  case (6 p n)
  then show ?case by (rule read_exact_missing)
next
  case (7 n p)
  then show ?case by (simp add: read_exact_def isize_max_def)
next
  case (8 p)
  then have "hp_len p = 0 \<longleftrightarrow> buffered p = []" using length_buffered by fastforce
  then show ?case
    by (cases "buffered p = []"; subst parse_headers.simps)
      (simp_all add: buffered_def [symmetric] cong: if_cong split: Result.split option.split)
next
  case (9 p line)
  then have "take pos (buffered p) = take pos (hp_buf p)" if "position_nl (buffered p) = Some pos" for pos
    using that by (auto simp: buffered_def position_nl_def Let_def split: if_splits)
  then show ?case
    unfolding length_buffered [OF 9]
    by (subst read_line_loop.simps) (simp add: consume_all buffered_def strip_cr_def Let_def cong: if_cong split: option.split)
next
  case (10 p)
  have line: "read_line T = read_line_loop T []" by (simp add: fun_eq_iff read_line_def)
  show ?case unfolding parse_request_def read_body_def read_chunked_body_def line read_fixed_body_eq ..
qed

subsection \<open>Serving a connection\<close>

lemma write_response_ok:
  assumes "stream_ok T incoming written"
  shows "\<exists>r'. write_response H T response r = (Ok (), r') \<and> incoming r' = incoming r \<and>
    written r' = written r @ serialize_response H response"
proof -
  obtain r1 where 1: "s_write_all T (serialize_response H response) r = (Ok (), r1)" "incoming r1 = incoming r"
      "written r1 = written r @ serialize_response H response"
    using stream_okD(4) [OF assms] by blast
  with stream_okD(5) [OF assms, of r1] show ?thesis by (auto simp: write_response_def)
qed

lemma parser_ok_reader:
  "parser_ok T incoming written (p\<lparr>hp_reader := r\<rparr>) = parser_ok T incoming written p"
  "buffered (p\<lparr>hp_reader := r\<rparr>) = buffered p"
  by (auto simp: parser_ok_def buffered_def)

lemma connection_loop_session:
  assumes "wire_session H handler bs out res" and "parser_ok T incoming written p"
    and "buffered p @ incoming (hp_reader p) = bs"
  shows "\<exists>p'. connection_loop H T handler p = Some (Ret (res, p')) \<and>
    written (hp_reader p') = written (hp_reader p) @ out"
  using assms
proof (induction arbitrary: p rule: wire_session.induct)
  case (ended bs tail)
  with parser.parse_request_wire [OF ended(1,2,3)] show ?case
    by (subst connection_loop.simps) (auto simp: act_case_def act_ok_def)
next
  case (dropped bs tail)
  with parser.parse_request_wire [OF dropped(1,2,3)] show ?case
    by (subst connection_loop.simps) (auto simp: act_case_def act_ok_def)
next
  case (refused bs e tail)
  obtain p1 where 1: "parse_request H T p = Some (Ret (Err e, p1))" "written (hp_reader p1) = written (hp_reader p)"
    using parser.parse_request_wire [OF refused(1,3,4)] by auto
  obtain r where r: "write_response H T (error_response H e) (hp_reader p1) = (Ok (), r)"
      "written r = written (hp_reader p1) @ serialize_response H (error_response H e)"
    using write_response_ok [of T incoming written] refused(3) by (metis parser_ok_def)
  from 1 r refused(2) show ?case
    by (subst connection_loop.simps) (auto simp: act_case_def act_err_def split: ParseError.split)
next
  case (last bs req tail)
  obtain p1 where 1: "parse_request H T p = Some (Ret (Ok (Some req), p1))" "written (hp_reader p1) = written (hp_reader p)"
    using parser.parse_request_wire [OF last(1,3,4)] by auto
  obtain r where r: "write_response H T (final_response H handler req) (hp_reader p1) = (Ok (), r)"
      "written r = written (hp_reader p1) @ serialize_response H (final_response H handler req)"
    using write_response_ok [of T incoming written] last(3) by (metis parser_ok_def)
  from 1 r last(2) show ?case
    by (subst connection_loop.simps) (auto simp: act_case_def act_ok_def final_response_def)
next
  case (next_request bs req tail out res)
  obtain p1 where 1: "parse_request H T p = Some (Ret (Ok (Some req), p1))" "written (hp_reader p1) = written (hp_reader p)"
      "parser_ok T incoming written p1" "buffered p1 @ incoming (hp_reader p1) = tail"
    using parser.parse_request_wire [OF next_request(1,5,6)] by auto
  obtain r where r: "write_response H T (final_response H handler req) (hp_reader p1) = (Ok (), r)"
      "incoming r = incoming (hp_reader p1)"
      "written r = written (hp_reader p1) @ serialize_response H (final_response H handler req)"
    using write_response_ok [of T incoming written] 1(3) by (metis parser_ok_def)
  have "connection_loop H T handler p = connection_loop H T handler (p1\<lparr>hp_reader := r\<rparr>)"
    using 1(1) r(1) next_request(2) by (subst connection_loop.simps) (simp add: act_case_def final_response_def)
  moreover obtain p2 where "connection_loop H T handler (p1\<lparr>hp_reader := r\<rparr>) = Some (Ret (res, p2))"
      "written (hp_reader p2) = written r @ out"
    using next_request.IH [of "p1\<lparr>hp_reader := r\<rparr>"] 1(3,4) r(2) by (auto simp: parser_ok_reader)
  ultimately show ?case using r(3) 1(2) by auto
qed

lemma connection_loop_returns:
  assumes "head_parser_ok H" and "parser_ok T incoming written p"
  shows "connection_loop H T handler p \<noteq> None"
  using assms(2)
proof (induction "length (buffered p @ incoming (hp_reader p))" arbitrary: p rule: less_induct)
  case less
  obtain x where x: "parse_request H T p = Some x"
      "\<And>req p'. x = Ret (Ok (Some req), p') \<Longrightarrow> parser_ok T incoming written p' \<and>
         length (buffered p' @ incoming (hp_reader p')) < length (buffered p @ incoming (hp_reader p))"
    using parser.parse_request_post [OF assms(1) less.prems] unfolding act_post_def by blast
  show ?case
  proof (cases "\<exists>req p'. x = Ret (Ok (Some req), p') \<and> should_keep_alive H (rq_headers req) (rq_version req)")
    case False
    then show ?thesis
      by (subst connection_loop.simps)
        (auto simp: x(1) act_case_def act_ok_def act_err_def Let_def
          split: outcome.split prod.split Result.split option.split ParseError.split)
  next
    case True
    then obtain req p1 where 1: "x = Ret (Ok (Some req), p1)" "should_keep_alive H (rq_headers req) (rq_version req)" by auto
    obtain r where r: "write_response H T (handler req) (hp_reader p1) = (Ok (), r)" "incoming r = incoming (hp_reader p1)"
      using write_response_ok [of T incoming written] less.prems by (metis parser_ok_def)
    have "connection_loop H T handler p = connection_loop H T handler (p1\<lparr>hp_reader := r\<rparr>)"
      using x(1) 1 r(1) by (subst connection_loop.simps) (simp add: act_case_def)
    then show ?thesis
      using less.hyps [of "p1\<lparr>hp_reader := r\<rparr>"] x(2) [OF 1(1)] r(2) by (simp add: parser_ok_reader)
  qed
qed

lemma buffered_new [simp]: "buffered (http_parser_new r) = []" "hp_reader (http_parser_new r) = r"
  by (simp_all add: buffered_def http_parser_new_def)

subsection \<open>The properties of the server\<close>

text \<open>
  The server answers what the bytes of the connection mean, in order, however they are cut into
  segments: pipelined requests, bodies with a content length and chunked bodies, and requests it
  refuses with a 400 response (C9).
\<close>

theorem handle_connection_serves:
  assumes "stream_ok T incoming written" and "wire_session H handler (incoming io) out res"
  shows "\<exists>p. handle_connection H T handler io = Some (Ret (res, p)) \<and> written (hp_reader p) = written io @ out"
  using connection_loop_session [OF assms(2) parser_ok_new [OF assms(1), of io]]
  by (simp add: handle_connection_def)

text \<open>
  The server returns on every finite input, whatever it contains: no loop waits for what has
  already arrived, and none repeats without consuming input (C11).
\<close>

theorem handle_connection_returns:
  assumes "stream_ok T incoming written" and "head_parser_ok H"
  shows "\<exists>x. handle_connection H T handler io = Some x"
  using connection_loop_returns [OF assms(2) parser_ok_new [OF assms(1)]]
  by (simp add: handle_connection_def)

text \<open>
  Decoding a chunked body gives back the data that was encoded, for all chunk sizes and chunk
  extensions, and leaves exactly what follows the last chunk (C12).
\<close>

theorem read_chunked_body_encode:
  assumes "parser_ok T incoming written p" and "buffered p @ incoming (hp_reader p) = encode_chunks cs @ tail"
    and "\<forall>c \<in> set cs. chunk_ok c"
  shows "\<exists>p'. read_chunked_body T p = act_ok (concat (map snd cs)) p' \<and> parser_ok T incoming written p' \<and>
    buffered p' @ incoming (hp_reader p') = tail \<and> written (hp_reader p') = written (hp_reader p)"
proof -
  have "read_line T = read_line_loop T []" by (simp add: fun_eq_iff read_line_def)
  then show ?thesis
    using parser.framed.chunk_loop_decodes [OF assms(1) assms(2,3), of "[]"] by (simp add: read_chunked_body_def)
qed

text \<open>
  A request whose \<open>Content-Length\<close> is above \<open>isize::MAX\<close> makes the server panic, because the body
  is allocated before any of it has arrived (C15).
\<close>

theorem content_length_overflow_panics:
  assumes "stream_ok T incoming written" and "head_parser_ok H"
    and "h_parse H MAX_HEADERS (incoming io) = Ok (Some ph)" and "ph_len ph \<le> MAX_BUF_SIZE"
    and "convert_head H ph = Ok (mth, path, version, headers, k)"
    and "\<not> is_chunked H headers" and "get_content_length H headers = Some n" and "2 ^ 63 \<le> n"
  shows "handle_connection H T handler io = Some (Panic ''capacity overflow'')"
proof -
  have "parse_request H T (http_parser_new io) = Some (Panic ''capacity overflow'')"
    using parser.parse_request_huge [OF parser_ok_new [OF assms(1), of io], of H "ph_len ph" ph mth path version headers n]
      head_at_complete [OF assms(2-4)] convert_head_len [OF assms(5)] assms(5-8) by simp
  then show ?thesis by (simp add: handle_connection_def connection_loop.simps [of H T handler])
qed

subsection \<open>A connection of the small instance\<close>

text \<open>The bodies of the methods of the instance.\<close>

lemma sim_keys:
  "ascii ''content-length'' \<noteq> ascii ''transfer-encoding''" "ascii ''content-length'' \<noteq> ascii ''connection''"
  "ascii ''transfer-encoding'' \<noteq> ascii ''connection''"
  by code_simp+

lemma sim_convert:
  "convert_head sim_http (sim_head (80 # v)) =
     Ok ([80], ascii ''/'', HTTP_11, [(ascii ''content-length'', v)], length v + 2)"
  "convert_head sim_http (sim_head [88]) = Ok ([88], ascii ''/'', HTTP_11, [(ascii ''connection'', ascii ''close'')], 2)"
  "convert_head sim_http (sim_head [67]) = Ok ([67], ascii ''/'', HTTP_11, [(ascii ''transfer-encoding'', ascii ''chunked'')], 2)"
  by (simp_all add: convert_head_def sim_http_def sim_head_def)

lemma sim_headers:
  "\<not> is_chunked sim_http [(ascii ''content-length'', v)]" "\<not> is_chunked sim_http [(ascii ''connection'', v)]"
  "get_content_length sim_http [(ascii ''content-length'', v)] = parse_usize v"
  "get_content_length sim_http [(ascii ''connection'', v)] = None"
  "should_keep_alive sim_http [(ascii ''content-length'', v)] HTTP_11"
  "\<not> should_keep_alive sim_http [(ascii ''connection'', ascii ''close'')] version"
  using sim_keys [THEN not_sym] sim_keys
  by (simp_all add: is_chunked_def get_content_length_def should_keep_alive_def sim_http_def) code_simp

lemma sim_uri: "h_uri sim_http (ascii ''/'') = Some (ascii ''/'')"
  by (simp add: sim_http_def ascii_def)

abbreviation sim_post :: "bytes \<Rightarrow> bytes \<Rightarrow> sim_headers Request" where
  "sim_post n body \<equiv> \<lparr>rq_method = [80], rq_uri = ascii ''/'', rq_version = HTTP_11,
     rq_headers = [(ascii ''content-length'', n)], rq_body = body\<rparr>"

abbreviation sim_last :: "sim_headers Request" where
  "sim_last \<equiv> \<lparr>rq_method = [88], rq_uri = ascii ''/'', rq_version = HTTP_11,
     rq_headers = [(ascii ''connection'', ascii ''close'')], rq_body = []\<rparr>"

lemma sim_wire_post: "wire_request sim_http ([80, 50, 10, 104, 105] @ tail) (Ok (Some (sim_post [50] [104, 105]))) tail"
proof (rule wire_request_complete [OF sim_head_parser _ _ sim_convert(1) _ sim_uri])
  have "parse_usize [50] = Some (length [104 :: u8, 105])" by (simp add: from_str_radix_def to_digit_def)
  then show "wire_body sim_http [(ascii ''content-length'', [50])]
      (drop (ph_len (sim_head [80, 50])) ([80, 50, 10, 104, 105] @ tail)) (Ok [104, 105]) tail"
    using wire_body.fixed [OF sim_headers(1), of "[50]" "[104, 105]" tail] by (simp add: sim_headers sim_head_def)
qed (simp_all add: sim_http_def sim_parse_def sim_head_def MAX_BUF_SIZE_def)

lemma sim_wire_last: "wire_request sim_http ([88, 10] @ tail) (Ok (Some sim_last)) tail"
proof (rule wire_request_complete [OF sim_head_parser _ _ sim_convert(2) _ sim_uri])
  show "wire_body sim_http [(ascii ''connection'', ascii ''close'')] (drop (ph_len (sim_head [88])) ([88, 10] @ tail)) (Ok []) tail"
    using wire_body.empty [OF sim_headers(2,4), of "ascii ''close''" tail] by (simp add: sim_head_def)
qed (simp_all add: sim_http_def sim_parse_def sim_head_def MAX_BUF_SIZE_def)

text \<open>Two pipelined requests that arrive in segments cut inside the first head and the body.\<close>

abbreviation sim_pipeline :: sim_conn where
  "sim_pipeline \<equiv> ([[80, 50], [10, 104], [105, 88, 10]], [])"

lemma sim_pipeline_session:
  "wire_session sim_http handler (sim_incoming sim_pipeline)
     (serialize_response sim_http (final_response sim_http handler (sim_post [50] [104, 105])) @
      serialize_response sim_http (final_response sim_http handler sim_last)) (Ok ())"
proof -
  have "wire_session sim_http handler [88, 10] (serialize_response sim_http (final_response sim_http handler sim_last)) (Ok ())"
    using wire_session.last [OF sim_wire_last [of "[]"]] by (simp add: sim_headers)
  from wire_session.next_request [OF sim_wire_post _ this] show ?thesis by (simp add: sim_headers)
qed

theorem handle_connection_serves_witness:
  "\<exists>p. handle_connection sim_http sim_stream (simple_echo_handler sim_http) sim_pipeline = Some (Ret (Ok (), p)) \<and>
    sim_written (hp_reader p) =
      serialize_response sim_http (simple_echo_handler sim_http (sim_post [50] [104, 105])) @
      serialize_response sim_http (final_response sim_http (simple_echo_handler sim_http) sim_last)"
  using handle_connection_serves [OF sim_stream_ok sim_pipeline_session [of "simple_echo_handler sim_http"]]
  by (simp add: final_response_def sim_headers)

theorem handle_connection_returns_witness:
  "\<exists>x. handle_connection sim_http sim_stream (simple_echo_handler sim_http) ([[80], [57]], []) = Some x"
  by (rule handle_connection_returns [OF sim_stream_ok sim_head_parser])

theorem read_chunked_body_encode_witness:
  "\<exists>p'. read_chunked_body sim_stream (http_parser_new ([[50, 59, 113, 13], [10, 104, 105, 13, 10, 48], [13, 10, 13, 10, 88]], [])) =
      act_ok [104, 105] p' \<and> buffered p' @ sim_incoming (hp_reader p') = [88]"
proof -
  have "encode_chunks [([59, 113], [104, 105])] @ [88] = [50, 59, 113, 13, 10, 104, 105, 13, 10, 48, 13, 10, 13, 10, 88]"
    by (simp add: encode_chunks_def encode_chunk_def show_radix.simps digit_byte_def)
  moreover have "chunk_ok ([59, 113], [104, 105])" by (simp add: chunk_ok_def)
  ultimately show ?thesis
    using read_chunked_body_encode [OF parser_ok_new [OF sim_stream_ok],
        of "([[50, 59, 113, 13], [10, 104, 105, 13, 10, 48], [13, 10, 13, 10, 88]], [])" "[([59, 113], [104, 105])]" "[88]"]
    by auto
qed

theorem content_length_overflow_panics_witness:
  "handle_connection sim_http sim_stream (simple_echo_handler sim_http) ([80 # ascii ''9223372036854775808'' @ [10]], []) =
    Some (Panic ''capacity overflow'')"
proof (rule content_length_overflow_panics [OF sim_stream_ok sim_head_parser _ _ sim_convert(1) sim_headers(1), unfolded sim_headers])
  show "parse_usize (ascii ''9223372036854775808'') = Some 9223372036854775808"
    by (simp add: from_str_radix_def to_digit_def ascii_def)
  show "h_parse sim_http MAX_HEADERS (sim_incoming ([80 # ascii ''9223372036854775808'' @ [10]], [])) =
      Ok (Some (sim_head (80 # ascii ''9223372036854775808'')))"
    by (simp add: sim_http_def sim_parse_def ascii_def)
qed (simp_all add: sim_head_def MAX_BUF_SIZE_def ascii_def)

end
