(* ===== verification/Raw_Client.thy ===== *)
theory Raw_Client
  imports Custom_Http
begin

section \<open>The benchmark client over raw TCP\<close>

text \<open>
  A model of \<^verbatim>\<open>tests/dpdk-bench-client/src/raw_client.rs\<close> and \<^verbatim>\<open>stats.rs\<close>. The client sends the
  same request again and again over a connection and measures the responses, which it parses only
  as far as it needs to know where they end. Streams are those of the HTTP servers, connecting and
  the clock are parameters of each iteration, and the histogram is a parameter. Counters wrap around.
\<close>

subsection \<open>Text\<close>

definition find_byte :: "u8 \<Rightarrow> bytes \<Rightarrow> usize option" where
  "find_byte b s = (if b \<in> set s then Some (length (takeWhile (\<lambda>x. x \<noteq> b) s)) else None)"

text \<open>What \<open>str::from_utf8\<close> accepts: the well-formed sequences of the Unicode standard.\<close>

abbreviation utf8_tail :: "u8 \<Rightarrow> bool" where
  "utf8_tail b \<equiv> 0x80 \<le> b \<and> b \<le> 0xBF"

fun utf8_valid :: "bytes \<Rightarrow> bool" where
  "utf8_valid [] = True"
| "utf8_valid (b # bs) =
     (if b < 0x80 then utf8_valid bs
      else
        case bs of
          [] \<Rightarrow> False
        | c # cs \<Rightarrow>
            if 0xC2 \<le> b \<and> b \<le> 0xDF then utf8_tail c \<and> utf8_valid cs
            else
              case cs of
                [] \<Rightarrow> False
              | d # ds \<Rightarrow>
                  if 0xE0 \<le> b \<and> b \<le> 0xEF then
                    utf8_tail c \<and> (b = 0xE0 \<longrightarrow> 0xA0 \<le> c) \<and> (b = 0xED \<longrightarrow> c \<le> 0x9F) \<and> utf8_tail d \<and> utf8_valid ds
                  else
                    case ds of
                      [] \<Rightarrow> False
                    | e # es \<Rightarrow>
                        0xF0 \<le> b \<and> b \<le> 0xF4 \<and> utf8_tail c \<and> (b = 0xF0 \<longrightarrow> 0x90 \<le> c) \<and> (b = 0xF4 \<longrightarrow> c \<le> 0x8F) \<and>
                        utf8_tail d \<and> utf8_tail e \<and> utf8_valid es)"

text \<open>\<open>str::lines\<close>: a line ends with a newline, which is removed with a carriage return before it.\<close>

function str_lines :: "bytes \<Rightarrow> bytes list" where
  "str_lines s =
     (if s = [] then []
      else if 10 \<in> set s then strip_cr (takeWhile (\<lambda>b. b \<noteq> 10) s) # str_lines (tl (dropWhile (\<lambda>b. b \<noteq> 10) s))
      else [s])"
  by auto
termination
proof (relation "measure length")
  fix s :: bytes
  assume "s \<noteq> []"
  then have "length (tl (dropWhile (\<lambda>b. b \<noteq> 10) s)) < length s"
    using length_dropWhile_le [of "\<lambda>b. b \<noteq> 10" s] by (cases s) (auto simp: less_Suc_eq_le)
  then show "(tl (dropWhile (\<lambda>b. b \<noteq> 10) s), s) \<in> measure length" by simp
qed simp

declare str_lines.simps [simp del]

subsection \<open>URLs and requests\<close>

record ParsedUrl =
  pu_host :: bytes
  pu_port :: u16
  pu_path :: bytes

definition parse_url :: "bytes \<Rightarrow> (ParsedUrl, string) Result" where
  "parse_url url =
     (if \<not> starts_with url (ascii ''http://'') then Err ''Only http:// URLs supported''
      else
        let url = drop 7 url;
            (host_port, path) = (case find_byte 47 url of
                Some idx \<Rightarrow> (take idx url, drop idx url)
              | None \<Rightarrow> (url, ascii ''/''))
        in case find_byte 58 host_port of
             Some idx \<Rightarrow>
               (case from_str_radix 65536 10 (drop (idx + 1) host_port) of
                  None \<Rightarrow> Err ''Invalid port''
                | Some port \<Rightarrow> Ok \<lparr>pu_host = take idx host_port, pu_port = of_nat port, pu_path = path\<rparr>)
           | None \<Rightarrow> Ok \<lparr>pu_host = host_port, pu_port = 80, pu_path = path\<rparr>)"

definition client_request :: "ParsedUrl \<Rightarrow> bytes" where
  "client_request parsed =
     ascii ''GET '' @ pu_path parsed @ ascii '' HTTP/1.1'' @ [13, 10] @
     ascii ''Host: '' @ pu_host parsed @ [13, 10] @ ascii ''Connection: keep-alive'' @ [13, 10, 13, 10]"

definition client_addr :: "ParsedUrl \<Rightarrow> bytes" where
  "client_addr parsed = pu_host parsed @ ascii '':'' @ show_radix 10 (unat (pu_port parsed))"

subsection \<open>Responses\<close>

definition find_header_end :: "bytes \<Rightarrow> usize option" where
  "find_header_end data =
     (case List.find (\<lambda>i. take 4 (drop i data) = [13, 10, 13, 10]) [0..<length data - 3] of
        Some i \<Rightarrow> Some (i + 4)
      | None \<Rightarrow> None)"

definition parse_content_length :: "bytes \<Rightarrow> usize option" where
  "parse_content_length headers =
     (if \<not> utf8_valid headers then None
      else
        case List.find (\<lambda>line. starts_with (to_ascii_lowercase line) (ascii ''content-length:'')) (str_lines headers) of
          Some line \<Rightarrow> parse_usize (trim (drop 15 (to_ascii_lowercase line)))
        | None \<Rightarrow> None)"

record response_state =
  rr_buf :: bytes
  rr_total_read :: usize
  rr_headers_end :: "usize option"
  rr_content_length :: "usize option"

text \<open>
  The results of the asynchronous reads, with the buffer as they leave it: \<open>None\<close> is a call that does
  not return.
\<close>

type_synonym ('a, 'b, 'r) io_call = "(('a, stream_error) Result \<times> 'b \<times> 'r) option"

text \<open>What one turn of the read loop does with \<open>n\<close> new bytes: the head and the length it announces.\<close>

definition note_headers :: "response_state \<Rightarrow> response_state" where
  "note_headers st =
     (if rr_headers_end st = None then
        (case find_header_end (take (rr_total_read st) (rr_buf st)) of
           Some pos \<Rightarrow> st\<lparr>rr_headers_end := Some pos, rr_content_length := parse_content_length (take pos (rr_buf st))\<rparr>
         | None \<Rightarrow> st)
      else st)"

definition response_complete :: "response_state \<Rightarrow> bool" where
  "response_complete st =
     (case rr_headers_end st of
        None \<Rightarrow> False
      | Some hdr_end \<Rightarrow>
          (case rr_content_length st of
             Some cl \<Rightarrow> rr_total_read st - hdr_end \<ge> cl
           | None \<Rightarrow> True))"

partial_function (option) response_loop :: "'r byte_stream \<Rightarrow> response_state \<Rightarrow> 'r \<Rightarrow> (unit, response_state, 'r) io_call" where
  "response_loop T st r =
     (case s_read T (length (rr_buf st) - rr_total_read st) r of
        (Err e, r) \<Rightarrow> Some (Err e, st, r)
      | (Ok bs, r) \<Rightarrow>
          if length bs = 0 then Some (Err (StreamEof ''connection closed''), st, r)
          else
            (let st = note_headers (st\<lparr>rr_buf := write_at (rr_total_read st) bs (rr_buf st),
                        rr_total_read := rr_total_read st + length bs\<rparr>)
             in if response_complete st then Some (Ok (), st, r)
                else response_loop T
                  (if rr_total_read st \<ge> length (rr_buf st)
                   then st\<lparr>rr_buf := rr_buf st @ replicate (length (rr_buf st)) 0\<rparr> else st) r))"

partial_function (option) drain_loop :: "'r byte_stream \<Rightarrow> usize \<Rightarrow> usize \<Rightarrow> usize \<Rightarrow> bytes \<Rightarrow> 'r \<Rightarrow> (usize, bytes, 'r) io_call" where
  "drain_loop T cl body_received total_read buf r =
     (if body_received < cl then
        (case s_read T (min (cl - body_received) (length buf)) r of
           (Err e, r) \<Rightarrow> Some (Err e, buf, r)
         | (Ok bs, r) \<Rightarrow>
             if length bs = 0 then Some (Ok total_read, buf, r)
             else drain_loop T cl (body_received + length bs) (total_read + length bs) (write_at 0 bs buf) r)
      else Some (Ok total_read, buf, r))"

text \<open>One request and its response: the block inside \<open>timeout\<close>. The buffer is kept for the next one.\<close>

definition exchange :: "'r byte_stream \<Rightarrow> bytes \<Rightarrow> bytes \<Rightarrow> 'r \<Rightarrow> (usize, bytes, 'r) io_call" where
  "exchange T request_bytes buf r =
     (case s_write_all T request_bytes r of
        (Err e, r) \<Rightarrow> Some (Err e, buf, r)
      | (Ok _, r) \<Rightarrow>
          Option.bind (response_loop T \<lparr>rr_buf = buf, rr_total_read = 0, rr_headers_end = None, rr_content_length = None\<rparr> r)
            (\<lambda>(res, st, r).
              case res of
                Err e \<Rightarrow> Some (Err e, rr_buf st, r)
              | Ok _ \<Rightarrow>
                  (case (rr_headers_end st, rr_content_length st) of
                     (Some hdr_end, Some cl) \<Rightarrow>
                       drain_loop T cl (rr_total_read st - hdr_end) (rr_total_read st) (rr_buf st) r
                   | _ \<Rightarrow> Some (Ok (rr_total_read st), rr_buf st, r))))"

subsection \<open>Statistics\<close>

record 'h histogram =
  hist_new :: 'h
  hist_record :: "u64 \<Rightarrow> 'h \<Rightarrow> 'h"
  hist_add :: "'h \<Rightarrow> 'h \<Rightarrow> 'h"

record 'h BenchStats =
  bs_requests :: u64
  bs_errors :: u64
  bs_bytes_read :: u64
  bs_latency_histogram :: 'h
  bs_active_connections :: usize
  bs_error_samples :: "string list"
  bs_max_error_samples :: usize

definition bench_stats_new :: "'h histogram \<Rightarrow> 'h BenchStats" where
  "bench_stats_new G =
     \<lparr>bs_requests = 0, bs_errors = 0, bs_bytes_read = 0, bs_latency_histogram = hist_new G, bs_active_connections = 0,
      bs_error_samples = [], bs_max_error_samples = 5\<rparr>"

text \<open>\<open>locked\<close> says whether \<open>try_lock\<close> succeeded.\<close>

definition record_error_sample :: "bool \<Rightarrow> string \<Rightarrow> 'h BenchStats \<Rightarrow> 'h BenchStats" where
  "record_error_sample locked msg s =
     (if locked \<and> length (bs_error_samples s) < bs_max_error_samples s
      then s\<lparr>bs_error_samples := bs_error_samples s @ [msg]\<rparr> else s)"

record 'h LocalStats =
  ls_histogram :: 'h
  ls_requests :: u64
  ls_bytes :: u64
  ls_errors :: u64

definition local_stats_new :: "'h histogram \<Rightarrow> 'h LocalStats" where
  "local_stats_new G = \<lparr>ls_histogram = hist_new G, ls_requests = 0, ls_bytes = 0, ls_errors = 0\<rparr>"

definition record_success :: "'h histogram \<Rightarrow> u64 \<Rightarrow> usize \<Rightarrow> 'h LocalStats \<Rightarrow> 'h LocalStats" where
  "record_success G latency_us n s =
     s\<lparr>ls_requests := ls_requests s + 1, ls_bytes := ls_bytes s + of_nat n, ls_histogram := hist_record G latency_us (ls_histogram s)\<rparr>"

definition record_error :: "'h LocalStats \<Rightarrow> 'h LocalStats" where
  "record_error s = s\<lparr>ls_errors := ls_errors s + 1\<rparr>"

definition merge_into :: "'h histogram \<Rightarrow> bool \<Rightarrow> 'h LocalStats \<Rightarrow> 'h BenchStats \<Rightarrow> 'h BenchStats" where
  "merge_into G locked l s =
     (let s = s\<lparr>bs_requests := bs_requests s + ls_requests l, bs_bytes_read := bs_bytes_read s + ls_bytes l,
                bs_errors := bs_errors s + ls_errors l\<rparr>
      in if locked then s\<lparr>bs_latency_histogram := hist_add G (ls_histogram l) (bs_latency_histogram s)\<rparr> else s)"

subsection \<open>The connection\<close>

text \<open>
  One turn of the loop of a connection. The outside of a turn: the result of connecting, which may
  time out, whether the exchange is cut by its time limit (and the buffer it then leaves), the
  latency measured, and whether the locks are free.
\<close>

record 'r bench_turn =
  bt_connect :: "('r, string) Result option"
  bt_cut :: "bytes option"
  bt_latency :: u64
  bt_locked :: bool

type_synonym ('r, 'h) bench_conn = "'r option \<times> bytes \<times> 'h LocalStats \<times> 'h BenchStats"

fun stream_error_text :: "stream_error \<Rightarrow> string" where
  "stream_error_text (StreamEof msg) = msg"
| "stream_error_text (StreamOther msg) = msg"

definition run_exchange ::
  "'h histogram \<Rightarrow> 'r byte_stream \<Rightarrow> bytes \<Rightarrow> 'r bench_turn \<Rightarrow> 'r \<Rightarrow> bytes \<Rightarrow> 'h LocalStats \<Rightarrow> 'h BenchStats \<Rightarrow>
     ('r, 'h) bench_conn option" where
  "run_exchange G T request_bytes turn s buf local stats =
     (case bt_cut turn of
        Some left \<Rightarrow> Some (None, left, record_error local, record_error_sample (bt_locked turn) ''timeout'' stats)
      | None \<Rightarrow>
          Option.bind (exchange T request_bytes buf s) (\<lambda>(res, buf, s).
            case res of
              Ok n \<Rightarrow> Some (Some s, buf, record_success G (bt_latency turn) n local, stats)
            | Err e \<Rightarrow> Some (None, buf, record_error local,
                record_error_sample (bt_locked turn) (''io: '' @ stream_error_text e) stats)))"

definition run_turn ::
  "'h histogram \<Rightarrow> 'r byte_stream \<Rightarrow> bytes \<Rightarrow> 'r bench_turn \<Rightarrow> ('r, 'h) bench_conn \<Rightarrow> ('r, 'h) bench_conn option" where
  "run_turn G T request_bytes turn c =
     (case c of (stream, buf, local, stats) \<Rightarrow>
       case stream of
         Some s \<Rightarrow> run_exchange G T request_bytes turn s buf local stats
       | None \<Rightarrow>
           (case bt_connect turn of
              Some (Ok s) \<Rightarrow> run_exchange G T request_bytes turn s buf local stats
            | Some (Err e) \<Rightarrow>
                Some (None, buf, record_error local, record_error_sample (bt_locked turn) (''connect: '' @ e) stats)
            | None \<Rightarrow>
                Some (None, buf, record_error local, record_error_sample (bt_locked turn) ''connect timeout'' stats)))"

fun run_turns ::
  "'h histogram \<Rightarrow> 'r byte_stream \<Rightarrow> bytes \<Rightarrow> 'r bench_turn list \<Rightarrow> ('r, 'h) bench_conn \<Rightarrow> ('r, 'h) bench_conn option" where
  "run_turns G T request_bytes [] c = Some c"
| "run_turns G T request_bytes (turn # turns) c =
     Option.bind (run_turn G T request_bytes turn c) (run_turns G T request_bytes turns)"

definition run_connection ::
  "'h histogram \<Rightarrow> 'r byte_stream \<Rightarrow> bytes \<Rightarrow> 'r bench_turn list \<Rightarrow> bool \<Rightarrow> 'h BenchStats \<Rightarrow> 'h BenchStats option" where
  "run_connection G T request_bytes turns locked stats =
     (let stats = stats\<lparr>bs_active_connections := bs_active_connections stats + 1\<rparr> in
      Option.bind (run_turns G T request_bytes turns (None, replicate 16384 0, local_stats_new G, stats))
        (\<lambda>(stream, buf, local, stats).
          let stats = merge_into G locked local stats
          in Some (stats\<lparr>bs_active_connections := bs_active_connections stats - 1\<rparr>)))"

text \<open>
  The benchmark with its connections one after the other; \<open>turns\<close> are the turns of each of them, and
  the address the turns connect to is \<^const>\<open>client_addr\<close>.
\<close>

fun run_connections ::
  "'h histogram \<Rightarrow> 'r byte_stream \<Rightarrow> bytes \<Rightarrow> ('r bench_turn list \<times> bool) list \<Rightarrow> 'h BenchStats \<Rightarrow> 'h BenchStats option" where
  "run_connections G T request_bytes [] stats = Some stats"
| "run_connections G T request_bytes ((turns, locked) # conns) stats =
     Option.bind (run_connection G T request_bytes turns locked stats) (run_connections G T request_bytes conns)"

definition run_benchmark ::
  "'h histogram \<Rightarrow> 'r byte_stream \<Rightarrow> (bytes \<Rightarrow> ('r bench_turn list \<times> bool) list) \<Rightarrow> bytes \<Rightarrow> 'h BenchStats \<Rightarrow>
     'h BenchStats option outcome" where
  "run_benchmark G T conns url stats =
     (case parse_url url of
        Err e \<Rightarrow> Panic ''Invalid URL''
      | Ok parsed \<Rightarrow> Ret (run_connections G T (client_request parsed) (conns (client_addr parsed)) stats))"

subsection \<open>URLs\<close>

lemma find_byte_first: "b \<notin> set xs \<Longrightarrow> find_byte b (xs @ b # ys) = Some (length xs)"
  by (subst find_byte_def, subst takeWhile_append2) auto

lemma find_byte_none: "b \<notin> set xs \<Longrightarrow> find_byte b xs = None"
  by (simp add: find_byte_def)

lemma starts_with_append: "starts_with (p @ s) p"
  by (induction p) auto

lemma starts_with_iff: "starts_with s p \<longleftrightarrow> (\<exists>t. s = p @ t)"
  by (induction s p rule: starts_with.induct) auto

text \<open>A URL with a port, and one without, is taken apart into what it was made of.\<close>

lemma parse_url_make:
  assumes "47 \<notin> set host" and "58 \<notin> set host" and "path = [] \<or> hd path = 47"
  shows "parse_url (ascii ''http://'' @ host @ ascii '':'' @ show_radix 10 (unat port) @ path) =
      Ok \<lparr>pu_host = host, pu_port = port, pu_path = if path = [] then ascii ''/'' else path\<rparr>"
    and "parse_url (ascii ''http://'' @ host @ path) =
      Ok \<lparr>pu_host = host, pu_port = 80, pu_path = if path = [] then ascii ''/'' else path\<rparr>"
proof -
  let ?port = "show_radix 10 (unat port)"
  have port: "47 \<notin> set ?port"
  proof
    assume "47 \<in> set ?port"
    then obtain d where "d < 10" "(47 :: u8) = digit_byte d" using show_radix_digits [of 10 47 "unat port"] by auto
    then have "unat (47 :: u8) = 48 + d" using unat_digit_byte [of d] by simp
    then show False by simp
  qed
  have split: "(case find_byte 47 (hp @ path) of Some idx \<Rightarrow> (take idx (hp @ path), drop idx (hp @ path)) | None \<Rightarrow> (hp @ path, ascii ''/'')) =
      (hp, if path = [] then ascii ''/'' else path)" if "47 \<notin> set hp" for hp
    using that assms(3) by (cases path) (auto simp: find_byte_none find_byte_first)
  have val: "from_str_radix 65536 10 ?port = Some (unat port)"
    by (rule from_str_radix_show) simp_all
  have "starts_with (ascii ''http://'' @ s) (ascii ''http://'')" "drop 7 (ascii ''http://'' @ s) = s" for s
    by (rule starts_with_append) (simp add: ascii_def)
  note head = this
  show "parse_url (ascii ''http://'' @ host @ path) =
      Ok \<lparr>pu_host = host, pu_port = 80, pu_path = if path = [] then ascii ''/'' else path\<rparr>"
    unfolding parse_url_def head(2) Let_def split [OF assms(1)]
    by (simp add: head(1) find_byte_none [OF assms(2)] del: append_assoc)
  have hp: "47 \<notin> set (host @ 58 # ?port)" using assms(1) port by simp
  have eq: "host @ ascii '':'' @ ?port @ path = (host @ 58 # ?port) @ path" by (simp add: ascii_def)
  show "parse_url (ascii ''http://'' @ host @ ascii '':'' @ ?port @ path) =
      Ok \<lparr>pu_host = host, pu_port = port, pu_path = if path = [] then ascii ''/'' else path\<rparr>"
    unfolding eq parse_url_def head(2) Let_def split [OF hp]
    by (simp add: head(1) find_byte_first [OF assms(2)] val del: append_assoc)
qed

subsection \<open>Finding the end of a response\<close>

text \<open>The search for the end of the headers, as a recursion over the data.\<close>

fun header_end :: "bytes \<Rightarrow> nat option" where
  "header_end [] = None"
| "header_end (b # bs) =
     (if take 4 (b # bs) = [13, 10, 13, 10] then Some 4 else map_option Suc (header_end bs))"

lemma find_upt_Suc: "List.find P [0..<Suc n] = (if P 0 then Some 0 else map_option Suc (List.find (\<lambda>i. P (Suc i)) [0..<n]))"
proof -
  have "List.find P (map Suc xs) = map_option Suc (List.find (\<lambda>i. P (Suc i)) xs)" for xs
    by (induction xs) auto
  then show ?thesis by (simp add: upt_conv_Cons map_Suc_upt [symmetric] del: upt_Suc)
qed

lemma header_end_short: "length bs < 4 \<Longrightarrow> header_end bs = None"
  by (induction bs) (auto dest: arg_cong [of _ _ length])

lemma find_header_end_eq: "find_header_end data = header_end data"
proof (induction data)
  case (Cons b bs)
  show ?case
  proof (cases "length bs < 3")
    case True
    then show ?thesis using header_end_short [of "b # bs"] by (simp add: find_header_end_def)
  next
    case False
    then have "length (b # bs) - 3 = Suc (length bs - 3)" by simp
    then show ?thesis
      using Cons.IH [symmetric] unfolding find_header_end_def by (simp add: find_upt_Suc del: upt_Suc split: option.splits)
  qed
qed (simp add: find_header_end_def)

lemma header_end_bound: "header_end xs = Some k \<Longrightarrow> 4 \<le> k \<and> k \<le> length xs"
proof (induction xs arbitrary: k)
  case (Cons b bs)
  show ?case
  proof (cases "take 4 (b # bs) = [13, 10, 13, 10]")
    case True
    then have "length (take 4 (b # bs)) = length [13, 10, 13, 10 :: u8]" by (rule arg_cong)
    then have "4 \<le> length (b # bs)" by simp
    with True Cons.prems show ?thesis by simp
  next
    case False
    with Cons.prems obtain j where "header_end bs = Some j" "k = Suc j" by auto
    with Cons.IH [of j] show ?thesis by simp
  qed
qed simp

lemma header_end_append: "header_end xs = Some k \<Longrightarrow> header_end (xs @ ys) = Some k"
proof (induction xs arbitrary: k)
  case (Cons b bs)
  show ?case
  proof (cases "take 4 (b # bs) = [13, 10, 13, 10]")
    case True
    then have "4 \<le> length (b # bs)" using header_end_bound [OF Cons.prems] by simp
    then have "take 4 ((b # bs) @ ys) = take 4 (b # bs)" by simp
    with True have "take 4 (b # bs @ ys) = [13, 10, 13, 10]" unfolding append_Cons by metis
    with True Cons.prems show ?thesis by (simp del: take_append)
  next
    case False
    with Cons.prems obtain j where j: "header_end bs = Some j" "k = Suc j" by auto
    have "4 \<le> length bs" using header_end_bound [OF j(1)] by simp
    then have "take 4 ((b # bs) @ ys) = take 4 (b # bs)" by simp
    with False have "take 4 (b # bs @ ys) \<noteq> [13, 10, 13, 10]" unfolding append_Cons by metis
    with Cons.IH [OF j(1)] j(2) show ?thesis by (simp del: take_append take_Cons_numeral)
  qed
qed simp

text \<open>The lines of a head, each followed by a carriage return and a newline.\<close>

definition crlf_lines :: "bytes list \<Rightarrow> bytes" where
  "crlf_lines ls = concat (map (\<lambda>l. l @ [13, 10]) ls)"

definition line_ok :: "bytes \<Rightarrow> bool" where
  "line_ok l \<longleftrightarrow> l \<noteq> [] \<and> (\<forall>b \<in> set l. b < 128 \<and> b \<noteq> 10 \<and> b \<noteq> 13)"

lemma header_end_skip: "13 \<notin> set l \<Longrightarrow> header_end (l @ xs) = map_option ((+) (length l)) (header_end xs)"
  by (induction l) (cases "header_end xs"; auto)+

lemma header_end_lines:
  assumes "\<forall>l \<in> set ls. line_ok l"
  shows "ls \<noteq> [] \<Longrightarrow> header_end (crlf_lines ls @ [13, 10]) = Some (length (crlf_lines ls) + 2)"
  using assms
proof (induction ls)
  case (Cons l ls)
  then have l: "13 \<notin> set l" "l \<noteq> []" by (auto simp: line_ok_def)
  show ?case
  proof (cases ls)
    case Nil
    have "header_end (l @ [13, 10, 13, 10]) = Some (length l + 4)" using header_end_skip [OF l(1)] by simp
    then show ?thesis by (simp add: Nil crlf_lines_def)
  next
    case (Cons l2 ls2)
    have ne: "hd (crlf_lines ls @ [13, 10]) \<noteq> 13" "crlf_lines ls \<noteq> []"
      using Cons.prems Cons by (cases l2; auto simp: crlf_lines_def line_ok_def)+
    then obtain x xs where x: "crlf_lines ls @ [13, 10] = x # xs" "x \<noteq> 13" by (cases "crlf_lines ls") auto
    have "header_end (crlf_lines (l # ls) @ [13, 10]) = header_end (l @ 13 # 10 # x # xs)"
      using x(1) by (simp add: crlf_lines_def)
    also have "\<dots> = map_option (\<lambda>n. length l + Suc (Suc n)) (header_end (x # xs))"
      unfolding header_end_skip [OF l(1)] using x(2)
      by (cases "header_end xs") (auto simp: numeral_eq_Suc)
    also have "\<dots> = Some (length l + Suc (Suc (length (crlf_lines ls) + 2)))"
      using Cons.IH Cons.prems Cons unfolding x(1) [symmetric] by simp
    finally show ?thesis by (simp add: crlf_lines_def)
  qed
qed simp

lemma find_header_end_take:
  assumes "\<forall>l \<in> set ls. line_ok l" and "ls \<noteq> []"
  shows "find_header_end (take n (crlf_lines ls @ [13, 10] @ body)) =
    (if n < length (crlf_lines ls) + 2 then None else Some (length (crlf_lines ls) + 2))"
proof -
  let ?head = "crlf_lines ls @ [13, 10]"
  have full: "header_end (?head @ t) = Some (length (crlf_lines ls) + 2)" for t
    by (rule header_end_append [OF header_end_lines [OF assms]])
  show ?thesis
  proof (cases "n < length ?head")
    case True
    have "k = length (crlf_lines ls) + 2 \<and> k \<le> n" if k: "header_end (take n (?head @ body)) = Some k" for k
      using header_end_append [OF k, of "drop n (?head @ body)"] full [of body] header_end_bound [OF k]
      unfolding append_take_drop_id by (simp add: min_def split: if_splits)
    then have "header_end (take n (?head @ body)) = None" using True by (cases "header_end (take n (?head @ body))") auto
    then show ?thesis using True by (simp add: find_header_end_eq)
  next
    case False
    then have "take n (?head @ body) = ?head @ take (n - length ?head) body" by (metis take_append take_all not_less)
    then show ?thesis using full False by (simp add: find_header_end_eq)
  qed
qed

subsection \<open>The length a response announces\<close>

lemma utf8_ascii: "\<forall>b \<in> set bs. b < 128 \<Longrightarrow> utf8_valid bs"
  by (induction bs) auto

lemma str_lines_nl:
  assumes "10 \<notin> set l"
  shows "str_lines (l @ 10 # t) = strip_cr l # str_lines t"
proof -
  have 1: "takeWhile (\<lambda>b. b \<noteq> 10) (l @ 10 # t) = l" using assms by (subst takeWhile_append2) auto
  have 2: "dropWhile (\<lambda>b. b \<noteq> 10) (l @ 10 # t) = 10 # t" using assms by (subst dropWhile_append2) auto
  show ?thesis by (subst str_lines.simps, unfold 1 2) simp
qed

lemma str_lines_crlf: "10 \<notin> set l \<Longrightarrow> str_lines (l @ [13, 10] @ t) = l # str_lines t"
  using str_lines_nl [of "l @ [13]" t] by simp

lemma str_lines_Nil [simp]: "str_lines [] = []"
  by (simp add: str_lines.simps)

lemma str_lines_head:
  assumes "\<forall>l \<in> set ls. line_ok l"
  shows "str_lines (crlf_lines ls @ [13, 10]) = ls @ [[]]"
  using assms
proof (induction ls)
  case Nil
  show ?case using str_lines_crlf [of "[]" "[]"] by (simp add: crlf_lines_def)
next
  case (Cons l ls)
  have "crlf_lines (l # ls) @ [13, 10] = l @ [13, 10] @ (crlf_lines ls @ [13, 10])" by (simp add: crlf_lines_def)
  moreover have "10 \<notin> set l" using Cons.prems by (auto simp: line_ok_def)
  ultimately show ?case using Cons str_lines_crlf by simp
qed

lemma trim_space:
  assumes "plain s"
  shows "trim (32 # s) = s"
proof -
  have "List.find (starts_with (32 # s)) white_space = Some [32]" by (simp add: white_space_def)
  then have "trim_with (length (32 # s)) white_space (32 # s) = trim_with (length s) white_space s" by simp
  also have "\<dots> = s" by (rule trim_with_plain [OF assms]) (auto simp: white_space_def)
  finally have "trim (32 # s) = rev (trim_with (length s) (map rev white_space) (rev s))" by (simp add: trim_def)
  moreover have "trim_with (length s) (map rev white_space) (rev s) = rev s"
    by (rule trim_with_plain) (use assms in \<open>auto simp: plain_def white_space_def\<close>)
  ultimately show ?thesis by simp
qed

definition length_line :: "usize \<Rightarrow> bytes" where
  "length_line n = ascii ''Content-Length: '' @ show_radix 10 n"

definition announces_length :: "bytes \<Rightarrow> bool" where
  "announces_length line \<longleftrightarrow> starts_with (to_ascii_lowercase line) (ascii ''content-length:'')"

lemma lowercase_show: "to_ascii_lowercase (show_radix 10 n) = show_radix 10 n"
proof -
  have "\<not> 65 \<le> b" if "b \<in> set (show_radix 10 n)" for b
    using show_radix_digits [of 10 b n] that unat_digit_byte by (fastforce simp: word_le_nat_alt)
  then show ?thesis by (auto simp: to_ascii_lowercase_def intro: map_idI)
qed

lemma length_line_value:
  assumes "n < 2 ^ 64"
  shows "announces_length (length_line n)" "parse_usize (trim (drop 15 (to_ascii_lowercase (length_line n)))) = Some n"
    "line_ok (length_line n)"
proof -
  have l: "to_ascii_lowercase (length_line n) = ascii ''content-length:'' @ 32 # show_radix 10 n"
    using lowercase_show by (simp add: length_line_def to_ascii_lowercase_def ascii_def)
  show "announces_length (length_line n)" unfolding announces_length_def l by (rule starts_with_append)
  have "trim (32 # show_radix 10 n) = show_radix 10 n" by (rule trim_space) (rule plain_show_radix; simp)
  moreover have "drop 15 (to_ascii_lowercase (length_line n)) = 32 # show_radix 10 n" unfolding l by (simp add: ascii_def)
  ultimately show "parse_usize (trim (drop 15 (to_ascii_lowercase (length_line n)))) = Some n"
    using assms by (simp add: from_str_radix_show)
  have "\<forall>b \<in> set (show_radix 10 n). b < 128 \<and> b \<noteq> 10 \<and> b \<noteq> 13"
    using show_radix_digits [of 10 _ n] digit_byte_range by fastforce
  then show "line_ok (length_line n)" by (auto simp: line_ok_def length_line_def ascii_def)
qed

text \<open>The first line that announces a length decides.\<close>

lemma parse_content_length_head:
  assumes "\<forall>l \<in> set ls. line_ok l \<and> \<not> announces_length l" and "n < 2 ^ 64"
  shows "parse_content_length (crlf_lines (ls @ [length_line n]) @ [13, 10]) = Some n"
proof -
  have ok: "\<forall>l \<in> set (ls @ [length_line n]). line_ok l" using assms length_line_value(3) by auto
  have "utf8_valid (crlf_lines (ls @ [length_line n]) @ [13, 10])"
    using ok by (intro utf8_ascii) (auto simp: crlf_lines_def line_ok_def)
  moreover have "List.find announces_length ((ls @ [length_line n]) @ [[]]) = Some (length_line n)"
    using assms(1) length_line_value(1) [OF assms(2)] by (induction ls) auto
  ultimately show ?thesis
    using length_line_value(2) [OF assms(2)] str_lines_head [OF ok]
    by (simp add: parse_content_length_def announces_length_def [symmetric] del: append_assoc)
qed

subsection \<open>Reading a response\<close>

definition status_line :: "'m http_lib \<Rightarrow> 'm Response \<Rightarrow> bytes" where
  "status_line H response =
     ascii (version_str (rs_version response)) @ ascii '' '' @ h_status_str H (rs_status response) @ ascii '' '' @
     reason_phrase H (rs_status response)"

definition header_lines :: "'m http_lib \<Rightarrow> 'm Response \<Rightarrow> bytes list" where
  "header_lines H response = map (\<lambda>(key, v). key @ ascii '': '' @ v) (h_map_iter H (rs_headers response))"

text \<open>
  A response whose length the server announces itself, with lines of ASCII characters of which no
  other one announces a length.
\<close>

definition response_readable :: "'m http_lib \<Rightarrow> 'm Response \<Rightarrow> bool" where
  "response_readable H response \<longleftrightarrow>
     h_map_get H (rs_headers response) (ascii ''content-length'') = None \<and> length (rs_body response) < 2 ^ 64 \<and>
     (\<forall>l \<in> set (status_line H response # header_lines H response). line_ok l \<and> \<not> announces_length l)"

lemma serialize_response_lines:
  assumes "h_map_get H (rs_headers response) (ascii ''content-length'') = None"
  shows "serialize_response H response =
    crlf_lines ((status_line H response # header_lines H response) @ [length_line (length (rs_body response))]) @ [13, 10] @ rs_body response"
proof -
  have "concat (map (\<lambda>(key, v). key @ ascii '': '' @ v @ [13, 10]) kvs) =
      crlf_lines (map (\<lambda>(key, v). key @ ascii '': '' @ v) kvs)" for kvs
    by (induction kvs) (auto simp: crlf_lines_def)
  then show ?thesis
    using assms by (simp add: serialize_response_def status_line_def header_lines_def length_line_def Let_def crlf_lines_def)
qed

text \<open>
  What the client relies on in the bytes of a response: where the head ends, however much has
  arrived, and the length it announces.
\<close>

definition response_frame :: "bytes \<Rightarrow> nat \<Rightarrow> nat \<Rightarrow> bool" where
  "response_frame data hl bl \<longleftrightarrow> length data = hl + bl \<and> 0 < hl \<and> parse_content_length (take hl data) = Some bl \<and>
     (\<forall>m. find_header_end (take m data) = (if m < hl then None else Some hl))"

lemma response_frame_serialize:
  assumes "response_readable H response"
  shows "\<exists>hl bl. response_frame (serialize_response H response) hl bl"
proof -
  let ?front = "status_line H response # header_lines H response" and ?body = "rs_body response"
  let ?ls = "?front @ [length_line (length ?body)]"
  let ?hl = "length (crlf_lines ?ls) + 2"
  have r: "length ?body < 2 ^ 64" "\<forall>l \<in> set ?front. line_ok l \<and> \<not> announces_length l"
    using assms by (simp_all add: response_readable_def)
  have ok: "\<forall>l \<in> set ?ls. line_ok l" using r length_line_value(3) by auto
  have data: "serialize_response H response = (crlf_lines ?ls @ [13, 10]) @ ?body"
    using serialize_response_lines [of H response] assms by (simp add: response_readable_def)
  have "find_header_end (take m (serialize_response H response)) = (if m < ?hl then None else Some ?hl)" for m
    using find_header_end_take [OF ok, of m ?body] unfolding data append_assoc by blast
  moreover have "take ?hl (serialize_response H response) = crlf_lines ?ls @ [13, 10]" unfolding data by simp
  moreover note parse_content_length_head [OF r(2,1)]
  ultimately have "response_frame (serialize_response H response) ?hl (length ?body)"
    using data by (simp add: response_frame_def)
  then show ?thesis by blast
qed

text \<open>The state of the client when it has read \<open>n\<close> bytes of the data.\<close>

definition response_at :: "bytes \<Rightarrow> nat \<Rightarrow> nat \<Rightarrow> nat \<Rightarrow> response_state \<Rightarrow> bool" where
  "response_at data hl bl n st \<longleftrightarrow>
     rr_total_read st = n \<and> n \<le> length (rr_buf st) \<and> take n (rr_buf st) = take n data \<and>
     rr_headers_end st = (if n < hl then None else Some hl) \<and> rr_content_length st = (if n < hl then None else Some bl)"

lemma note_headers_at:
  assumes "response_frame data hl bl" and "response_at data hl bl n st" and "n + length bs \<le> length (rr_buf st)"
    and "take (n + length bs) data = take n data @ bs"
  shows "response_at data hl bl (n + length bs)
    (note_headers (st\<lparr>rr_buf := write_at n bs (rr_buf st), rr_total_read := n + length bs\<rparr>))"
    and "length (rr_buf (note_headers (st\<lparr>rr_buf := write_at n bs (rr_buf st), rr_total_read := n + length bs\<rparr>))) = length (rr_buf st)"
proof -
  let ?m = "n + length bs" and ?st = "st\<lparr>rr_buf := write_at n bs (rr_buf st), rr_total_read := n + length bs\<rparr>"
  have frame: "parse_content_length (take hl data) = Some bl" "find_header_end (take ?m data) = (if ?m < hl then None else Some hl)"
    using assms(1) unfolding response_frame_def by blast+
  have buf: "take ?m (write_at n bs (rr_buf st)) = take ?m data" "length (write_at n bs (rr_buf st)) = length (rr_buf st)"
    using assms(2-4) by (simp_all add: take_write_at_over response_at_def)
  have cl: "take hl (write_at n bs (rr_buf st)) = take hl data" if "hl \<le> ?m"
    using arg_cong [OF buf(1), of "take hl"] that by (simp add: min_def)
  have st: "rr_headers_end st = (if n < hl then None else Some hl)" "rr_content_length st = (if n < hl then None else Some bl)"
    using assms(2) by (simp_all add: response_at_def)
  consider (early) "?m < hl" | (now) "n < hl" "hl \<le> ?m" | (late) "hl \<le> n" by linarith
  then have "note_headers ?st = ?st\<lparr>rr_headers_end := (if ?m < hl then None else Some hl),
      rr_content_length := (if ?m < hl then None else Some bl)\<rparr>"
    by cases (use st frame buf(1) cl in \<open>simp_all add: note_headers_def\<close>)
  then show "response_at data hl bl ?m (note_headers ?st)" "length (rr_buf (note_headers ?st)) = length (rr_buf st)"
    using buf assms(3) by (simp_all add: response_at_def)
qed

lemma response_complete_at:
  assumes "response_frame data hl bl" and "response_at data hl bl n st"
  shows "response_complete st \<longleftrightarrow> length data \<le> n"
  using assms by (auto simp: response_frame_def response_at_def response_complete_def)

text \<open>One turn of the loop, on a connection that has still something to deliver.\<close>

lemma response_loop_step:
  assumes "stream_ok T incoming written" and "response_frame data hl bl" and "response_at data hl bl n st" and "n < length (rr_buf st)"
    and "incoming r = take k (drop n data)" and "incoming r \<noteq> []"
  shows "\<exists>m st' r'. 0 < m \<and> m \<le> k \<and> n + m \<le> length data \<and> response_at data hl bl (n + m) st' \<and> n + m < length (rr_buf st') \<and>
    incoming r' = take (k - m) (drop (n + m) data) \<and> written r' = written r \<and>
    (if length data \<le> n + m then \<exists>st1. response_loop T st r = Some (Ok (), st1, r') \<and> response_at data hl bl (n + m) st1
     else response_loop T st r = response_loop T st' r')"
proof -
  have tot: "rr_total_read st = n" using assms(3) by (simp add: response_at_def)
  obtain bs r1 where read: "s_read T (length (rr_buf st) - n) r = (Ok bs, r1)" "incoming r = bs @ incoming r1" "written r1 = written r"
      "length bs \<le> length (rr_buf st) - n" "bs \<noteq> []"
    using stream_okD(1) [OF assms(1), of "length (rr_buf st) - n" r] assms(4,6) by auto
  let ?st = "note_headers (st\<lparr>rr_buf := write_at n bs (rr_buf st), rr_total_read := n + length bs\<rparr>)"
  let ?st2 = "if rr_total_read ?st \<ge> length (rr_buf ?st) then ?st\<lparr>rr_buf := rr_buf ?st @ replicate (length (rr_buf ?st)) 0\<rparr> else ?st"
  have eq: "take k (drop n data) = bs @ incoming r1" using read(2) assms(5) by simp
  have len: "length bs \<le> k" "n + length bs \<le> length data"
    using arg_cong [OF eq, of length] read(5) by (cases bs; auto simp: min_def split: if_splits)+
  have bs: "take (length bs) (drop n data) = bs" using arg_cong [OF eq, of "take (length bs)"] len(1) by (simp add: min_def)
  have rest: "incoming r1 = take (k - length bs) (drop (n + length bs) data)"
    using arg_cong [OF eq, of "drop (length bs)"] by (simp add: drop_take add.commute)
  have "take (n + length bs) data = take n data @ bs" using bs by (simp add: take_add)
  note at = note_headers_at [OF assms(2,3) _ this]
  have at1: "response_at data hl bl (n + length bs) ?st" and at2: "length (rr_buf ?st) = length (rr_buf st)"
    using at read(4) assms(4) by simp_all
  have step: "response_loop T st r = (if response_complete ?st then Some (Ok (), ?st, r1) else response_loop T ?st2 r1)"
    using read(1,5) tot by (subst response_loop.simps) (simp add: Let_def)
  have "response_at data hl bl (n + length bs) ?st2" "n + length bs < length (rr_buf ?st2)"
    using at1 at2 assms(4) by (auto simp: response_at_def)
  then show ?thesis
    using step response_complete_at [OF assms(2) at1] at1 rest len read(3,5)
    by (intro exI [of _ "length bs"] exI [of _ ?st2] exI [of _ r1]) auto
qed

lemma response_loop_reads:
  assumes "stream_ok T incoming written" and "response_frame data hl bl"
  shows "response_at data hl bl n st \<Longrightarrow> n < length (rr_buf st) \<Longrightarrow> n < length data \<Longrightarrow> incoming r = take k (drop n data) \<Longrightarrow>
    if length data \<le> n + k
    then \<exists>st' r'. response_loop T st r = Some (Ok (), st', r') \<and> response_at data hl bl (length data) st' \<and>
      incoming r' = [] \<and> written r' = written r
    else \<exists>st' r'. response_loop T st r = Some (Err (StreamEof ''connection closed''), st', r') \<and> written r' = written r"
proof (induction k arbitrary: n st r rule: less_induct)
  case (less k)
  show ?case
  proof (cases "incoming r = []")
    case True
    then have "k = 0" using less.prems(3,4) by auto
    moreover obtain r1 where "s_read T (length (rr_buf st) - n) r = (Ok [], r1)" "written r1 = written r"
      using stream_okD(1) [OF assms(1), of "length (rr_buf st) - n" r] True by auto
    moreover have "rr_total_read st = n" using less.prems(1) by (simp add: response_at_def)
    ultimately show ?thesis using less.prems(3) by (subst response_loop.simps) simp
  next
    case False
    obtain m st' r' where m: "0 < m" "m \<le> k" "n + m \<le> length data" "response_at data hl bl (n + m) st'" "n + m < length (rr_buf st')"
        "incoming r' = take (k - m) (drop (n + m) data)" "written r' = written r"
        "if length data \<le> n + m then \<exists>st1. response_loop T st r = Some (Ok (), st1, r') \<and> response_at data hl bl (n + m) st1
         else response_loop T st r = response_loop T st' r'"
      using response_loop_step [OF assms less.prems(1,2,4) False] by blast
    show ?thesis
    proof (cases "length data \<le> n + m")
      case True
      then have "n + m = length data" using m(3) by simp
      with m True show ?thesis by auto
    next
      case more: False
      then have "length data \<le> n + m + (k - m) \<longleftrightarrow> length data \<le> n + k" using m(2) by simp
      then show ?thesis
        using less.IH [OF _ m(4,5) _ m(6)] more m(1-3,7,8) by (cases "length data \<le> n + k") simp_all
    qed
  qed
qed

lemma response_at_start: "0 < hl \<Longrightarrow> response_at data hl bl 0 \<lparr>rr_buf = buf, rr_total_read = 0, rr_headers_end = None, rr_content_length = None\<rparr>"
  by (simp add: response_at_def)

lemma drain_loop_done: "cl \<le> n \<Longrightarrow> drain_loop T cl n t buf r = Some (Ok t, buf, r)"
  by (subst drain_loop.simps) simp

text \<open>
  The client and the HTTP server agree on where a response ends. When the connection delivers the
  bytes of a response as the server writes it, in any segments, the client's exchange writes its
  request and returns the number of bytes of the response, having read all of them; when the
  connection ends before, the exchange fails, and never counts a part of a response (C16).
\<close>

theorem exchange_reads_response:
  assumes "stream_ok T incoming written" and "response_readable H response" and "buf \<noteq> []"
    and "incoming r = take k (serialize_response H response)"
  shows "if length (serialize_response H response) \<le> k
    then \<exists>buf' r'. exchange T request_bytes buf r = Some (Ok (length (serialize_response H response)), buf', r') \<and>
      incoming r' = [] \<and> written r' = written r @ request_bytes
    else \<exists>buf' r'. exchange T request_bytes buf r = Some (Err (StreamEof ''connection closed''), buf', r') \<and>
      written r' = written r @ request_bytes"
proof -
  let ?data = "serialize_response H response"
  let ?st = "\<lparr>rr_buf = buf, rr_total_read = 0, rr_headers_end = None, rr_content_length = None\<rparr>"
  obtain hl bl where frame: "response_frame ?data hl bl" using response_frame_serialize [OF assms(2)] by blast
  then have hl: "0 < hl" "length ?data = hl + bl" by (simp_all add: response_frame_def)
  obtain r1 where w: "s_write_all T request_bytes r = (Ok (), r1)" "incoming r1 = incoming r" "written r1 = written r @ request_bytes"
    using stream_okD(4) [OF assms(1)] by blast
  have loop: "if length ?data \<le> 0 + k
      then \<exists>st' r'. response_loop T ?st r1 = Some (Ok (), st', r') \<and> response_at ?data hl bl (length ?data) st' \<and>
        incoming r' = [] \<and> written r' = written r1
      else \<exists>st' r'. response_loop T ?st r1 = Some (Err (StreamEof ''connection closed''), st', r') \<and> written r' = written r1"
    using response_loop_reads [OF assms(1) frame response_at_start [OF hl(1)], of buf r1 k] assms(3,4) w(2) hl by simp
  show ?thesis
  proof (cases "length ?data \<le> k")
    case True
    with loop obtain st' r' where l: "response_loop T ?st r1 = Some (Ok (), st', r')" "response_at ?data hl bl (length ?data) st'"
      "incoming r' = []" "written r' = written r1" by auto
    from l(2) hl have "rr_headers_end st' = Some hl" "rr_content_length st' = Some bl" "rr_total_read st' = hl + bl"
      by (simp_all add: response_at_def)
    with True l w hl show ?thesis by (simp add: exchange_def drain_loop_done)
  next
    case False
    with loop w show ?thesis by (auto simp: exchange_def)
  qed
qed

text \<open>A response of the instance, in two segments.\<close>

definition sim_response :: "sim_headers Response" where
  "sim_response = \<lparr>rs_version = HTTP_11, rs_status = 200, rs_headers = [], rs_body = [7, 7]\<rparr>"

theorem exchange_reads_response_witness:
  "\<exists>buf' r'. exchange sim_stream (ascii ''GET'') (replicate 8 0) ([take 5 (serialize_response sim_http sim_response), drop 5 (serialize_response sim_http sim_response)], []) =
      Some (Ok (length (serialize_response sim_http sim_response)), buf', r') \<and> sim_written r' = ascii ''GET''"
proof -
  let ?data = "serialize_response sim_http sim_response"
  have "response_readable sim_http sim_response"
    by (simp add: response_readable_def sim_response_def sim_http_def status_line_def header_lines_def reason_phrase_def
        show_radix.simps [of 10] digit_byte_def ascii_def line_ok_def announces_length_def to_ascii_lowercase_def)
  moreover have "sim_incoming ([take 5 ?data, drop 5 ?data], [] :: bytes) = take (length ?data) ?data" by simp
  ultimately show ?thesis
    using exchange_reads_response [OF sim_stream_ok, of sim_http sim_response "replicate 8 0" "([take 5 ?data, drop 5 ?data], [])"
        "length ?data" "ascii ''GET''"] by auto
qed

end
