(* ===== verification/Net_Util.thy ===== *)
theory Net_Util
  imports Raw_Udp Raw_Client
begin

section \<open>Utilities of the test programs\<close>

text \<open>
  A model of \<^verbatim>\<open>dpdk-net-test/src/lib.rs\<close>: reading the channels of an interface, setting up huge
  pages, looking up the hardware address of a neighbour, the ARP reply that teaches it to smoltcp,
  and the UDP packet generator. What the operating system does is a parameter: records of calls
  over its state \<open>'k\<close>.
\<close>

subsection \<open>Channels of an interface\<close>

record EthtoolChannels =
  ch_max_rx :: u32
  ch_max_tx :: u32
  ch_max_other :: u32
  ch_max_combined :: u32
  ch_rx_count :: u32
  ch_tx_count :: u32
  ch_other_count :: u32
  ch_combined_count :: u32

text \<open>
  The calls of \<open>libc\<close>. The request of the \<open>ioctl\<close> is the command with the structure it fills, under
  the name of the interface.
\<close>

record 'k libc =
  lc_socket :: "'k \<Rightarrow> int \<times> 'k"
  lc_close :: "int \<Rightarrow> 'k \<Rightarrow> 'k"
  lc_ioctl :: "int \<Rightarrow> nat \<Rightarrow> bytes \<Rightarrow> u32 \<times> EthtoolChannels \<Rightarrow> 'k \<Rightarrow> int \<times> EthtoolChannels \<times> 'k"
  lc_last_os_error :: "'k \<Rightarrow> string"

definition get_ethtool_channels :: "'k libc \<Rightarrow> bytes \<Rightarrow> 'k \<Rightarrow> (EthtoolChannels, string) Result \<times> 'k" where
  "get_ethtool_channels C interface k =
     (let (sock, k) = lc_socket C k in
      if sock < 0 then (Err ''Failed to create socket'', k)
      else
        let channels = \<lparr>ch_max_rx = 0, ch_max_tx = 0, ch_max_other = 0, ch_max_combined = 0, ch_rx_count = 0,
              ch_tx_count = 0, ch_other_count = 0, ch_combined_count = 0\<rparr>
        in if 0 \<in> set interface then (Err ''Invalid interface name'', lc_close C sock k)
           else if length interface + 1 > 16 then (Err ''Interface name too long'', lc_close C sock k)
           else
             let (ret, channels, k) = lc_ioctl C sock 0x8946 (interface @ [0]) (0x3c, channels) k
             in if ret < 0 then (Err (''ioctl SIOCETHTOOL failed: '' @ lc_last_os_error C k), lc_close C sock k)
                else (Ok channels, lc_close C sock k))"

subsection \<open>Huge pages\<close>

text \<open>Running commands; \<open>Err\<close> is a command that could not be started, \<open>Ok False\<close> one that failed.\<close>

record 'k shell =
  sh_exists :: "string \<Rightarrow> 'k \<Rightarrow> bool"
  sh_read_to_string :: "string \<Rightarrow> 'k \<Rightarrow> (bytes, string) Result"
  sh_status :: "string list \<Rightarrow> 'k \<Rightarrow> (bool, string) Result \<times> 'k"
  sh_spawn :: "string list \<Rightarrow> 'k \<Rightarrow> (nat, string) Result \<times> 'k"
  sh_write_stdin :: "nat \<Rightarrow> bytes \<Rightarrow> 'k \<Rightarrow> (unit, string) Result \<times> 'k"
  sh_wait :: "nat \<Rightarrow> 'k \<Rightarrow> (bool, string) Result \<times> 'k"

definition run_command ::
  "'k shell \<Rightarrow> string list \<Rightarrow> string \<Rightarrow> 'k \<Rightarrow> (unit, string) Result \<times> 'k" where
  "run_command C args what k =
     (case sh_status C args k of
        (Err e, k) \<Rightarrow> (Err (what @ '': '' @ e), k)
      | (Ok success, k) \<Rightarrow> if success then (Ok (), k) else (Err what, k))"

definition hugetlbfs_mounted :: "bytes \<Rightarrow> bool" where
  "hugetlbfs_mounted mounts \<longleftrightarrow>
     (\<exists>line \<in> set (str_lines mounts). str_contains line (ascii ''hugetlbfs'') \<and> str_contains line (ascii ''/dev/hugepages''))"

definition set_nr_hugepages :: "'k shell \<Rightarrow> 'k \<Rightarrow> (unit, string) Result \<times> 'k" where
  "set_nr_hugepages C k =
     (case sh_spawn C [''sudo'', ''tee'', ''/sys/kernel/mm/hugepages/hugepages-2048kB/nr_hugepages''] k of
        (Err e, k) \<Rightarrow> (Err (''Failed to spawn tee command: '' @ e), k)
      | (Ok child, k) \<Rightarrow>
          (case sh_write_stdin C child (show_radix 10 1024) k of
             (Err e, k) \<Rightarrow> (Err (''Failed to write to tee: '' @ e), k)
           | (Ok _, k) \<Rightarrow>
               (case sh_wait C child k of
                  (Err e, k) \<Rightarrow> (Err (''Failed to wait for tee command: '' @ e), k)
                | (Ok success, k) \<Rightarrow> if success then (Ok (), k) else (Err ''Failed to set number of hugepages'', k))))"

definition ensure_hugepages :: "'k shell \<Rightarrow> 'k \<Rightarrow> (unit, string) Result \<times> 'k" where
  "ensure_hugepages C k =
     (let (res, k) =
            (if \<not> sh_exists C ''/dev/hugepages'' k
             then run_command C [''sudo'', ''mkdir'', ''-p'', ''/dev/hugepages''] ''Failed to create hugepages directory'' k
             else (Ok (), k))
      in case res of
           Err e \<Rightarrow> (Err e, k)
         | Ok _ \<Rightarrow>
             let mounts = (case sh_read_to_string C ''/proc/mounts'' k of Ok s \<Rightarrow> s | Err e \<Rightarrow> []);
                 (res, k) =
                   (if \<not> hugetlbfs_mounted mounts
                    then run_command C [''sudo'', ''mount'', ''-t'', ''hugetlbfs'', ''none'', ''/dev/hugepages'']
                           ''Failed to mount hugetlbfs'' k
                    else (Ok (), k))
             in case res of
                  Err e \<Rightarrow> (Err e, k)
                | Ok _ \<Rightarrow> set_nr_hugepages C k)"

subsection \<open>Neighbours\<close>

fun str_split :: "u8 \<Rightarrow> bytes \<Rightarrow> bytes list" where
  "str_split c [] = [[]]"
| "str_split c (b # bs) =
     (if b = c then [] # str_split c bs else (b # hd (str_split c bs)) # tl (str_split c bs))"

fun parse_mac_parts :: "bytes list \<Rightarrow> bytes option" where
  "parse_mac_parts [] = Some []"
| "parse_mac_parts (part # parts) =
     (case from_str_radix 256 16 part of
        None \<Rightarrow> None
      | Some n \<Rightarrow> map_option (\<lambda>bs. of_nat n # bs) (parse_mac_parts parts))"

definition parse_mac_address :: "bytes \<Rightarrow> MacAddress option" where
  "parse_mac_address mac_str =
     (let parts = str_split 58 mac_str in
      if length parts \<noteq> 6 then None
      else (case parse_mac_parts parts of
              Some [a, b, c, d, e, f] \<Rightarrow> Some (Mac a b c d e f)
            | _ \<Rightarrow> None))"

text \<open>The first \<open>n\<close> characters of a string in UTF-8.\<close>

fun take_chars :: "nat \<Rightarrow> bytes \<Rightarrow> bytes" where
  "take_chars 0 s = []"
| "take_chars (Suc n) [] = []"
| "take_chars (Suc n) (b # bs) = b # takeWhile (\<lambda>x. utf8_tail x) bs @ take_chars n (dropWhile (\<lambda>x. utf8_tail x) bs)"

fun str_find :: "bytes \<Rightarrow> bytes \<Rightarrow> usize option" where
  "str_find [] p = (if p = [] then Some 0 else None)"
| "str_find (b # bs) p = (if starts_with (b # bs) p then Some 0 else map_option Suc (str_find bs p))"

fun neighbor_of_lines :: "bytes list \<Rightarrow> MacAddress option" where
  "neighbor_of_lines [] = None"
| "neighbor_of_lines (line # lines) =
     (case str_find line (ascii ''lladdr '') of
        Some lladdr_pos \<Rightarrow> parse_mac_address (take_chars 17 (drop (lladdr_pos + 7) line))
      | None \<Rightarrow> neighbor_of_lines lines)"

text \<open>\<open>output\<close> is what \<^verbatim>\<open>ip neigh show\<close> returns, if it runs; \<open>lossy\<close> is \<open>String::from_utf8_lossy\<close>.\<close>

definition get_neighbor_mac :: "(bytes \<Rightarrow> bytes) \<Rightarrow> (bytes \<Rightarrow> (bool \<times> bytes) option) \<Rightarrow> bytes \<Rightarrow> MacAddress option" where
  "get_neighbor_mac lossy output ip_address =
     (case output ip_address of
        None \<Rightarrow> None
      | Some (success, stdout) \<Rightarrow> if \<not> success then None else neighbor_of_lines (str_lines (lossy stdout)))"

definition build_arp_reply :: "MacAddress \<Rightarrow> Ipv4Addr \<Rightarrow> MacAddress \<Rightarrow> Ipv4Addr \<Rightarrow> bytes" where
  "build_arp_reply mac ip gateway_mac gateway_ip =
     (let packet = replicate 42 0;
          packet = write_at 0 (mac_bytes mac) packet;
          packet = write_at 6 (mac_bytes gateway_mac) packet;
          packet = write_at 12 [0x08, 0x06] packet;
          packet = write_at 14 [0x00, 0x01] packet;
          packet = write_at 16 [0x08, 0x00] packet;
          packet = packet[18 := 6];
          packet = packet[19 := 4];
          packet = write_at 20 [0x00, 0x02] packet;
          packet = write_at 22 (mac_bytes gateway_mac) packet;
          packet = write_at 28 (octets gateway_ip) packet;
          packet = write_at 32 (mac_bytes mac) packet;
          packet = write_at 38 (octets ip) packet
      in packet)"

subsection \<open>The packet generator\<close>

definition gen_ipv4 :: "wire \<Rightarrow> bytes \<Rightarrow> bytes" where
  "gen_ipv4 W b =
     (let b = ip_set_version W 4 b;
          b = ip_set_header_len W 20 b;
          b = ip_set_dscp W 0 b;
          b = ip_set_ecn W 0 b;
          b = ip_set_total_len W (of_nat (28 + 18)) b;
          b = ip_set_ident W 0x5c65 b;
          b = ip_clear_flags W b;
          b = ip_set_frag_offset W 0 b;
          b = ip_set_hop_limit W 128 b;
          b = ip_set_next_header W 17 b;
          b = ip_set_src_addr W (Ipv4 192 168 29 58) b;
          b = ip_set_dst_addr W (Ipv4 192 168 29 160) b
      in ip_set_checksum W 0 b)"

definition gen_udp :: "wire \<Rightarrow> bytes \<Rightarrow> bytes" where
  "gen_udp W b =
     (let b = udp_set_src_port W 60376 b;
          b = udp_set_dst_port W 161 b;
          b = udp_set_len W (of_nat (8 + 18)) b
      in udp_set_checksum W 0xbc86 b)"

definition gen_frame :: "wire \<Rightarrow> bytes \<Rightarrow> bytes outcome" where
  "gen_frame W b =
     (let b = eth_set_src_addr W (Mac 0x00 0x50 0x56 0xae 0x76 0xf5) b;
          b = eth_set_dst_addr W (Mac 0x00 0x0b 0x86 0x64 0x8b 0xa0) b;
          b = eth_set_ethertype W 0x0800 b
      in in_slice (eth_payload W b)
           (\<lambda>p. let p = gen_ipv4 W p in in_slice (ip_payload W p) (\<lambda>u. Ret (gen_udp W u)) p) b)"

fun gen_write :: "'d dpdk \<Rightarrow> wire \<Rightarrow> Mbuf list \<Rightarrow> 'd world \<Rightarrow> 'd world outcome" where
  "gen_write D W [] w = Ret w"
| "gen_write D W (mbuf # batch) w =
     (let w = mbuf_extend D mbuf (42 + 18) w;
          (p, n) = mbuf_data_mut D mbuf w
      in bind_outcome (gen_frame W (from_raw_parts (mem w) p n)) (\<lambda>frame.
           gen_write D W batch (w\<lparr>mem := write_raw (mem w) p frame\<rparr>)))"

lemma remove_sent_length: "remove_sent n xs = Ret ys \<Longrightarrow> length ys = length xs - n"
  by (induction n xs rule: remove_sent.induct) auto

lemma tx_queue_tx_shrinks:
  assumes "tx_queue_tx D q batch w = Ret (sent, batch', w')" and "sent \<noteq> 0" and "batch \<noteq> []"
  shows "length batch' < length batch"
  using assms by (auto simp: tx_queue_tx_def Let_def bind_outcome_Ret_conv dest!: remove_sent_length split: prod.splits)

text \<open>The loop that sends a batch: a burst that takes nothing drops the rest, so that it ends.\<close>

function gen_send :: "'d dpdk \<Rightarrow> TxQueue \<Rightarrow> Mbuf list \<Rightarrow> 'd world \<Rightarrow> 'd world outcome" where
  "gen_send D q batch w =
     (if batch = [] then Ret w
      else
        (case tx_queue_tx D q batch w of
           Panic msg \<Rightarrow> Panic msg
         | Ret (sent, batch', w') \<Rightarrow>
             if sent = 0 then Ret (fold (mbuf_drop D) batch' w') else gen_send D q batch' w'))"
  by pat_completeness auto
termination
  by (relation "measure (\<lambda>(D, q, batch, w). length batch)") (auto intro: tx_queue_tx_shrinks)

declare gen_send.simps [simp del]

text \<open>One turn of a generator thread, and its run for as long as the flag is set.\<close>

definition gen_turn :: "'d dpdk \<Rightarrow> wire \<Rightarrow> TxQueue \<Rightarrow> ptr \<Rightarrow> 'd world \<Rightarrow> 'd world outcome" where
  "gen_turn D W q pool w =
     (let (n, batch, w) = mempool_ref_fill_batch D pool 64 [] w
      in bind_outcome (gen_write D W batch w) (gen_send D q batch))"

fun gen_worker :: "'d dpdk \<Rightarrow> wire \<Rightarrow> TxQueue \<Rightarrow> ptr \<Rightarrow> bool list \<Rightarrow> 'd world \<Rightarrow> 'd world outcome" where
  "gen_worker D W q pool [] w = Ret w"
| "gen_worker D W q pool (run # runs) w =
     (if \<not> run then Ret w else bind_outcome (gen_turn D W q pool w) (gen_worker D W q pool runs))"

subsection \<open>Properties\<close>

text \<open>Every path of \<open>get_ethtool_channels\<close> closes the socket it opened.\<close>

lemma get_ethtool_channels_closes:
  assumes "lc_socket C k = (sock, k1)" and "0 \<le> sock"
  shows "\<exists>k2. snd (get_ethtool_channels C interface k) = lc_close C sock k2"
  using assms by (auto simp: get_ethtool_channels_def Let_def split: prod.split)

lemma build_arp_reply_eq: "build_arp_reply mac ip gateway_mac gateway_ip = build_arp_reply_for_injection mac ip gateway_mac gateway_ip"
  by (simp add: build_arp_reply_def build_arp_reply_for_injection_def)

text \<open>A hardware address as \<^verbatim>\<open>ip neigh\<close> prints it.\<close>

definition hex2 :: "u8 \<Rightarrow> bytes" where
  "hex2 b = [digit_byte (unat b div 16), digit_byte (unat b mod 16)]"

fun colon_join :: "bytes list \<Rightarrow> bytes" where
  "colon_join [] = []"
| "colon_join [part] = part"
| "colon_join (part # parts) = part @ 58 # colon_join parts"

definition show_mac :: "MacAddress \<Rightarrow> bytes" where
  "show_mac mac = colon_join (map hex2 (mac_bytes mac))"

lemma from_hex2: "from_str_radix 256 16 (hex2 b) = Some (unat b)"
proof -
  have d: "unat b div 16 < 16" using unat_u8_less [of b] by (simp add: less_mult_imp_div_less)
  then have "digit_byte (unat b div 16) \<noteq> 43" by (rule digit_byte_range(1))
  moreover have "unat b div 16 * 16 + unat b mod 16 = unat b" by simp
  moreover have "unat b div 16 < 256" using d by simp
  ultimately show ?thesis
    using d unat_u8_less [of b] by (simp add: from_str_radix_def hex2_def to_digit_digit_byte Let_def)
qed

lemma hex2_plain: "c \<in> set (hex2 b) \<Longrightarrow> c \<noteq> 58 \<and> c < 128 \<and> c \<noteq> 10 \<and> 32 < c"
proof -
  assume "c \<in> set (hex2 b)"
  moreover have "unat b div 16 < 16" using unat_u8_less [of b] by (simp add: less_mult_imp_div_less)
  ultimately obtain d where d: "c = digit_byte d" "d < 16" by (auto simp: hex2_def)
  have "unat c = (if d < 10 then 48 + d else 87 + d)" using d unat_digit_byte by simp
  then have "c \<noteq> 58" using d(2) by (auto simp: word_unat_eq_iff split: if_splits)
  with d digit_byte_range [OF d(2)] show ?thesis by simp
qed

lemma split_part: "c \<notin> set part \<Longrightarrow> str_split c (part @ c # rest) = part # str_split c rest"
  by (induction part) auto

lemma split_last: "c \<notin> set part \<Longrightarrow> str_split c part = [part]"
  by (induction part) auto

lemma split_join: "parts \<noteq> [] \<Longrightarrow> \<forall>part \<in> set parts. 58 \<notin> set part \<Longrightarrow> str_split 58 (colon_join parts) = parts"
  by (induction parts rule: colon_join.induct) (auto simp: split_part split_last)

lemma parse_mac_parts_hex: "parse_mac_parts (map hex2 bs) = Some bs"
  by (induction bs) (simp_all add: from_hex2)

lemma parse_mac_address_show: "parse_mac_address (show_mac mac) = Some mac"
proof (cases mac)
  case (Mac a b c d e f)
  have "str_split 58 (show_mac mac) = map hex2 [a, b, c, d, e, f]"
    unfolding show_mac_def Mac by (subst split_join) (use hex2_plain in auto)
  then show ?thesis using parse_mac_parts_hex [of "[a, b, c, d, e, f]"] by (simp add: parse_mac_address_def Mac Let_def)
qed

lemma stop_at_head: "xs = [] \<or> \<not> P (hd xs) \<Longrightarrow> takeWhile P xs = [] \<and> dropWhile P xs = xs"
  by (cases xs) auto

lemma take_chars_ascii:
  assumes "t = [] \<or> \<not> utf8_tail (hd t)"
  shows "\<forall>b \<in> set s. b < 128 \<Longrightarrow> take_chars (length s) (s @ t) = s"
proof (induction s)
  case (Cons b s)
  have "s @ t = [] \<or> \<not> utf8_tail (hd (s @ t))"
    using Cons.prems assms by (cases s) (auto simp: word_less_nat_alt word_le_nat_alt)
  from stop_at_head [of "s @ t" "\<lambda>x. utf8_tail x", OF this] Cons show ?case by simp
qed simp

lemma str_find_first:
  assumes "\<forall>i < length pre. \<not> starts_with (drop i (pre @ p @ t)) p"
  shows "str_find (pre @ p @ t) p = Some (length pre)"
  using assms
proof (induction pre)
  case Nil
  show ?case using starts_with_append [of p t] by (cases "p @ t") auto
next
  case (Cons b pre)
  have "\<not> starts_with (b # pre @ p @ t) p" using Cons.prems by (metis append_Cons drop0 length_Cons zero_less_Suc)
  moreover have "\<forall>i < length pre. \<not> starts_with (drop i (pre @ p @ t)) p" using Cons.prems by auto
  ultimately show ?case using Cons.IH by simp
qed

lemma str_contains_iff: "str_contains s p \<longleftrightarrow> (\<exists>u v. s = u @ p @ v)"
proof (induction s)
  case (Cons b s)
  show ?case
  proof
    assume "str_contains (b # s) p"
    then consider "starts_with (b # s) p" | "str_contains s p" by auto
    then show "\<exists>u v. b # s = u @ p @ v"
    proof cases
      case 1
      then show ?thesis unfolding starts_with_iff by (metis append_Nil)
    next
      case 2
      with Cons.IH show ?thesis by (metis append_Cons)
    qed
  next
    assume "\<exists>u v. b # s = u @ p @ v"
    then obtain u v where u: "b # s = u @ p @ v" by blast
    show "str_contains (b # s) p"
    proof (cases u)
      case Nil
      with u have "starts_with (b # s) p" by (auto simp: starts_with_iff)
      then show ?thesis by simp
    next
      case (Cons c us)
      with u have "s = us @ p @ v" by simp
      with Cons.IH show ?thesis by (metis str_contains.simps(2))
    qed
  qed
qed (simp add: starts_with_iff)

lemma strip_cr_id: "13 \<notin> set l \<Longrightarrow> strip_cr l = l"
  by (cases l rule: rev_cases) (auto simp: strip_cr_def)

lemma key_first:
  assumes "\<not> str_contains (pre @ butlast p) p"
  shows "\<forall>i < length pre. \<not> starts_with (drop i (pre @ p @ t)) p"
proof (intro allI impI notI)
  fix i assume i: "i < length pre" and "starts_with (drop i (pre @ p @ t)) p"
  then obtain v where v: "drop i (pre @ p @ t) = p @ v" by (auto simp: starts_with_iff)
  let ?n = "length pre + length p - 1"
  have "p \<noteq> []"
  proof
    assume "p = []"
    then have "pre @ butlast p = pre @ p @ []" by simp
    then show False using assms unfolding str_contains_iff by blast
  qed
  then have n: "i + length p \<le> ?n" "?n - length pre = length p - 1" using i by (cases p; simp)+
  have "pre @ p @ t = take i (pre @ p @ t) @ p @ v" using append_take_drop_id [of i "pre @ p @ t"] v by simp
  then have "take ?n (pre @ p @ t) = take ?n (take i (pre @ p @ t) @ p @ v)" by (rule arg_cong)
  also have "\<dots> = take i (pre @ p @ t) @ p @ take (?n - i - length p) v" using n(1) i by simp
  finally have "str_contains (take ?n (pre @ p @ t)) p" unfolding str_contains_iff by blast
  moreover have "length pre \<le> ?n" using \<open>p \<noteq> []\<close> by (cases p) auto
  then have "take ?n (pre @ p @ t) = pre @ butlast p" using n(2) by (simp add: butlast_conv_take)
  ultimately show False using assms by simp
qed

lemma show_mac_plain: "length (show_mac mac) = 17" "\<forall>b \<in> set (show_mac mac). b < 128 \<and> b \<noteq> 10 \<and> b \<noteq> 13" "show_mac mac \<noteq> []"
proof -
  have "\<forall>c \<in> set (hex2 b). c < 128 \<and> c \<noteq> 10 \<and> c \<noteq> 13" for b using hex2_plain by fastforce
  then show "\<forall>b \<in> set (show_mac mac). b < 128 \<and> b \<noteq> 10 \<and> b \<noteq> 13" by (cases mac) (auto simp: show_mac_def)
qed (cases mac; simp add: show_mac_def hex2_def)+

text \<open>
  The hardware address of the gateway as the kernel prints it is found, and the ARP reply built from
  it teaches exactly this address: the reply announces it for the address of the gateway (C19).
\<close>

theorem neighbor_taught:
  assumes "\<And>s. utf8_valid s \<Longrightarrow> lossy s = s"
    and "\<forall>b \<in> set (pre @ post). b < 128 \<and> b \<noteq> 10 \<and> b \<noteq> 13" and "\<not> str_contains (pre @ ascii ''lladdr'') (ascii ''lladdr '')"
    and "output gateway = Some (True, pre @ ascii ''lladdr '' @ show_mac mac @ post @ [10])"
  shows "get_neighbor_mac lossy output gateway = Some mac \<and>
    parse_arp_reply (build_arp_reply our_mac_addr our_ip_addr mac gateway_ip) = Some (gateway_ip, mac)"
proof -
  let ?key = "ascii ''lladdr ''"
  let ?line = "pre @ ?key @ show_mac mac @ post"
  have plain: "\<forall>b \<in> set ?line. b < 128 \<and> b \<noteq> 10 \<and> b \<noteq> 13"
    using assms(2) show_mac_plain(2) by (auto simp: ascii_def)
  have "10 \<notin> set ?line" "13 \<notin> set ?line" using plain by blast+
  moreover have "strip_cr ?line = ?line" by (rule strip_cr_id) fact
  ultimately have lines: "str_lines (?line @ [10]) = [?line]" using str_lines_nl [of ?line "[]"] by simp
  have "str_find ?line ?key = Some (length pre)"
    by (rule str_find_first, rule key_first) (use assms(3) in \<open>simp add: ascii_def\<close>)
  moreover have "drop (length pre + 7) ?line = show_mac mac @ post" by (simp add: ascii_def)
  moreover have "post = [] \<or> \<not> utf8_tail (hd post)" using assms(2) by (cases post) (auto simp: word_less_nat_alt word_le_nat_alt)
  then have "take_chars 17 (show_mac mac @ post) = show_mac mac"
    using take_chars_ascii [of post "show_mac mac"] show_mac_plain(1,2) [of mac] by auto
  ultimately have "neighbor_of_lines [?line] = Some mac" by (simp only: neighbor_of_lines.simps option.case parse_mac_address_show)
  moreover have "lossy (?line @ [10]) = ?line @ [10]" by (rule assms(1), rule utf8_ascii) (use plain in auto)
  ultimately have "get_neighbor_mac lossy output gateway = Some mac"
    using assms(4) lines by (simp add: get_neighbor_mac_def del: neighbor_of_lines.simps)
  then show ?thesis by (simp add: build_arp_reply_eq parse_arp_reply_build)
qed

theorem neighbor_taught_witness:
  "get_neighbor_mac id (\<lambda>ip. Some (True, ascii ''10.0.0.1 dev eth0 lladdr '' @ show_mac (Mac 0x12 0x34 0x56 0x78 0x9a 0xbc) @ ascii '' REACHABLE'' @ [10]))
     (ascii ''10.0.0.1'') = Some (Mac 0x12 0x34 0x56 0x78 0x9a 0xbc)"
proof -
  have "ascii ''10.0.0.1 dev eth0 lladdr '' = ascii ''10.0.0.1 dev eth0 '' @ ascii ''lladdr ''" by (simp add: ascii_def)
  moreover have "\<forall>b \<in> set (ascii ''10.0.0.1 dev eth0 '' @ ascii '' REACHABLE''). b < 128 \<and> b \<noteq> 10 \<and> b \<noteq> 13"
    "\<not> str_contains (ascii ''10.0.0.1 dev eth0 '' @ ascii ''lladdr'') (ascii ''lladdr '')"
    by (simp_all add: ascii_def)
  ultimately show ?thesis
    using neighbor_taught [of id "ascii ''10.0.0.1 dev eth0 ''" "ascii '' REACHABLE''"
      "\<lambda>ip. Some (True, ascii ''10.0.0.1 dev eth0 lladdr '' @ show_mac (Mac 0x12 0x34 0x56 0x78 0x9a 0xbc) @ ascii '' REACHABLE'' @ [10])"
      "ascii ''10.0.0.1''" "Mac 0x12 0x34 0x56 0x78 0x9a 0xbc"] by simp
qed

text \<open>
  The generator does not leak: sending a batch ends with every buffer of it given to the hardware or
  freed, whatever the hardware takes.
\<close>

lemma drop_all:
  assumes "mbuf_laws D V" and "distinct ms" and "\<forall>m \<in> set ms. mbuf_live V w m"
  shows "(\<forall>m \<in> set ms. \<not> mbuf_live V (fold (mbuf_drop D) ms w) m) \<and> keeps D V (set ms) w (fold (mbuf_drop D) ms w)"
  using assms(2,3)
proof (induction ms arbitrary: w)
  case (Cons m ms)
  have m: "\<not> mbuf_live V (mbuf_drop D m w) m" "keeps D V {m} w (mbuf_drop D m w)"
    using mb.release_spec [OF assms(1), of w m] Cons.prems(2) by simp_all
  have live: "\<forall>m' \<in> set ms. mbuf_live V (mbuf_drop D m w) m'"
    using keepsD(1) [OF m(2)] Cons.prems by fastforce
  from Cons.IH [OF _ live] Cons.prems(1) have IH: "\<forall>m' \<in> set ms. \<not> mbuf_live V (fold (mbuf_drop D) ms (mbuf_drop D m w)) m'"
      "keeps D V (set ms) (mbuf_drop D m w) (fold (mbuf_drop D) ms (mbuf_drop D m w))" by simp_all
  have "\<not> mbuf_live V (fold (mbuf_drop D) ms (mbuf_drop D m w)) m" using keepsD(1) [OF IH(2), of m] m(1) Cons.prems(1) by simp
  with IH keeps_trans [OF m(2) IH(2)] show ?case by simp
qed simp

lemma gen_send_conserves:
  assumes "dpdk_laws D V"
  shows "distinct batch \<Longrightarrow> \<forall>m \<in> set batch. mbuf_live V w m \<Longrightarrow>
    \<exists>w'. gen_send D q batch w = Ret w' \<and> (\<forall>m \<in> set batch. \<not> mbuf_live V w' m) \<and> keeps D V (set batch) w w'"
proof (induction "length batch" arbitrary: batch w rule: less_induct)
  case less
  show ?case
  proof (cases "batch = []")
    case True
    then show ?thesis by (simp add: gen_send.simps [of D q "[]"])
  next
    case False
    obtain n w1 where tx: "tx_queue_tx D q batch w = Ret (n, drop n batch, w1)" "n \<le> length batch"
        "\<forall>m \<in> set (take n batch). \<not> mbuf_live V w1 m" "keeps D V (set (take n batch)) w w1"
      using pq.tx_prefix [OF assms] by blast
    have disj: "set (take n batch) \<inter> set (drop n batch) = {}" by (rule set_take_disj_set_drop_if_distinct) (use less.prems in auto)
    have live: "\<forall>m \<in> set (drop n batch). mbuf_live V w1 m"
      using keepsD(1) [OF tx(4)] disj less.prems(2) by (meson disjoint_iff in_set_dropD)
    have dist: "distinct (drop n batch)" using less.prems(1) by simp
    have "\<exists>w'. gen_send D q batch w = Ret w' \<and> (\<forall>m \<in> set (drop n batch). \<not> mbuf_live V w' m) \<and> keeps D V (set (drop n batch)) w1 w'"
    proof (cases "n = 0")
      case True
      then show ?thesis using tx(1) False drop_all [OF dpdk_lawsD(1) [OF assms] dist live] by (subst gen_send.simps) simp
    next
      case n: False
      then have "length (drop n batch) < length batch" using False by simp
      from less.hyps [OF this dist live] tx(1) False n show ?thesis by (subst gen_send.simps) simp
    qed
    then obtain w' where w': "gen_send D q batch w = Ret w'" "\<forall>m \<in> set (drop n batch). \<not> mbuf_live V w' m"
        "keeps D V (set (drop n batch)) w1 w'" by blast
    have all: "set (take n batch) \<union> set (drop n batch) = set batch" by (metis append_take_drop_id set_append)
    have "\<not> mbuf_live V w' m" if "m \<in> set (take n batch)" for m
      using keepsD(1) [OF w'(3), of m] that tx(3) disj by auto
    with w' keeps_trans [OF tx(4) w'(3)] all show ?thesis by auto
  qed
qed

end
