(* ===== verification/Discovery.thy ===== *)
theory Discovery
  imports Net_Util
begin

section \<open>Discovery of the network device and its configuration\<close>

text \<open>
  A model of the discovery functions of \<^verbatim>\<open>dpdk-net-test/src/manual/tcp.rs\<close>: the PCI address of an
  interface, its IPv4 address and the default gateway. The files of the kernel are a parameter
  (\<open>fs\<close>): reading a link, listing a directory, reading a file. Paths and names are the bytes the
  kernel returns; a name becomes a string only when it is valid UTF-8.
\<close>

subsection \<open>Files and paths\<close>

text \<open>
  \<open>fs_read_dir\<close> gives the names of the entries that could be read, \<open>fs_open\<close> the bytes of a file and
  whether reading it ended in an error.
\<close>

record fs =
  fs_read_link :: "bytes \<Rightarrow> bytes option"
  fs_read_dir :: "bytes \<Rightarrow> bytes list option"
  fs_read :: "bytes \<Rightarrow> bytes option"
  fs_open :: "bytes \<Rightarrow> (bytes \<times> bool) option"

definition read_to_string :: "fs \<Rightarrow> bytes \<Rightarrow> bytes option" where
  "read_to_string F path =
     (case fs_read F path of Some s \<Rightarrow> if utf8_valid s then Some s else None | None \<Rightarrow> None)"

definition to_str :: "bytes \<Rightarrow> bytes option" where
  "to_str name = (if utf8_valid name then Some name else None)"

text \<open>A string of bytes as a list of characters, for the functions that pass it on.\<close>

definition string_of :: "bytes \<Rightarrow> string" where
  "string_of s = map (\<lambda>b. char_of (unat b)) s"

definition path_join :: "bytes \<Rightarrow> bytes \<Rightarrow> bytes" where
  "path_join path name = path @ 47 # name"

text \<open>\<open>Path::file_name\<close>: the last component, unless it is \<^verbatim>\<open>..\<close>; empty components and \<^verbatim>\<open>.\<close> are skipped.\<close>

definition file_name :: "bytes \<Rightarrow> bytes option" where
  "file_name path =
     (case rev (filter (\<lambda>c. c \<noteq> [] \<and> c \<noteq> [46]) (str_split 47 path)) of
        [] \<Rightarrow> None
      | c # _ \<Rightarrow> if c = [46, 46] then None else Some c)"

text \<open>\<open>BufRead::lines\<close>: the lines as strings, where an invalid or unreadable line is an error.\<close>

definition buf_lines :: "bytes \<times> bool \<Rightarrow> bytes option list" where
  "buf_lines = (\<lambda>(s, failed).
     map to_str (str_lines (if failed then rev (dropWhile (\<lambda>b. b \<noteq> 10) (rev s)) else s)) @ (if failed then [None] else []))"

fun split_words :: "bytes \<Rightarrow> bytes \<Rightarrow> bytes list" where
  "split_words word [] = (if word = [] then [] else [word])"
| "split_words word (b # bs) =
     (case List.find (starts_with (b # bs)) white_space of
        None \<Rightarrow> split_words (word @ [b]) bs
      | Some w \<Rightarrow> (if word = [] then [] else [word]) @ split_words [] (drop (length w - 1) bs))"

definition split_whitespace :: "bytes \<Rightarrow> bytes list" where
  "split_whitespace s = split_words [] s"

subsection \<open>The PCI address of an interface\<close>

text \<open>One entry of the scan: it is skipped, it is the result, or the scan is given up.\<close>

datatype scan = Skip | Found bytes | GiveUp

definition scan_device :: "fs \<Rightarrow> bytes \<Rightarrow> bytes \<Rightarrow> scan" where
  "scan_device F devices_dir entry =
     (case to_str entry of
        None \<Rightarrow> GiveUp
      | Some pci_addr \<Rightarrow>
     (let device_path = path_join devices_dir entry in
      case read_to_string F (path_join device_path (ascii ''vendor'')) of
        None \<Rightarrow> GiveUp
      | Some vendor \<Rightarrow>
     (if trim vendor \<noteq> ascii ''0x1af4'' then Skip
      else
        (case read_to_string F (path_join device_path (ascii ''device'')) of
           None \<Rightarrow> GiveUp
         | Some device_id \<Rightarrow>
     (if trim device_id \<noteq> ascii ''0x1000'' then Skip
      else
        (case fs_read_link F (path_join device_path (ascii ''driver'')) of
           None \<Rightarrow> Skip
         | Some driver_link \<Rightarrow>
             (case file_name driver_link of
                None \<Rightarrow> Skip
              | Some driver_name \<Rightarrow>
                  if to_str driver_name = Some (ascii ''vfio-pci'') then Found pci_addr else Skip)))))))"

fun scan_devices :: "fs \<Rightarrow> bytes \<Rightarrow> bytes list \<Rightarrow> bytes option" where
  "scan_devices F devices_dir [] = None"
| "scan_devices F devices_dir (entry # entries) =
     (case scan_device F devices_dir entry of
        Skip \<Rightarrow> scan_devices F devices_dir entries
      | Found pci_addr \<Rightarrow> Some pci_addr
      | GiveUp \<Rightarrow> None)"

definition find_vfio_virtio_net :: "fs \<Rightarrow> bytes option" where
  "find_vfio_virtio_net F =
     (let devices_dir = ascii ''/sys/bus/pci/devices'' in
      case fs_read_dir F devices_dir of
        None \<Rightarrow> None
      | Some entries \<Rightarrow> scan_devices F devices_dir entries)"

definition pci_component :: "bytes \<Rightarrow> bool" where
  "pci_component component \<longleftrightarrow>
     58 \<in> set component \<and> 46 \<in> set component \<and>
     (let parts = str_split 58 component in length parts \<ge> 2 \<and> (if parts = [] then False else 46 \<in> set (last parts)))"

definition scan_lower :: "fs \<Rightarrow> bytes \<Rightarrow> bytes \<Rightarrow> scan" where
  "scan_lower F net_dir entry =
     (case to_str entry of
        None \<Rightarrow> Skip
      | Some name_str \<Rightarrow>
     (if \<not> starts_with name_str (ascii ''lower_'') then Skip
      else
        (case fs_read_link F (path_join net_dir entry) of
           None \<Rightarrow> Skip
         | Some lower_link \<Rightarrow>
             (case to_str lower_link of
                None \<Rightarrow> GiveUp
              | Some path_str \<Rightarrow>
                  (case List.find pci_component (str_split 47 path_str) of
                     Some component \<Rightarrow> Found component
                   | None \<Rightarrow> Skip)))))"

fun scan_lowers :: "fs \<Rightarrow> bytes \<Rightarrow> bytes list \<Rightarrow> bytes option" where
  "scan_lowers F net_dir [] = None"
| "scan_lowers F net_dir (entry # entries) =
     (case scan_lower F net_dir entry of
        Skip \<Rightarrow> scan_lowers F net_dir entries
      | Found pci_addr \<Rightarrow> Some pci_addr
      | GiveUp \<Rightarrow> None)"

definition get_pci_addr_from_interface :: "fs \<Rightarrow> bytes \<Rightarrow> bytes option" where
  "get_pci_addr_from_interface F interface =
     (case fs_read_link F (ascii ''/sys/class/net/'' @ interface @ ascii ''/device'') of
        None \<Rightarrow> None
      | Some link \<Rightarrow>
     (case Option.bind (file_name link) to_str of
        None \<Rightarrow> None
      | Some filename \<Rightarrow>
          if 58 \<in> set filename \<and> 46 \<in> set filename then Some filename
          else if starts_with filename (ascii ''virtio'') then None
          else
            let net_dir = ascii ''/sys/class/net/'' @ interface in
            (case fs_read_dir F net_dir of
               Some entries \<Rightarrow> scan_lowers F net_dir entries
             | None \<Rightarrow> None)))"

definition get_pci_addr :: "fs \<Rightarrow> bytes \<Rightarrow> bytes option" where
  "get_pci_addr F interface =
     (case get_pci_addr_from_interface F interface of
        Some addr \<Rightarrow> Some addr
      | None \<Rightarrow>
          (case find_vfio_virtio_net F of
             Some addr \<Rightarrow> Some addr
           | None \<Rightarrow> None))"

subsection \<open>Addresses\<close>

datatype sockaddr = SockaddrIn Ipv4Addr | SockaddrOther

record ifaddr =
  ifa_interface_name :: bytes
  ifa_address :: "sockaddr option"

fun as_sockaddr_in :: "sockaddr \<Rightarrow> Ipv4Addr option" where
  "as_sockaddr_in (SockaddrIn ip) = Some ip"
| "as_sockaddr_in SockaddrOther = None"

fun first_ipv4 :: "bytes \<Rightarrow> ifaddr list \<Rightarrow> Ipv4Addr option" where
  "first_ipv4 interface [] = None"
| "first_ipv4 interface (ifaddr # ifaddrs) =
     (if ifa_interface_name ifaddr = interface then
        (case Option.bind (ifa_address ifaddr) as_sockaddr_in of
           Some ip \<Rightarrow> Some ip
         | None \<Rightarrow> first_ipv4 interface ifaddrs)
      else first_ipv4 interface ifaddrs)"

text \<open>\<open>getifaddrs\<close> is what the system call returns.\<close>

definition get_interface_ipv4 :: "ifaddr list option \<Rightarrow> bytes \<Rightarrow> Ipv4Addr option" where
  "get_interface_ipv4 getifaddrs interface =
     (case getifaddrs of None \<Rightarrow> None | Some ifaddrs \<Rightarrow> first_ipv4 interface ifaddrs)"

definition u32_to_le_bytes :: "u32 \<Rightarrow> bytes" where
  "u32_to_le_bytes n = map (\<lambda>i. ucast (drop_bit (8 * i) n)) [0..<4]"

definition parse_hex_gateway :: "bytes \<Rightarrow> Ipv4Addr option" where
  "parse_hex_gateway hex_str =
     (case from_str_radix (2 ^ 32) 16 hex_str of
        None \<Rightarrow> None
      | Some gateway_hex \<Rightarrow>
          let os = u32_to_le_bytes (of_nat gateway_hex)
          in Some (Ipv4 (os ! 0) (os ! 1) (os ! 2) (os ! 3)))"

fun gateway_of_lines :: "bytes option list \<Rightarrow> Ipv4Addr option" where
  "gateway_of_lines [] = None"
| "gateway_of_lines (line # lines) =
     (case line of
        None \<Rightarrow> None
      | Some line \<Rightarrow>
          let fields = split_whitespace line in
          if length fields < 3 then gateway_of_lines lines
          else if fields ! 1 = ascii ''00000000'' then parse_hex_gateway (fields ! 2)
          else gateway_of_lines lines)"

definition get_default_gateway :: "fs \<Rightarrow> Ipv4Addr option" where
  "get_default_gateway F =
     (case fs_open F (ascii ''/proc/net/route'') of
        None \<Rightarrow> None
      | Some file \<Rightarrow> gateway_of_lines (drop 1 (buf_lines file)))"

subsection \<open>Properties\<close>

text \<open>The scan finds the first virtio device of vfio-pci, and only looks past entries it could judge.\<close>

lemma scan_devices_Some:
  "scan_devices F dir entries = Some addr \<longleftrightarrow>
     (\<exists>pre entry post. entries = pre @ entry # post \<and> scan_device F dir entry = Found addr \<and>
        (\<forall>e \<in> set pre. scan_device F dir e = Skip))"
proof (induction entries)
  case (Cons x xs)
  show ?case
  proof (cases "scan_device F dir x")
    case Skip
    then show ?thesis using Cons
      by (auto simp: Cons_eq_append_conv) (metis append_Cons set_ConsD)+
  next
    case (Found a)
    then show ?thesis by (fastforce simp: Cons_eq_append_conv)
  next
    case GiveUp
    then show ?thesis by (auto simp: Cons_eq_append_conv)
  qed
qed simp

text \<open>What the scan looks for, when all the attributes it reads can be read.\<close>

definition attribute :: "fs \<Rightarrow> bytes \<Rightarrow> string \<Rightarrow> bytes option" where
  "attribute F entry file =
     map_option trim (read_to_string F (path_join (path_join (ascii ''/sys/bus/pci/devices'') entry) (ascii file)))"

definition driver_of :: "fs \<Rightarrow> bytes \<Rightarrow> bytes option" where
  "driver_of F entry =
     Option.bind (fs_read_link F (path_join (path_join (ascii ''/sys/bus/pci/devices'') entry) (ascii ''driver''))) file_name"

definition entry_readable :: "fs \<Rightarrow> bytes \<Rightarrow> bool" where
  "entry_readable F entry \<longleftrightarrow> utf8_valid entry \<and> attribute F entry ''vendor'' \<noteq> None \<and> attribute F entry ''device'' \<noteq> None"

definition vfio_virtio :: "fs \<Rightarrow> bytes \<Rightarrow> bool" where
  "vfio_virtio F entry \<longleftrightarrow> attribute F entry ''vendor'' = Some (ascii ''0x1af4'') \<and>
     attribute F entry ''device'' = Some (ascii ''0x1000'') \<and> driver_of F entry = Some (ascii ''vfio-pci'')"

lemma scan_device_readable:
  assumes "entry_readable F entry"
  shows "scan_device F (ascii ''/sys/bus/pci/devices'') entry = (if vfio_virtio F entry then Found entry else Skip)"
proof -
  have "utf8_valid (ascii ''vfio-pci'')" by (simp add: ascii_def)
  with assms show ?thesis
    by (auto simp: scan_device_def entry_readable_def vfio_virtio_def attribute_def driver_of_def to_str_def Let_def
        split: option.splits)
qed

lemma scan_devices_readable:
  "\<forall>e \<in> set entries. entry_readable F e \<Longrightarrow>
     scan_devices F (ascii ''/sys/bus/pci/devices'') entries = List.find (vfio_virtio F) entries"
  by (induction entries) (auto simp: scan_device_readable)

text \<open>An entry whose vendor cannot be read ends the scan: the devices after it are not found.\<close>

lemma scan_given_up:
  assumes "attribute F entry ''vendor'' = None"
  shows "scan_devices F (ascii ''/sys/bus/pci/devices'') (entry # entries) = None"
  using assms by (auto simp: scan_device_def attribute_def Let_def split: option.split)

lemma str_split_append: "c \<notin> set t \<Longrightarrow> str_split c (s @ c # t) = str_split c s @ [t]"
proof (induction s)
  case (Cons b s)
  have "str_split c s \<noteq> []" by (cases s) auto
  with Cons show ?case by simp
qed (simp add: split_last)

lemma file_name_join:
  assumes "47 \<notin> set c" and "c \<notin> {[], [46], [46, 46]}"
  shows "file_name (p @ 47 # c) = Some c"
  using assms by (simp add: file_name_def str_split_append)

text \<open>A row of the kernel's routing table: addresses are the hexadecimal numbers of their bytes in memory order.\<close>

definition upper_digit :: "nat \<Rightarrow> u8" where
  "upper_digit d = (if d < 10 then of_nat (48 + d) else of_nat (55 + d))"

definition upper_hex2 :: "u8 \<Rightarrow> bytes" where
  "upper_hex2 b = [upper_digit (unat b div 16), upper_digit (unat b mod 16)]"

definition show_route_addr :: "Ipv4Addr \<Rightarrow> bytes" where
  "show_route_addr ip = concat (map upper_hex2 (rev (octets ip)))"

record route =
  rt_iface :: bytes
  rt_destination :: Ipv4Addr
  rt_gateway :: Ipv4Addr
  rt_rest :: bytes

definition show_route :: "route \<Rightarrow> bytes" where
  "show_route r =
     rt_iface r @ 9 # show_route_addr (rt_destination r) @ 9 # show_route_addr (rt_gateway r) @ 9 # rt_rest r @ [10]"

definition route_ok :: "route \<Rightarrow> bool" where
  "route_ok r \<longleftrightarrow> rt_iface r \<noteq> [] \<and> plain (rt_iface r) \<and> (\<forall>b \<in> set (rt_rest r). b < 128 \<and> b \<noteq> 10 \<and> b \<noteq> 13)"

lemma unat_upper_digit: "d < 16 \<Longrightarrow> unat (upper_digit d) = (if d < 10 then 48 + d else 55 + d)"
  by (simp add: upper_digit_def unat_of_nat del: of_nat_add)

lemma to_digit_upper: "d < 16 \<Longrightarrow> to_digit 16 (upper_digit d) = Some d"
  using unat_upper_digit [of d] by (auto simp: to_digit_def Let_def)

lemma upper_digit_range:
  assumes "d < 16"
  shows "32 < upper_digit d" "upper_digit d < 128" "upper_digit d \<noteq> 43"
  using assms unat_upper_digit [OF assms] by (auto simp: word_unat_eq_iff word_less_nat_alt split: if_splits)

lemma nibbles: "unat (b :: u8) div 16 < 16" "unat (b :: u8) mod 16 < 16"
  using unat_u8_less [of b] by (simp_all add: less_mult_imp_div_less)

lemma show_route_addr_plain: "plain (show_route_addr ip)" "show_route_addr ip \<noteq> []"
  using upper_digit_range nibbles by (cases ip; auto simp: show_route_addr_def upper_hex2_def plain_def)+

lemma digits_value_hex2:
  assumes "acc * 256 + 255 < bound"
  shows "digits_value bound 16 acc (upper_hex2 b @ rest) = digits_value bound 16 (acc * 256 + unat b) rest"
proof -
  have e: "(acc * 16 + unat b div 16) * 16 + unat b mod 16 = acc * 256 + unat b" by (simp add: algebra_simps)
  have "acc * 256 + unat b < bound" using assms unat_u8_less [of b] by linarith
  moreover have "acc * 16 + unat b div 16 < bound" using nibbles(1) [of b] assms by linarith
  ultimately have "digits_value bound 16 acc (upper_hex2 b @ rest) =
      digits_value bound 16 ((acc * 16 + unat b div 16) * 16 + unat b mod 16) rest"
    unfolding e [symmetric] using nibbles [of b] by (simp add: upper_hex2_def to_digit_upper Let_def)
  then show ?thesis unfolding e .
qed

lemma unat_byte:
  assumes "n < 2 ^ 32"
  shows "unat (ucast (drop_bit k (of_nat n :: u32)) :: u8) = n div 2 ^ k mod 256"
proof -
  have "unat (of_nat n :: u32) = n" using assms by (simp add: unat_of_nat)
  then have "unat (drop_bit k (of_nat n :: u32)) = n div 2 ^ k" unfolding unat_drop_bit_eq by (simp add: drop_bit_eq_div)
  then show ?thesis by (simp add: unsigned_ucast_eq take_bit_eq_mod)
qed

lemma base256_digits:
  fixes a b c d n :: nat
  assumes "a < 256" and "b < 256" and "c < 256" and "d < 256" and n: "n = ((d * 256 + c) * 256 + b) * 256 + a"
  shows "n < 2 ^ 32" "n div 2 ^ 0 mod 256 = a" "n div 2 ^ 8 mod 256 = b" "n div 2 ^ 16 mod 256 = c" "n div 2 ^ 24 mod 256 = d"
proof -
  define x y where "x = d * 256 + c" and "y = x * 256 + b"
  then have e: "n = y * 256 + a" using n by simp
  have 1: "n div 256 = y" "y div 256 = x" "x div 256 = d" using assms(1-3) x_def y_def e by simp_all
  have "n div 2 ^ 16 = n div 256 div 256" "n div 2 ^ 24 = n div 256 div 256 div 256" by (simp_all add: div_mult2_eq [symmetric])
  then have 2: "n div 2 ^ 8 = y" "n div 2 ^ 16 = x" "n div 2 ^ 24 = d" using 1 by simp_all
  show "n div 2 ^ 0 mod 256 = a" "n div 2 ^ 8 mod 256 = b" "n div 2 ^ 16 mod 256 = c" "n div 2 ^ 24 mod 256 = d"
  proof -
    have m: "(z * 256 + w) mod 256 = w" if "w < 256" for z w :: nat using that by simp
    show "n div 2 ^ 0 mod 256 = a" using m [OF assms(1), of y] by (simp add: e)
    show "n div 2 ^ 8 mod 256 = b" unfolding 2 y_def using m [OF assms(2)] .
    show "n div 2 ^ 16 mod 256 = c" unfolding 2 x_def using m [OF assms(3)] .
    show "n div 2 ^ 24 mod 256 = d" unfolding 2 using assms(4) by simp
  qed
  show "n < 2 ^ 32" using assms by simp
qed

lemma le_bytes_of_octets:
  "u32_to_le_bytes (of_nat (((unat d * 256 + unat c) * 256 + unat b) * 256 + unat a)) = [a, b, c, d :: u8]"
proof -
  define n where "n = ((unat d * 256 + unat c) * 256 + unat b) * 256 + unat a"
  note n = base256_digits [OF unat_u8_less unat_u8_less unat_u8_less unat_u8_less n_def]
  have "map unat (u32_to_le_bytes (of_nat n)) = map (\<lambda>i. n div 2 ^ (8 * i) mod 256) [0..<4]"
    by (simp only: u32_to_le_bytes_def map_map comp_def unat_byte [OF n(1)])
  also have "\<dots> = map unat [a, b, c, d]" using n(2-) by (simp add: upt_rec)
  finally have "u32_to_le_bytes (of_nat n) = [a, b, c, d]" by (simp only: inj_map_eq_map [OF inj_unsigned])
  then show ?thesis by (simp only: n_def)
qed

lemma parse_hex_gateway_show: "parse_hex_gateway (show_route_addr ip) = Some ip"
proof (cases ip)
  case (Ipv4 a b c d)
  let ?n = "((unat d * 256 + unat c) * 256 + unat b) * 256 + unat a"
  have "digits_value (2 ^ 32) 16 0 (show_route_addr ip) = Some ?n"
  proof -
    have less: "unat a < 256" "unat b < 256" "unat c < 256" "unat d < 256" by (rule unat_u8_less)+
    have "digits_value (2 ^ 32) 16 0 (show_route_addr ip) =
        digits_value (2 ^ 32) 16 0 (upper_hex2 d @ upper_hex2 c @ upper_hex2 b @ upper_hex2 a @ [])"
      by (simp add: show_route_addr_def Ipv4)
    also have "\<dots> = digits_value (2 ^ 32) 16 (unat d) (upper_hex2 c @ upper_hex2 b @ upper_hex2 a @ [])"
      using digits_value_hex2 [of 0 "2 ^ 32" d] by simp
    also have "\<dots> = digits_value (2 ^ 32) 16 (unat d * 256 + unat c) (upper_hex2 b @ upper_hex2 a @ [])"
      by (rule digits_value_hex2) (use less in \<open>simp, linarith\<close>)
    also have "\<dots> = digits_value (2 ^ 32) 16 ((unat d * 256 + unat c) * 256 + unat b) (upper_hex2 a @ [])"
      by (rule digits_value_hex2) (use less in \<open>simp, linarith\<close>)
    also have "\<dots> = digits_value (2 ^ 32) 16 ?n []"
      by (rule digits_value_hex2) (use less in \<open>simp, linarith\<close>)
    finally show ?thesis by simp
  qed
  moreover obtain t where "show_route_addr ip = upper_digit (unat d div 16) # t"
    by (simp add: Ipv4 show_route_addr_def upper_hex2_def)
  moreover have "upper_digit (unat d div 16) \<noteq> 43" using upper_digit_range(3) nibbles(1) by blast
  ultimately have "from_str_radix (2 ^ 32) 16 (show_route_addr ip) = Some ?n"
    by (simp add: from_str_radix_def)
  then show ?thesis using le_bytes_of_octets [of d c b a] by (simp add: parse_hex_gateway_def Ipv4 Let_def)
qed


text \<open>Words of a line of the table.\<close>

lemma plain_no_space:
  assumes "32 < b" and "b < 128"
  shows "List.find (starts_with (b # bs)) white_space = None"
proof -
  have "\<forall>w \<in> set white_space. w \<noteq> [] \<and> \<not> (32 < hd w \<and> hd w < 128)" by (auto simp: white_space_def)
  then have "\<not> starts_with (b # bs) w" if "w \<in> set white_space" for w
    using that assms by (cases w) auto
  then show ?thesis by (simp add: find_None_iff)
qed

lemma split_words_plain: "plain s \<Longrightarrow> split_words word (s @ t) = split_words (word @ s) t"
proof (induction s arbitrary: word)
  case (Cons b s)
  then have "32 < b" "b < 128" "plain s" by (simp_all add: plain_def)
  then show ?case using Cons.IH [of "word @ [b]"] plain_no_space by simp
qed simp

lemma split_words_tab: "split_words word (9 # t) = (if word = [] then [] else [word]) @ split_words [] t"
  by (simp add: white_space_def)

lemma split_route:
  assumes "route_ok r"
  shows "split_whitespace (butlast (show_route r)) =
    rt_iface r # show_route_addr (rt_destination r) # show_route_addr (rt_gateway r) # split_whitespace (rt_rest r)"
proof -
  have w: "split_words [] (s @ 9 # t) = s # split_words [] t" if "plain s" "s \<noteq> []" for s t
    using split_words_plain [OF that(1), of "[]" "9 # t"] that(2) by (simp add: split_words_tab del: split_words.simps)
  have "butlast (show_route r) =
      rt_iface r @ 9 # show_route_addr (rt_destination r) @ 9 # show_route_addr (rt_gateway r) @ 9 # rt_rest r"
    by (simp add: show_route_def butlast_append)
  then show ?thesis using assms by (simp add: split_whitespace_def w show_route_addr_plain route_ok_def del: split_words.simps)
qed

lemma show_route_line:
  assumes "route_ok r"
  shows "str_lines (show_route r @ t) = butlast (show_route r) # str_lines t" "to_str (butlast (show_route r)) = Some (butlast (show_route r))"
proof -
  let ?l = "butlast (show_route r)"
  have l: "show_route r = ?l @ [10]" by (simp add: show_route_def butlast_append)
  have "\<forall>b \<in> set (show_route_addr ip). 32 < b \<and> b < 128" for ip using show_route_addr_plain(1) [of ip] by (simp add: plain_def)
  then have "\<forall>b \<in> set ?l. b < 128 \<and> b \<noteq> 10 \<and> b \<noteq> 13"
    using assms by (fastforce simp: show_route_def butlast_append route_ok_def plain_def)
  then have "10 \<notin> set ?l" "strip_cr ?l = ?l" "utf8_valid ?l" by (auto intro: strip_cr_id utf8_ascii)
  then show "str_lines (show_route r @ t) = ?l # str_lines t" "to_str ?l = Some ?l"
    using str_lines_nl [of ?l t] by (subst l, simp, simp add: to_str_def)
qed

lemma gateway_of_routes:
  assumes "\<forall>r \<in> set routes. route_ok r"
  shows "gateway_of_lines (map to_str (str_lines (concat (map show_route routes)))) =
    map_option rt_gateway (List.find (\<lambda>r. rt_destination r = Ipv4 0 0 0 0) routes)"
  using assms
proof (induction routes)
  case (Cons r routes)
  have "show_route_addr (Ipv4 0 0 0 0) = ascii ''00000000''"
    by (simp add: show_route_addr_def upper_hex2_def upper_digit_def ascii_def)
  then have "show_route_addr (rt_destination r) = ascii ''00000000'' \<longleftrightarrow> rt_destination r = Ipv4 0 0 0 0"
    using parse_hex_gateway_show by (metis option.inject)
  then show ?case using Cons show_route_line [of r] split_route [of r] by (simp add: parse_hex_gateway_show Let_def)
qed simp

text \<open>
  The default gateway is read from the routing table as the kernel writes it: below a header, each row
  gives its destination and gateway as hexadecimal numbers in memory order. The result is the gateway
  of the first row whose destination is 0.0.0.0, and nothing when there is no such row (C28).
\<close>

theorem default_gateway_of_table:
  assumes "fs_open F (ascii ''/proc/net/route'') = Some (header @ 10 # concat (map show_route routes), False)"
    and "10 \<notin> set header" and "\<forall>r \<in> set routes. route_ok r"
  shows "get_default_gateway F = map_option rt_gateway (List.find (\<lambda>r. rt_destination r = Ipv4 0 0 0 0) routes)"
  using assms gateway_of_routes by (simp add: get_default_gateway_def buf_lines_def str_lines_nl)

theorem default_gateway_of_table_witness:
  "\<exists>F. get_default_gateway F = Some (Ipv4 10 0 0 1)"
proof -
  let ?routes = "[\<lparr>rt_iface = ascii ''eth0'', rt_destination = Ipv4 10 0 0 0, rt_gateway = Ipv4 0 0 0 0, rt_rest = ascii ''0001''\<rparr>,
      \<lparr>rt_iface = ascii ''eth0'', rt_destination = Ipv4 0 0 0 0, rt_gateway = Ipv4 10 0 0 1, rt_rest = ascii ''0003''\<rparr>]"
  let ?F = "\<lparr>fs_read_link = \<lambda>_. None, fs_read_dir = \<lambda>_. None, fs_read = \<lambda>_. None,
      fs_open = \<lambda>_. Some (ascii ''Iface'' @ 10 # concat (map show_route ?routes), False)\<rparr>"
  have "get_default_gateway ?F = map_option rt_gateway (List.find (\<lambda>r. rt_destination r = Ipv4 0 0 0 0) ?routes)"
    by (rule default_gateway_of_table [where header = "ascii ''Iface''"]) (simp_all add: route_ok_def plain_def ascii_def)
  then have "get_default_gateway ?F = Some (Ipv4 10 0 0 1)" by simp
  then show ?thesis by (rule exI [where x = ?F])
qed

definition device_link :: "fs \<Rightarrow> bytes \<Rightarrow> bytes option" where
  "device_link F interface = fs_read_link F (ascii ''/sys/class/net/'' @ interface @ ascii ''/device'')"

definition pci_name :: "bytes \<Rightarrow> bool" where
  "pci_name addr \<longleftrightarrow> utf8_valid addr \<and> 47 \<notin> set addr \<and> 58 \<in> set addr \<and> 46 \<in> set addr"

lemma get_pci_addr_direct:
  assumes "device_link F interface = Some (p @ 47 # addr)" and "pci_name addr"
  shows "get_pci_addr F interface = Some addr"
proof -
  have "file_name (p @ 47 # addr) = Some addr" using assms(2) by (intro file_name_join) (auto simp: pci_name_def)
  with assms show ?thesis
    by (simp add: get_pci_addr_def get_pci_addr_from_interface_def to_str_def device_link_def pci_name_def)
qed


lemma unat_of_char: "unat (of_char c :: u8) = (of_char c :: nat)"
  using unat_of_nat [of "of_char c", where 'a = 8] by (simp add: of_nat_of_char)

lemma string_of_ascii: "string_of (ascii s) = s"
  by (induction s) (simp_all add: string_of_def ascii_def unat_of_char)

lemma ascii_eq_iff: "ascii s = ascii t \<longleftrightarrow> s = t"
  using string_of_ascii by metis

lemma path_join_ascii: "path_join (ascii s) (ascii t) = ascii (s @ CHR ''/'' # t)"
  by (simp add: path_join_def ascii_def)

text \<open>A machine with one bridge, one virtio device of vfio-pci and one interface on a PCI device.\<close>

definition sim_fs :: fs where
  "sim_fs = \<lparr>fs_read_link = (\<lambda>path.
       if path = ascii ''/sys/class/net/eth0/device'' then Some (ascii ''../../../0001:00:02.0'')
       else if path = ascii ''/sys/bus/pci/devices/0000:00:03.0/driver'' then Some (ascii ''../../bus/pci/drivers/vfio-pci'')
       else None),
     fs_read_dir = (\<lambda>path. if path = ascii ''/sys/bus/pci/devices'' then Some [ascii ''0000:00:00.0'', ascii ''0000:00:03.0''] else None),
     fs_read = (\<lambda>path.
       if path = ascii ''/sys/bus/pci/devices/0000:00:03.0/vendor'' then Some (ascii ''0x1af4'')
       else if path = ascii ''/sys/bus/pci/devices/0000:00:03.0/device'' then Some (ascii ''0x1000'')
       else Some (ascii ''0x8086'')),
     fs_open = \<lambda>_. None\<rparr>"


end
