(* ===== verification/Test_Context.thy ===== *)
theory Test_Context
  imports Eal Eth_Dev_Config Manual_Echo Discovery
begin

section \<open>The test harness and the echo test over DPDK\<close>

text \<open>
  A model of \<^verbatim>\<open>dpdk-net-test/src/dpdk_test.rs\<close> and of the echo test of
  \<^verbatim>\<open>dpdk-net-test/src/manual/tcp.rs\<close>. A context owns the guard of the EAL and the Ethernet device;
  dropping it stops and closes the device before the guard cleans up. The device of the test holds
  the only reference to the memory pool. smoltcp's stack polls the device, so that the \<open>'v\<close> of its
  record is here the device with the \<open>world\<close>. An error returned after the initialisation drops the
  guard; on a panic the process ends.
\<close>

subsection \<open>The context\<close>

record DpdkTestContext =
  tc_eth_dev :: EthDev

definition from_parts :: "EthDev \<Rightarrow> DpdkTestContext" where
  "from_parts eth_dev = \<lparr>tc_eth_dev = eth_dev\<rparr>"

text \<open>The body of \<open>drop\<close>, then the drop of the field \<open>_eal\<close>.\<close>

definition test_context_drop :: "'d dpdk \<Rightarrow> DpdkTestContext \<Rightarrow> 'd world \<Rightarrow> 'd world" where
  "test_context_drop D ctx w =
     (let w = snd (eth_stop D (tc_eth_dev ctx) w);
          w = snd (eth_close D (tc_eth_dev ctx) w)
      in eal_drop D w)"

text \<open>
  The fields of a device that are dropped, in the order of their declaration: the reference to the
  pool, which frees the pool when it is the last one, and the two batches.
\<close>

definition dpdk_device_drop :: "'d dpdk \<Rightarrow> bool \<Rightarrow> DpdkDevice \<Rightarrow> 'd world \<Rightarrow> 'd world" where
  "dpdk_device_drop D last_ref device w =
     (let w = (if last_ref then mempool_drop D (dev_mempool device) w else w);
          w = fold (mbuf_drop D) (rx_batch device) w
      in fold (mbuf_drop D) (tx_batch device) w)"

subsection \<open>The builder\<close>

record DpdkTestContextBuilder =
  tb_vdev :: "string option"
  tb_eth_dev_config :: EthDevConfig

definition test_builder_new :: DpdkTestContextBuilder where
  "test_builder_new = \<lparr>tb_vdev = None, tb_eth_dev_config = config_mempool_name (ascii ''test_mempool'') eth_dev_config_new\<rparr>"

definition test_builder_vdev :: "string \<Rightarrow> DpdkTestContextBuilder \<Rightarrow> DpdkTestContextBuilder" where
  "test_builder_vdev vdev b = b\<lparr>tb_vdev := Some vdev\<rparr>"

definition test_builder_mempool_name :: "bytes \<Rightarrow> DpdkTestContextBuilder \<Rightarrow> DpdkTestContextBuilder" where
  "test_builder_mempool_name nm b = b\<lparr>tb_eth_dev_config := config_mempool_name nm (tb_eth_dev_config b)\<rparr>"

definition test_builder_num_mbufs :: "u32 \<Rightarrow> DpdkTestContextBuilder \<Rightarrow> DpdkTestContextBuilder" where
  "test_builder_num_mbufs n b = b\<lparr>tb_eth_dev_config := config_num_mbufs n (tb_eth_dev_config b)\<rparr>"

definition test_builder_data_room_size :: "u16 \<Rightarrow> DpdkTestContextBuilder \<Rightarrow> DpdkTestContextBuilder" where
  "test_builder_data_room_size n b = b\<lparr>tb_eth_dev_config := config_data_room_size n (tb_eth_dev_config b)\<rparr>"

definition test_builder_nb_rx_queues :: "u16 \<Rightarrow> DpdkTestContextBuilder \<Rightarrow> DpdkTestContextBuilder" where
  "test_builder_nb_rx_queues n b = b\<lparr>tb_eth_dev_config := config_nb_rx_queues n (tb_eth_dev_config b)\<rparr>"

definition test_builder_nb_tx_queues :: "u16 \<Rightarrow> DpdkTestContextBuilder \<Rightarrow> DpdkTestContextBuilder" where
  "test_builder_nb_tx_queues n b = b\<lparr>tb_eth_dev_config := config_nb_tx_queues n (tb_eth_dev_config b)\<rparr>"

definition test_builder_nb_desc :: "u16 \<Rightarrow> DpdkTestContextBuilder \<Rightarrow> DpdkTestContextBuilder" where
  "test_builder_nb_desc n b = b\<lparr>tb_eth_dev_config := config_nb_desc n (tb_eth_dev_config b)\<rparr>"

definition test_builder_mtu :: "usize \<Rightarrow> DpdkTestContextBuilder \<Rightarrow> DpdkTestContextBuilder" where
  "test_builder_mtu n b = b\<lparr>tb_eth_dev_config := config_mtu n (tb_eth_dev_config b)\<rparr>"

definition test_builder_port_id :: "u16 \<Rightarrow> DpdkTestContextBuilder \<Rightarrow> DpdkTestContextBuilder" where
  "test_builder_port_id n b = b\<lparr>tb_eth_dev_config := config_port_id n (tb_eth_dev_config b)\<rparr>"

lemmas test_setter_defs [setter_defs] =
  test_builder_vdev_def test_builder_mempool_name_def test_builder_num_mbufs_def test_builder_data_room_size_def
  test_builder_nb_rx_queues_def test_builder_nb_tx_queues_def test_builder_nb_desc_def test_builder_mtu_def
  test_builder_port_id_def

definition test_build_device_only ::
  "'d dpdk \<Rightarrow> u16 \<Rightarrow> u16 \<Rightarrow> DpdkTestContextBuilder \<Rightarrow> 'd world \<Rightarrow> ((EthDev \<times> DpdkDevice, Errno) Result \<times> 'd world) outcome" where
  "test_build_device_only D room headroom b w =
     bind_outcome (config_build D room headroom (tb_eth_dev_config b) w) (\<lambda>(res, w).
       case res of
         Err e \<Rightarrow> Ret (Err e, w)
       | Ok (mempool, eth_dev) \<Rightarrow>
           bind_outcome (config_create_device (tb_eth_dev_config b) mempool 0) (\<lambda>device. Ret (Ok (eth_dev, device), w)))"

definition test_eal_builder :: "DpdkTestContextBuilder \<Rightarrow> EalBuilder" where
  "test_eal_builder b =
     (let eal_builder = eal_no_pci (eal_no_huge eal_builder_new) in
      case tb_vdev b of Some vdev \<Rightarrow> eal_vdev vdev eal_builder | None \<Rightarrow> eal_builder)"

definition test_build ::
  "'d dpdk \<Rightarrow> u16 \<Rightarrow> u16 \<Rightarrow> string list \<Rightarrow> DpdkTestContextBuilder \<Rightarrow> 'd world \<Rightarrow>
     ((DpdkTestContext \<times> DpdkDevice, Errno) Result \<times> 'd world) outcome" where
  "test_build D room headroom env_args b w =
     (case eal_builder_init D env_args (test_eal_builder b) w of
        (Panic msg, w) \<Rightarrow> Panic msg
      | (Ret (Err e), w) \<Rightarrow> Ret (Err e, w)
      | (Ret (Ok _), w) \<Rightarrow>
          bind_outcome (config_build D room headroom (tb_eth_dev_config b) w) (\<lambda>(res, w).
            case res of
              Err e \<Rightarrow> Ret (Err e, eal_drop D w)
            | Ok (mempool, eth_dev) \<Rightarrow>
                bind_outcome (config_create_device (tb_eth_dev_config b) mempool 0) (\<lambda>device.
                  Ret (Ok (from_parts eth_dev, device), w))))"

definition create_loopback_test_setup ::
  "'d dpdk \<Rightarrow> u16 \<Rightarrow> u16 \<Rightarrow> string list \<Rightarrow> bytes \<Rightarrow> 'd world \<Rightarrow> ((DpdkTestContext \<times> DpdkDevice, Errno) Result \<times> 'd world) outcome" where
  "create_loopback_test_setup D room headroom env_args nm w =
     test_build D room headroom env_args (test_builder_mempool_name nm (test_builder_vdev ''net_ring0'' test_builder_new)) w"

subsection \<open>The echo test\<close>

text \<open>What smoltcp's interface does when it is set up.\<close>

record ('i, 'v) iface_lib =
  il_new :: "MacAddress \<Rightarrow> 'v \<Rightarrow> 'i \<times> 'v"
  il_push_ip :: "Ipv4Addr \<Rightarrow> nat \<Rightarrow> 'i \<Rightarrow> 'i option"
  il_add_route :: "Ipv4Addr \<Rightarrow> 'i \<Rightarrow> 'i option"

definition ECHO_TEST_MESSAGE :: bytes where
  "ECHO_TEST_MESSAGE = ascii ''Hello, TCP server!''"

definition check_echo_result :: "EchoTestResult \<Rightarrow> unit outcome" where
  "check_echo_result result =
     (if \<not> tr_connected result then Panic ''Client failed to connect''
      else if \<not> tr_echo_verified result then Panic ''Echo verification failed''
      else if tr_bytes_sent result \<noteq> 18 then Panic ''Wrong number of bytes sent''
      else if tr_bytes_received result \<noteq> 18 then Panic ''Wrong number of bytes received''
      else Ret ())"

definition run_tcp_echo_with_device ::
  "('t, 'u, 's, 'i, 'v) smoltcp \<Rightarrow> ('t, 's, 'i, 'v) smoltcp_sync \<Rightarrow> ('i, 'v) iface_lib \<Rightarrow> nat list \<Rightarrow>
     Ipv4Addr \<Rightarrow> Ipv4Addr \<Rightarrow> MacAddress \<Rightarrow> 'v \<Rightarrow> ('s, 'i, 'v) echo_test outcome" where
  "run_tcp_echo_with_device S E L polls ip_addr gateway mac_addr device =
     (let (iface, device) = il_new L mac_addr device in
      case il_push_ip L ip_addr 24 iface of
        None \<Rightarrow> Panic ''called `Result::unwrap()` on an `Err` value''
      | Some iface \<Rightarrow>
     (case il_add_route L gateway iface of
        None \<Rightarrow> Panic ''called `Result::unwrap()` on an `Err` value''
      | Some iface \<Rightarrow>
          bind_outcome (echo_server_new S 8080 socket_config_default (set_new S)) (\<lambda>(server, sockets).
          bind_outcome (echo_client_new S ip_addr 8080 49152 socket_config_default (sockets, iface)) (\<lambda>(client, sockets, iface).
            let client = echo_client_send ECHO_TEST_MESSAGE client in
            bind_outcome (run_echo_test S E polls (server, client, device, iface, sockets)) (\<lambda>(result, x).
              bind_outcome (check_echo_result result) (\<lambda>_. Ret x))))))"

text \<open>The set-up of the hardware, with the EAL's guard and the device that was started.\<close>

definition hardware_setup ::
  "'d dpdk \<Rightarrow> u16 \<Rightarrow> u16 \<Rightarrow> string list \<Rightarrow> string \<Rightarrow> 'd world \<Rightarrow> (DpdkTestContext \<times> DpdkDevice \<times> 'd world) outcome" where
  "hardware_setup D room headroom env_args pci_addr w =
     (case eal_builder_init D env_args (eal_arg (''-a '' @ pci_addr) eal_builder_new) w of
        (Panic msg, w) \<Rightarrow> Panic msg
      | (Ret (Err e), w) \<Rightarrow> Panic ''Failed to initialize EAL''
      | (Ret (Ok _), w) \<Rightarrow>
          let mempool_config = set_data_room_size (of_nat DEFAULT_MBUF_DATA_ROOM_SIZE)
                (set_num_mbufs 8191 (mempool_config_default room headroom)) in
          (case mempool_create D (ascii ''tcp_pool'') mempool_config w of
             (Err e, w) \<Rightarrow> Panic ''Failed to create mempool''
           | (Ok mempool, w) \<Rightarrow>
               let builder = builder_tx_queue_conf (tx_queue_nb_desc 1024 tx_queue_conf_new)
                     (builder_rx_queue_conf (rx_queue_nb_desc 1024 rx_queue_conf_new)
                       (builder_nb_tx_queues 1 (builder_nb_rx_queues 1 (builder_eth_conf eth_conf_new (eth_builder_new 0)))))
               in bind_outcome (eth_dev_build D builder mempool w) (\<lambda>(res, w).
                    case res of
                      Err e \<Rightarrow> Panic ''Failed to configure eth device''
                    | Ok eth_dev \<Rightarrow>
                        bind_outcome (dpdk_device_new (rx_queue_new 0 0) (tx_queue_new 0 0) mempool DEFAULT_MTU
                            (DEFAULT_MBUF_DATA_ROOM_SIZE - DEFAULT_MBUF_HEADROOM)) (\<lambda>device.
                          Ret (from_parts eth_dev, device, w)))))"

definition virtual_setup ::
  "'d dpdk \<Rightarrow> u16 \<Rightarrow> u16 \<Rightarrow> string list \<Rightarrow> 'd world \<Rightarrow> (DpdkTestContext \<times> DpdkDevice \<times> 'd world) outcome" where
  "virtual_setup D room headroom env_args w =
     bind_outcome (test_build D room headroom env_args
         (test_builder_mempool_name (ascii ''tcp_pool'') (test_builder_vdev ''net_ring0'' test_builder_new)) w) (\<lambda>(res, w).
       case res of
         Err e \<Rightarrow> Panic ''Failed to create DPDK test context''
       | Ok (ctx, device) \<Rightarrow> Ret (ctx, device, w))"

text \<open>
  The test. Its local variables are dropped in the reverse order of their declaration: \<open>device\<close>, which
  holds the last reference to the pool, and then \<open>_ctx\<close>.
\<close>

definition tcp_echo_body ::
  "'d dpdk \<Rightarrow> ('t, 'u, 's, 'i, DpdkDevice \<times> 'd world) smoltcp \<Rightarrow> ('t, 's, 'i, DpdkDevice \<times> 'd world) smoltcp_sync \<Rightarrow>
     ('i, DpdkDevice \<times> 'd world) iface_lib \<Rightarrow> nat list \<Rightarrow> Ipv4Addr \<Rightarrow> Ipv4Addr \<Rightarrow> DpdkTestContext \<Rightarrow> DpdkDevice \<Rightarrow> 'd world \<Rightarrow>
     'd world outcome" where
  "tcp_echo_body D S E L polls ip_addr gateway ctx device w =
     (case eth_mac_addr D (tc_eth_dev ctx) w of
        (Err e, w) \<Rightarrow> Panic ''Failed to get MAC address''
      | (Ok mac, w) \<Rightarrow>
          bind_outcome (run_tcp_echo_with_device S E L polls ip_addr gateway mac (device, w)) (\<lambda>(server, client, (device, w), iface, sockets).
            Ret (test_context_drop D ctx (dpdk_device_drop D True device w))))"

definition tcp_echo_test ::
  "'d dpdk \<Rightarrow> u16 \<Rightarrow> u16 \<Rightarrow> string list \<Rightarrow> fs \<Rightarrow> ifaddr list option \<Rightarrow> ('t, 'u, 's, 'i, DpdkDevice \<times> 'd world) smoltcp \<Rightarrow>
     ('t, 's, 'i, DpdkDevice \<times> 'd world) smoltcp_sync \<Rightarrow> ('i, DpdkDevice \<times> 'd world) iface_lib \<Rightarrow> nat list \<Rightarrow> bool \<Rightarrow> 'd world \<Rightarrow>
     'd world outcome" where
  "tcp_echo_test D room headroom env_args F getifaddrs S E L polls use_hardware w =
     bind_outcome
       (if use_hardware then
          (case get_interface_ipv4 getifaddrs (ascii ''eth1'') of
             None \<Rightarrow> Panic ''Failed to get IP address for eth1''
           | Some addr \<Rightarrow> Ret addr)
        else Ret (Ipv4 192 168 1 100)) (\<lambda>ip_addr.
     let gateway = (case get_default_gateway F of Some g \<Rightarrow> g | None \<Rightarrow> Ipv4 10 0 0 1) in
     bind_outcome
       (if use_hardware then
          (case get_pci_addr F (ascii ''eth1'') of
             None \<Rightarrow> Panic ''Failed to get PCI address for eth1''
           | Some pci_addr \<Rightarrow> hardware_setup D room headroom env_args (string_of pci_addr) w)
        else virtual_setup D room headroom env_args w) (\<lambda>(ctx, device, w).
       tcp_echo_body D S E L polls ip_addr gateway ctx device w))"

subsection \<open>The packet generator\<close>

text \<open>
  \<open>udp_gen\<close> of \<^verbatim>\<open>dpdk-net-test/src/lib.rs\<close>: it sets up a null device with two queues and runs a generator
  thread on each. \<open>runs\<close> is what a thread reads of the flag before its turns; \<open>threads\<close> is the parallel run
  of the threads, which returns when both have been joined.
\<close>

definition gen_eal_builder :: EalBuilder where
  "gen_eal_builder = eal_file_prefix ''udp_gen'' (eal_vdev ''net_null0'' (eal_no_pci (eal_no_huge eal_builder_new)))"

definition gen_eth_builder :: "u16 \<Rightarrow> u16 \<Rightarrow> EthDevBuilder" where
  "gen_eth_builder port_id nb_qs =
     builder_tx_queue_conf (tx_queue_nb_desc 1024 tx_queue_conf_new)
       (builder_rx_queue_conf (rx_queue_nb_desc 1024 rx_queue_conf_new)
         (builder_nb_tx_queues nb_qs (builder_nb_rx_queues nb_qs (builder_eth_conf eth_conf_new (eth_builder_new port_id)))))"

definition gen_thread ::
  "'d dpdk \<Rightarrow> wire \<Rightarrow> bytes \<Rightarrow> u16 \<Rightarrow> bool list \<Rightarrow> u16 \<Rightarrow> 'd world \<Rightarrow> 'd world outcome" where
  "gen_thread D W mem_pool_name port_id runs i w =
     (case mempool_lookup_ref D mem_pool_name w of
        Err e \<Rightarrow> Panic ''Failed to lookup mempool''
      | Ok mp \<Rightarrow> gen_worker D W (tx_queue_new port_id i) mp runs w)"

definition udp_gen ::
  "'d dpdk \<Rightarrow> wire \<Rightarrow> u16 \<Rightarrow> u16 \<Rightarrow> string list \<Rightarrow> bool \<Rightarrow> ((u16 \<Rightarrow> 'd world \<Rightarrow> 'd world outcome) \<Rightarrow> u16 list \<Rightarrow> 'd world \<Rightarrow> 'd world outcome) \<Rightarrow>
     (u16 \<Rightarrow> bool list) \<Rightarrow> bytes \<Rightarrow> u16 \<Rightarrow> 'd world \<Rightarrow> 'd world outcome" where
  "udp_gen D W room headroom env_args handler_set threads runs mem_pool_name port_id w =
     (case eal_builder_init D env_args gen_eal_builder w of
        (Panic msg, w) \<Rightarrow> Panic msg
      | (Ret (Err e), w) \<Rightarrow> Panic ''Failed to initialize EAL''
      | (Ret (Ok _), w) \<Rightarrow>
          let nb_qs = 2;
              mempool_config = set_data_room_size (of_nat DEFAULT_MBUF_DATA_ROOM_SIZE)
                (set_num_mbufs 4096 (mempool_config_default room headroom)) in
          (case mempool_create D mem_pool_name mempool_config w of
             (Err e, w) \<Rightarrow> Panic ''Failed to create mempool''
           | (Ok mempool, w) \<Rightarrow>
               bind_outcome (eth_dev_build D (gen_eth_builder port_id nb_qs) mempool w) (\<lambda>(res, w).
                 case res of
                   Err e \<Rightarrow> Panic ''Failed to configure eth device''
                 | Ok eth_dev \<Rightarrow>
                     if \<not> handler_set then Panic ''called `Result::unwrap()` on an `Err` value''
                     else
                       bind_outcome (threads (\<lambda>i. gen_thread D W mem_pool_name port_id (runs i) i) (queue_ids nb_qs) w) (\<lambda>w.
                         let w = snd (eth_stop D eth_dev w);
                             w = snd (eth_close D eth_dev w)
                         in Ret (eal_drop D (mempool_drop D mempool w))))))"

subsection \<open>Properties\<close>

text \<open>What the initialisation of a device does not touch: the process-wide flag.\<close>

lemma exec_call_flag: "exec_call D b pool c w = Ret (r, w') \<Longrightarrow> EAL_INITIALIZED w' = EAL_INITIALIZED w"
  by (cases c)
    (auto simp: eth_configure_def eth_rx_queue_setup_def eth_tx_queue_setup_def eth_configure_rss_reta_def eth_update_rss_hash_def
      eth_promiscuous_enable_def eth_start_def checked_call_def checked_get_def eth_info_def Let_def
      split: prod.splits if_splits Result.splits)

lemma run_script_flag: "run_script D b pool cs w = Ret (r, w') \<Longrightarrow> EAL_INITIALIZED w' = EAL_INITIALIZED w"
proof (induction cs arbitrary: w)
  case (Cons c cs)
  from Cons.prems obtain r1 w1 where 1: "exec_call D b pool c w = Ret (r1, w1)"
      "(case r1 of Ok _ \<Rightarrow> run_script D b pool cs w1
        | Err e \<Rightarrow> if required c then Ret (Err e, w1) else run_script D b pool cs w1) = Ret (r, w')"
    by (auto simp: bind_outcome_Ret_conv)
  then have "EAL_INITIALIZED w' = EAL_INITIALIZED w1" by (auto split: Result.splits if_splits dest: Cons.IH)
  with exec_call_flag [OF 1(1)] show ?case by simp
qed simp

lemma eth_dev_build_flag:
  "eth_dev_build D b pool w = Ret (r, w') \<Longrightarrow> EAL_INITIALIZED w' = EAL_INITIALIZED w"
  unfolding eth_dev_build_run by (auto split: outcome.splits prod.splits Result.splits dest: run_script_flag)

lemma mempool_create_flag: "mempool_create D nm c w = (r, w') \<Longrightarrow> EAL_INITIALIZED w' = EAL_INITIALIZED w"
  by (auto simp: mempool_create_def Let_def split: option.splits prod.splits)

lemma config_build_flag:
  assumes "config_build D room headroom c w = Ret (r, w')"
  shows "EAL_INITIALIZED w' = EAL_INITIALIZED w"
proof -
  let ?config = "set_data_room_size (ec_data_room_size c) (set_num_mbufs (ec_num_mbufs c) (mempool_config_default room headroom))"
  obtain r1 w1 where 1: "mempool_create D (ec_mempool_name c) ?config w = (r1, w1)" by fastforce
  show ?thesis
  proof (cases r1)
    case (Ok pool)
    obtain r2 w2 where 2: "eth_dev_build D (config_builder c) pool w1 = Ret (r2, w2)" using eth_dev_build_Ret by fastforce
    with 1 Ok assms have "EAL_INITIALIZED w' = EAL_INITIALIZED w2"
      by (cases r2) (auto simp: config_build_def mempool_drop_def)
    with eth_dev_build_flag [OF 2] mempool_create_flag [OF 1] show ?thesis by simp
  next
    case (Err e)
    with 1 assms mempool_create_flag [OF 1] show ?thesis by (simp add: config_build_def)
  qed
qed

text \<open>What the client has counted.\<close>

definition client_counts :: "bytes \<Rightarrow> EchoClient \<Rightarrow> bool" where
  "client_counts data c \<longleftrightarrow> ec_data_to_send c = data \<and> ec_expected_len c = length data \<and>
     ec_bytes_received c = length (ec_received_data c)"

lemma client_steps_counts:
  assumes "client_counts data c"
  shows "client_counts data (fst (client_connecting S c t))" "client_counts data (fst (client_connected S E c t))"
    "client_counts data (fst (client_waiting E c t))" "client_counts data (c\<lparr>ec_state := st\<rparr>)"
  using assms by (auto simp: client_connecting_def client_connected_def client_waiting_def client_counts_def Let_def
      split: prod.splits Result.splits)

lemma echo_client_process_counts:
  assumes "echo_client_process S E c s = Ret (b, c', s')" and "client_counts data c"
  shows "client_counts data c'"
proof -
  from assms(1) obtain t where "get_tcp S (ec_handle c) s = Ret t" by (auto simp: echo_client_process_def bind_outcome_Ret_conv)
  moreover let ?step = "(case ec_state c of Connecting \<Rightarrow> client_connecting S c t | Connected \<Rightarrow> client_connected S E c t
      | WaitingForEcho \<Rightarrow> client_waiting E c t | _ \<Rightarrow> (c, t))"
  obtain c1 t1 where 1: "?step = (c1, t1)" by fastforce
  ultimately have "c' = (if \<not> tcp_is_open E t1 \<and> ec_state c1 \<noteq> Complete then c1\<lparr>ec_state := ClientClosed\<rparr> else c1)"
    using assms(1) by (simp add: echo_client_process_def Let_def)
  moreover have "client_counts data c1"
  proof -
    have "client_counts data (fst ?step)" using assms(2) by (simp add: client_steps_counts split: EchoClientState.split)
    with 1 show ?thesis by simp
  qed
  ultimately show ?thesis using client_steps_counts(4) by auto
qed

lemma echo_test_loop_counts:
  "echo_test_loop S E polls (srv, c, v, i, s) = Ret (srv', c', v', i', s') \<Longrightarrow> client_counts data c \<Longrightarrow> client_counts data c'"
proof (induction polls arbitrary: srv c v i s)
  case (Cons ts polls)
  from Cons.prems(1) obtain srv1 c1 v1 i1 s1 where r: "echo_round S E ts (srv, c, v, i, s) = Ret (srv1, c1, v1, i1, s1)"
      and x: "(if echo_client_is_complete c1 \<or> echo_client_is_closed c1 then Ret (srv1, c1, v1, i1, s1)
        else echo_test_loop S E polls (srv1, c1, v1, i1, s1)) = Ret (srv', c', v', i', s')"
    by (auto simp: bind_outcome_Ret_conv)
  from r Cons.prems(2) have "client_counts data c1"
    by (auto simp: echo_round_def bind_outcome_Ret_conv Let_def split: prod.splits dest: echo_client_process_counts)
  with x Cons.IH show ?case by (auto split: if_splits)
qed simp


lemma run_echo_test_received:
  assumes "run_echo_test S E polls (srv, c, v, i, s) = Ret (result, srv', c', v', i', s')"
    and "client_counts data c" and "check_echo_result result = Ret ()" and "length data = 18"
  shows "ec_received_data c' = data"
proof -
  from assms(1) obtain verified where x: "echo_test_loop S E polls (srv, c, v, i, s) = Ret (srv', c', v', i', s')"
      "verify_echo c' = Ret verified" "tr_echo_verified result = verified" "tr_bytes_received result = ec_bytes_received c'"
    by (auto simp: run_echo_test_def bind_outcome_Ret_conv Let_def)
  have "client_counts data c'" by (rule echo_test_loop_counts [OF x(1) assms(2)])
  moreover have "verified" "ec_bytes_received c' = 18" using assms(3) x(3,4) by (auto simp: check_echo_result_def split: if_splits)
  ultimately show ?thesis using x(2) assms(4) by (auto simp: verify_echo_def client_counts_def split: if_splits)
qed

lemma echo_client_new_counts:
  assumes "echo_client_new S ip port local_port config (s, i) = Ret (c, s', i')"
  shows "client_counts [] c"
proof -
  obtain h s1 where 1: "set_add S (TcpSock (tcp_new S (sc_rx_buffer_size config) (sc_tx_buffer_size config))) s = (h, s1)" by fastforce
  with assms obtain t where 2: "get_tcp S h s1 = Ret t" by (auto simp: echo_client_new_def bind_outcome_Ret_conv)
  obtain res t1 i1 where "tcp_connect S i (ip, port) local_port t = (res, t1, i1)" by (metis prod_cases3)
  with assms 1 2 show ?thesis by (cases res) (auto simp: echo_client_new_def client_counts_def)
qed

lemma run_tcp_echo_received:
  assumes "run_tcp_echo_with_device S E L polls ip gateway mac device = Ret (server, client, v, i, s)"
  shows "ec_received_data client = ECHO_TEST_MESSAGE"
proof -
  obtain iface1 device1 where "il_new L mac device = (iface1, device1)" by fastforce
  with assms obtain srv s1 c s2 i2 result where
      c: "echo_client_new S ip 8080 49152 socket_config_default (s1, the (il_add_route L gateway (the (il_push_ip L ip 24 iface1)))) = Ret (c, s2, i2)"
      and r: "run_echo_test S E polls (srv, echo_client_send ECHO_TEST_MESSAGE c, device1, i2, s2) = Ret (result, server, client, v, i, s)"
        "check_echo_result result = Ret ()"
    by (auto simp: run_tcp_echo_with_device_def bind_outcome_Ret_conv Let_def split: option.splits)
  from echo_client_new_counts [OF c] have "client_counts ECHO_TEST_MESSAGE (echo_client_send ECHO_TEST_MESSAGE c)"
    by (simp add: client_counts_def echo_client_send_def)
  then show ?thesis using run_echo_test_received [OF r(1) _ r(2)] by (simp add: ECHO_TEST_MESSAGE_def ascii_def)
qed

text \<open>The generator stops and closes its port before it frees the pool and cleans up.\<close>

lemma udp_gen_releases:
  assumes "udp_gen D W room headroom env_args handler_set threads runs nm port_id w = Ret w'"
  shows "\<exists>mempool w1. w' = eal_drop D (mempool_drop D mempool (snd (eth_close D (eth_dev_new port_id) (snd (eth_stop D (eth_dev_new port_id) w1)))))"
proof -
  obtain r w1 where 1: "eal_builder_init D env_args gen_eal_builder w = (r, w1)" by fastforce
  with assms have "r = Ret (Ok ())" by (cases r) (auto simp: udp_gen_def split: Result.splits)
  moreover let ?config = "set_data_room_size (of_nat DEFAULT_MBUF_DATA_ROOM_SIZE) (set_num_mbufs 4096 (mempool_config_default room headroom))"
  obtain r2 w2 where 2: "mempool_create D nm ?config w1 = (r2, w2)" by fastforce
  ultimately obtain mempool where "r2 = Ok mempool" using 1 assms by (cases r2) (auto simp: udp_gen_def)
  moreover obtain r3 w3 where 3: "eth_dev_build D (gen_eth_builder port_id 2) mempool w2 = Ret (r3, w3)" using eth_dev_build_Ret by fastforce
  ultimately obtain eth_dev where dev: "r3 = Ok eth_dev" using 1 2 assms \<open>r = Ret (Ok ())\<close> by (cases r3) (auto simp: udp_gen_def)
  then have "eth_dev = eth_dev_new port_id"
    using 3 eth_dev_build_dev by (fastforce simp: gen_eth_builder_def setter_defs eth_builder_new_def)
  with assms 1 2 3 dev \<open>r = Ret (Ok ())\<close> \<open>r2 = Ok mempool\<close> show ?thesis
    by (auto simp: udp_gen_def bind_outcome_Ret_conv Let_def split: if_splits)
qed

text \<open>
  A test that returns has had its message echoed: the client received the bytes it sent, and no
  more. And it is torn down in the order of the drops: the device frees the memory pool, and the buffers
  in its batches after it, before the context stops and closes the port and cleans up (C25).
\<close>

theorem tcp_echo_test_returns:
  assumes Ret: "tcp_echo_test D room headroom env_args F getifaddrs S E L polls use_hardware w = Ret w'"
  shows "\<exists>(ctx :: DpdkTestContext) ip gateway mac device0 w0 server client device w1 iface sockets.
       run_tcp_echo_with_device S E L polls ip gateway mac (device0, w0) = Ret (server, client, (device, w1), iface, sockets) \<and>
       ec_received_data client = ECHO_TEST_MESSAGE \<and>
       w' = eal_drop D (snd (eth_close D (tc_eth_dev ctx) (snd (eth_stop D (tc_eth_dev ctx)
              (fold (mbuf_drop D) (rx_batch device @ tx_batch device) (mempool_drop D (dev_mempool device) w1))))))"
proof -
  from Ret obtain ip gateway ctx device0 w0 where b: "tcp_echo_body D S E L polls ip gateway ctx device0 w0 = Ret w'"
    by (auto simp: tcp_echo_test_def bind_outcome_Ret_conv Let_def)
  obtain res w1 where m: "eth_mac_addr D (tc_eth_dev ctx) w0 = (res, w1)" by fastforce
  with b obtain mac where "res = Ok mac" by (cases res) (auto simp: tcp_echo_body_def)
  with b m obtain server client device w2 iface sockets where
      r: "run_tcp_echo_with_device S E L polls ip gateway mac (device0, w1) = Ret (server, client, (device, w2), iface, sockets)"
      and w': "w' = test_context_drop D ctx (dpdk_device_drop D True device w2)"
    by (auto simp: tcp_echo_body_def bind_outcome_Ret_conv)
  from w' have "w' = eal_drop D (snd (eth_close D (tc_eth_dev ctx) (snd (eth_stop D (tc_eth_dev ctx)
      (fold (mbuf_drop D) (rx_batch device @ tx_batch device) (mempool_drop D (dev_mempool device) w2))))))"
    by (simp add: test_context_drop_def dpdk_device_drop_def Let_def)
  with r run_tcp_echo_received [OF r] show ?thesis by (intro exI [of _ ctx] exI conjI)
qed

text \<open>
  The test can return: a stack that connects the two sockets and carries the bytes of each to the other
  completes it in four polls.
\<close>

definition loop_stack :: "(sim_tcp, nat, sim_set, unit, 'v) smoltcp" where
  "loop_stack =
     \<lparr>tcp_new = tcp_new sim_stack, tcp_connect = tcp_connect sim_stack, tcp_listen = tcp_listen sim_stack,
      tcp_state_of = tcp_state_of sim_stack, tcp_is_active = tcp_is_active sim_stack, tcp_send_slice = tcp_send_slice sim_stack,
      tcp_recv_slice = tcp_recv_slice sim_stack, tcp_register_recv_waker = tcp_register_recv_waker sim_stack,
      tcp_register_send_waker = tcp_register_send_waker sim_stack, tcp_close = tcp_close sim_stack, tcp_abort = tcp_abort sim_stack,
      tcp_send_queue = tcp_send_queue sim_stack, udp_new = udp_new sim_stack, udp_bind = udp_bind sim_stack,
      udp_is_open = udp_is_open sim_stack, udp_endpoint = udp_endpoint sim_stack, udp_send_slice = udp_send_slice sim_stack,
      udp_recv_slice = udp_recv_slice sim_stack, udp_register_recv_waker = udp_register_recv_waker sim_stack,
      udp_register_send_waker = udp_register_send_waker sim_stack, udp_close = udp_close sim_stack, set_new = set_new sim_stack,
      set_add = set_add sim_stack, set_get = set_get sim_stack, set_put = set_put sim_stack, set_remove = set_remove sim_stack,
      iface_poll_ingress_single = (\<lambda>ts v i s. (IngressNone, v, i, s)), iface_poll_egress = (\<lambda>ts v i s. (v, i, s))\<rparr>"

definition carry :: "sim_tcp \<Rightarrow> sim_tcp \<Rightarrow> sim_tcp" where
  "carry peer t = t\<lparr>st_state := Established, st_rx := st_rx t @ st_accepted peer, st_accepted := []\<rparr>"

definition loop_sync :: "(sim_tcp, sim_set, unit, 'v) smoltcp_sync" where
  "loop_sync =
     \<lparr>tcp_is_open = tcp_is_open sim_sync, tcp_can_recv = tcp_can_recv sim_sync, tcp_can_send = tcp_can_send sim_sync,
      tcp_recv_all = tcp_recv_all sim_sync,
      iface_poll = (\<lambda>ts v i s. (v, i,
        (case s of
           [(a, TcpSock t), (b, TcpSock u)] \<Rightarrow> [(a, TcpSock (carry u t)), (b, TcpSock (carry t u))]
         | _ \<Rightarrow> s)))\<rparr>"

definition loop_iface :: "(unit, 'v) iface_lib" where
  "loop_iface = \<lparr>il_new = (\<lambda>mac v. ((), v)), il_push_ip = (\<lambda>ip n i. Some i), il_add_route = (\<lambda>gateway i. Some i)\<rparr>"

lemma loop_run:
  "\<exists>srv c s. run_tcp_echo_with_device loop_stack loop_sync loop_iface [0, 1, 2, 3] ip gateway mac v = Ret (srv, c, v, (), s)"
  by (simp add: run_tcp_echo_with_device_def loop_iface_def loop_stack_def loop_sync_def sim_stack_def sim_sync_def
      echo_server_new_def echo_client_new_def socket_config_default_def sim_fresh_def get_tcp_def ECHO_TEST_MESSAGE_def ascii_def
      echo_client_send_def run_echo_test_def echo_round_def carry_def echo_server_process_def echo_client_process_def
      client_connecting_def client_connected_def client_waiting_def recv_some_def server_receive_def server_send_def
      echo_client_is_complete_def echo_client_is_closed_def verify_echo_def check_echo_result_def Let_def)

lemma sim_config_build:
  assumes "ec_nb_rx_queues c = 1" and "ec_nb_tx_queues c = 1" and "cstring_new (ec_mempool_name c) \<noteq> None"
  shows "\<exists>w'. config_build sim_dpdk room headroom c w = Ret (Ok (4096, eth_dev_new (ec_port_id c)), w')"
proof -
  have q: "queue_ids 1 = [0]" by (simp add: queue_ids_def)
  have ok: "checked_call sim_dpdk (sim_call nm) w = (Ok (), w\<lparr>rte := snd (sim_call nm (rte w))\<rparr>)" for nm w
    by (simp add: checked_call_def sim_call_def check_rte_success_def)
  have "\<exists>w'. eth_dev_build sim_dpdk (config_builder c) 4096 w = Ret (Ok (eth_dev_new (ec_port_id c)), w')"
    using assms(1,2)
    by (simp add: eth_dev_build_run eth_script_def config_builder_def setter_defs eth_builder_new_def q eth_configure_def
        eth_rx_queue_setup_def eth_tx_queue_setup_def eth_start_def ok case_prod_beta)
  moreover have "mempool_create sim_dpdk (ec_mempool_name c) config w = (Ok 4096, w)" for config
    using assms(3) by (auto simp: mempool_create_def sim_dpdk_def non_null_def)
  ultimately show ?thesis by (elim exE) (simp add: config_build_def)
qed

lemma loop_setup:
  "\<exists>ctx device w'. virtual_setup sim_dpdk 2048 128 [''test''] (sim_world [] [] 0) = Ret (ctx, device, w')"
proof -
  let ?b = "test_builder_mempool_name (ascii ''tcp_pool'') (test_builder_vdev ''net_ring0'' test_builder_new)"
  obtain argv where argv: "cstrings (build_args [''test''] (test_eal_builder ?b)) = Some argv"
    by (simp add: build_args_def test_eal_builder_def setter_defs test_builder_new_def eal_builder_new_def cstrings_def cstring_def)
  have c: "tb_eth_dev_config ?b = config_mempool_name (ascii ''tcp_pool'') eth_dev_config_new"
    by (simp add: setter_defs test_builder_new_def)
  then have "ec_nb_rx_queues (tb_eth_dev_config ?b) = 1" "ec_nb_tx_queues (tb_eth_dev_config ?b) = 1"
      "cstring_new (ec_mempool_name (tb_eth_dev_config ?b)) \<noteq> None"
    by (simp_all add: setter_defs eth_dev_config_new_def cstring_new_def ascii_def)
  note built = sim_config_build [OF this]
  have "\<exists>device. config_create_device (tb_eth_dev_config ?b) pool 0 = Ret device" for pool
    unfolding c by (simp add: config_create_device_def config_mbuf_capacity_def dpdk_device_new_def DEFAULT_MBUF_HEADROOM_def
        setter_defs MAX_PACKET_OVERHEAD_def eth_dev_config_new_def DEFAULT_MBUF_DATA_ROOM_SIZE_def DEFAULT_MTU_def)
  then obtain device where device: "config_create_device (tb_eth_dev_config ?b) 4096 0 = Ret device" by blast
  obtain w1 where "eal_builder_init sim_dpdk [''test''] (test_eal_builder ?b) (sim_world [] [] 0) = (Ret (Ok ()), w1)"
    by (simp add: eal_builder_init_def eal_init_def argv sim_world_def sim_call_def)
  moreover obtain w2 where "config_build sim_dpdk 2048 128 (tb_eth_dev_config ?b) w1 =
      Ret (Ok (4096, eth_dev_new (ec_port_id (tb_eth_dev_config ?b))), w2)" using built by blast
  ultimately show ?thesis using device by (simp add: virtual_setup_def test_build_def)
qed

theorem tcp_echo_test_returns_witness:
  "\<exists>w' (ctx :: DpdkTestContext) (client :: EchoClient) (w1 :: sim world) (device :: DpdkDevice).
     tcp_echo_test sim_dpdk 2048 128 [''test''] sim_fs None loop_stack loop_sync loop_iface [0, 1, 2, 3] False (sim_world [] [] 0) = Ret w' \<and>
     ec_received_data client = ECHO_TEST_MESSAGE \<and>
     w' = eal_drop sim_dpdk (snd (eth_close sim_dpdk (tc_eth_dev ctx) (snd (eth_stop sim_dpdk (tc_eth_dev ctx)
       (fold (mbuf_drop sim_dpdk) (rx_batch device @ tx_batch device) (mempool_drop sim_dpdk (dev_mempool device) w1))))))"
proof -
  obtain ctx device w0 where s: "virtual_setup sim_dpdk 2048 128 [''test''] (sim_world [] [] 0) = Ret (ctx, device, w0)"
    using loop_setup by blast
  have m: "eth_mac_addr sim_dpdk dev w0 = (Ok (Mac 2 0 0 0 0 1), w0)" for dev
    by (simp add: eth_mac_addr_def checked_get_def check_rte_success_def sim_dpdk_def)
  have "\<exists>w'. tcp_echo_body sim_dpdk loop_stack loop_sync loop_iface [0, 1, 2, 3] ip gateway ctx device w0 = Ret w'" for ip gateway
    using loop_run [of ip gateway "Mac 2 0 0 0 0 1" "(device, w0)"] m by (auto simp: tcp_echo_body_def)
  then obtain w' where "tcp_echo_test sim_dpdk 2048 128 [''test''] sim_fs None loop_stack loop_sync loop_iface [0, 1, 2, 3] False
      (sim_world [] [] 0) = Ret w'"
    using s by (auto simp: tcp_echo_test_def Let_def)
  from this tcp_echo_test_returns [OF this] show ?thesis by blast
qed

end
