(* ===== verification/Kimojio_Text.thy ===== *)
theory Kimojio_Text
  imports Http_Parser
begin

section \<open>Headers and responses of the kimojio server\<close>

text \<open>
  \<^verbatim>\<open>dpdk-net-test/src/app/kimojio_server.rs\<close> has its own copy of the code that inspects headers,
  converts a parsed head and serialises a response. It is modelled from that file, and the lemmas
  of \<open>kj_text\<close> compare it with the one of \<^verbatim>\<open>custom_http.rs\<close>: the relations of \<^verbatim>\<open>Http_Parser\<close>,
  which say what the bytes of a connection mean, then apply to both servers. \<open>ParseError::Io\<close>
  holds a formatted message here, which is \<open>Io (StreamOther msg)\<close>.
\<close>

named_theorems kj_text

subsection \<open>Limits and errors\<close>

definition KJ_MAX_HEADERS :: nat where
  "KJ_MAX_HEADERS = 100"

definition KJ_INITIAL_BUF_SIZE :: nat where
  "KJ_INITIAL_BUF_SIZE = 1024"

definition KJ_MAX_BUF_SIZE :: nat where
  "KJ_MAX_BUF_SIZE = 64 * 1024"

fun kj_show_parse_error :: "ParseError \<Rightarrow> string" where
  "kj_show_parse_error (Io e) = ''I/O error: '' @ show_stream_error e"
| "kj_show_parse_error (Parse e) = ''Parse error: '' @ e"
| "kj_show_parse_error InvalidMethod = ''Invalid HTTP method''"
| "kj_show_parse_error InvalidVersion = ''Invalid HTTP version''"
| "kj_show_parse_error InvalidHeader = ''Invalid header format''"
| "kj_show_parse_error InvalidUri = ''Invalid URI''"
| "kj_show_parse_error HeadersTooLarge = ''Headers too large''"
| "kj_show_parse_error InvalidContentLength = ''Invalid Content-Length''"
| "kj_show_parse_error ConnectionClosed = ''Connection closed''"

subsection \<open>Headers\<close>

definition kj_get_content_length :: "'m http_lib \<Rightarrow> 'm \<Rightarrow> usize option" where
  "kj_get_content_length H headers =
     (case h_map_get H headers (ascii ''content-length'') of
        None \<Rightarrow> None
      | Some v \<Rightarrow> (case h_to_str H v of None \<Rightarrow> None | Some s \<Rightarrow> parse_usize s))"

definition kj_is_chunked :: "'m http_lib \<Rightarrow> 'm \<Rightarrow> bool" where
  "kj_is_chunked H headers =
     (case Option.bind (h_map_get H headers (ascii ''transfer-encoding'')) (h_to_str H) of
        None \<Rightarrow> False
      | Some v \<Rightarrow> str_contains (to_ascii_lowercase v) (ascii ''chunked''))"

definition kj_should_keep_alive :: "'m http_lib \<Rightarrow> 'm \<Rightarrow> Version \<Rightarrow> bool" where
  "kj_should_keep_alive H headers version =
     (case h_map_get H headers (ascii ''connection'') of
        Some conn \<Rightarrow>
          (case h_to_str H conn of Some s \<Rightarrow> eq_ignore_ascii_case s (ascii ''keep-alive'') | None \<Rightarrow> False)
      | None \<Rightarrow> version = HTTP_11)"

fun kj_version_str :: "Version \<Rightarrow> string" where
  "kj_version_str HTTP_10 = ''HTTP/1.0''"
| "kj_version_str HTTP_11 = ''HTTP/1.1''"
| "kj_version_str HTTP_2 = ''HTTP/2.0''"
| "kj_version_str HTTP_3 = ''HTTP/3.0''"
| "kj_version_str v = ''HTTP/1.1''"

definition kj_reason_phrase :: "'m http_lib \<Rightarrow> nat \<Rightarrow> bytes" where
  "kj_reason_phrase H status = (case h_reason H status of Some r \<Rightarrow> r | None \<Rightarrow> ascii ''Unknown'')"

subsection \<open>The conversion of a head\<close>

fun kj_insert_headers :: "'m http_lib \<Rightarrow> (bytes \<times> bytes) list \<Rightarrow> 'm \<Rightarrow> ('m, ParseError) Result" where
  "kj_insert_headers H [] m = Ok m"
| "kj_insert_headers H ((nm, v) # hs) m =
     (case (h_header_name H nm, h_header_value H v) of
        (Some nm, Some v) \<Rightarrow> kj_insert_headers H hs (h_map_insert H nm v m)
      | _ \<Rightarrow> Err InvalidHeader)"

definition kj_convert_head ::
  "'m http_lib \<Rightarrow> parsed_head \<Rightarrow> (bytes \<times> bytes \<times> Version \<times> 'm \<times> usize, ParseError) Result" where
  "kj_convert_head H ph =
     (case h_method H (case ph_method ph of Some b \<Rightarrow> b | None \<Rightarrow> []) of
        None \<Rightarrow> Err InvalidMethod
      | Some mth \<Rightarrow>
          let uri = (case ph_path ph of Some b \<Rightarrow> b | None \<Rightarrow> ascii ''/'') in
          if ph_version ph \<noteq> Some 0 \<and> ph_version ph \<noteq> Some 1 then Err InvalidVersion
          else
            let version = (if ph_version ph = Some 0 then HTTP_10 else HTTP_11) in
            (case kj_insert_headers H (ph_headers ph) (h_map_new H) of
               Err e \<Rightarrow> Err e
             | Ok header_map \<Rightarrow> Ok (mth, uri, version, header_map, ph_len ph)))"

subsection \<open>Responses\<close>

definition kj_serialize_response :: "'m http_lib \<Rightarrow> 'm Response \<Rightarrow> bytes" where
  "kj_serialize_response H response =
     (let body = rs_body response;
          buf = ascii (kj_version_str (rs_version response)) @ ascii '' '' @ h_status_str H (rs_status response) @
            ascii '' '' @ kj_reason_phrase H (rs_status response) @ [13, 10];
          buf = foldl (\<lambda>buf (key, v). buf @ key @ ascii '': '' @ v @ [13, 10]) buf (h_map_iter H (rs_headers response));
          buf = (if h_map_get H (rs_headers response) (ascii ''content-length'') = None
                 then buf @ ascii ''Content-Length: '' @ show_radix 10 (length body) @ [13, 10] else buf)
      in buf @ [13, 10] @ body)"

definition kj_error_response :: "'m http_lib \<Rightarrow> ParseError \<Rightarrow> 'm Response" where
  "kj_error_response H e =
     \<lparr>rs_version = HTTP_11, rs_status = 400,
      rs_headers = h_map_insert H (ascii ''connection'') (ascii ''close'') (h_map_new H),
      rs_body = ascii (''Parse error: '' @ kj_show_parse_error e)\<rparr>"

definition kj_simple_echo_handler :: "'m http_lib \<Rightarrow> 'm Request \<Rightarrow> 'm Response" where
  "kj_simple_echo_handler H req =
     \<lparr>rs_version = HTTP_11, rs_status = 200,
      rs_headers = h_map_insert H (ascii ''content-type'') (ascii ''text/plain'') (h_map_new H),
      rs_body = rq_body req\<rparr>"

subsection \<open>The two copies agree\<close>

lemma kj_limits [kj_text, simp]:
  "KJ_MAX_HEADERS = MAX_HEADERS" "KJ_INITIAL_BUF_SIZE = INITIAL_BUF_SIZE" "KJ_MAX_BUF_SIZE = MAX_BUF_SIZE"
  by (simp_all add: KJ_MAX_HEADERS_def MAX_HEADERS_def KJ_INITIAL_BUF_SIZE_def INITIAL_BUF_SIZE_def
      KJ_MAX_BUF_SIZE_def MAX_BUF_SIZE_def)

lemma kj_show_parse_error_same [kj_text, simp]: "kj_show_parse_error e = show_parse_error e"
  by (cases e) simp_all

lemma kj_headers_same [kj_text, simp]:
  "kj_get_content_length H headers = get_content_length H headers"
  "kj_is_chunked H headers = is_chunked H headers"
  "kj_should_keep_alive H headers version = should_keep_alive H headers version"
  by (auto simp: kj_get_content_length_def get_content_length_def kj_is_chunked_def is_chunked_def
      kj_should_keep_alive_def should_keep_alive_def split: option.splits)

lemma kj_insert_headers_same: "kj_insert_headers H hs m = insert_headers H hs m"
  by (induction H hs m rule: insert_headers.induct) (auto split: option.splits)

lemma kj_convert_head_same [kj_text, simp]: "kj_convert_head H ph = convert_head H ph"
  by (auto simp: kj_convert_head_def convert_head_def kj_insert_headers_same Let_def split: option.splits)

lemma kj_status_line_same: "kj_version_str v = version_str v" "kj_reason_phrase H status = reason_phrase H status"
  by (cases v) (simp_all add: kj_reason_phrase_def reason_phrase_def)

lemma foldl_append: "foldl (\<lambda>buf x. buf @ f x) buf xs = buf @ concat (map f xs)"
  by (induction xs arbitrary: buf) simp_all

lemma kj_serialize_response_same [kj_text, simp]: "kj_serialize_response H response = serialize_response H response"
  using foldl_append [of "\<lambda>(key, v). key @ ascii '': '' @ v @ [13, 10]"]
  by (simp add: kj_serialize_response_def serialize_response_def kj_status_line_same Let_def case_prod_unfold)

lemma kj_responses_same [kj_text, simp]:
  "kj_error_response H e = error_response H e" "kj_simple_echo_handler H req = simple_echo_handler H req"
  by (simp_all add: kj_error_response_def error_response_def kj_simple_echo_handler_def simple_echo_handler_def)

end
