(* ===== verification/Kimojio_Http.thy ===== *)
theory Kimojio_Http
  imports Custom_Http Kimojio_Text
begin

section \<open>The HTTP/1.1 server over kimojio streams\<close>

text \<open>
  A model of \<^verbatim>\<open>dpdk-net-test/src/app/kimojio_server.rs\<close>. The parser does not own its reader: a
  step works on the pair of the parser and the reader it is given. The two halves of a kimojio
  stream are parameters, with the results of \<open>try_read\<close>, \<open>write\<close> and \<open>shutdown\<close>; their errors,
  formatted, become \<open>ParseError::Io\<close>. The functions that inspect headers, convert a head and
  serialise a response are in \<^verbatim>\<open>Kimojio_Text\<close>.
\<close>

record ('r, 'w) kimojio =
  k_try_read :: "usize \<Rightarrow> 'r \<Rightarrow> (bytes, string) Result \<times> 'r"
  k_write :: "bytes \<Rightarrow> 'w \<Rightarrow> (unit, string) Result \<times> 'w"
  k_shutdown :: "'w \<Rightarrow> (unit, string) Result \<times> 'w"

definition kimojio_ok :: "('r, 'w) kimojio \<Rightarrow> ('r \<Rightarrow> bytes) \<Rightarrow> ('w \<Rightarrow> bytes) \<Rightarrow> bool" where
  "kimojio_ok K incoming written \<longleftrightarrow>
     (\<forall>n r. \<exists>bs r'. k_try_read K n r = (Ok bs, r') \<and> incoming r = bs @ incoming r' \<and>
        length bs \<le> n \<and> (0 < n \<and> incoming r \<noteq> [] \<longrightarrow> bs \<noteq> [])) \<and>
     (\<forall>bs w. \<exists>w'. k_write K bs w = (Ok (), w') \<and> written w' = written w @ bs)"

text \<open>The traits \<open>KimojioAsyncRead\<close> and \<open>KimojioAsyncWrite\<close> of the two halves of a stream.\<close>

definition map_io_err :: "('a, string) Result \<times> 's \<Rightarrow> ('a, ParseError) Result \<times> 's" where
  "map_io_err res = (case res of (Ok a, s) \<Rightarrow> (Ok a, s) | (Err e, s) \<Rightarrow> (Err (Io (StreamOther e)), s))"

definition kj_try_read :: "('r, 'w) kimojio \<Rightarrow> usize \<Rightarrow> 'r \<Rightarrow> (bytes, ParseError) Result \<times> 'r" where
  "kj_try_read K n r = map_io_err (k_try_read K n r)"

definition kj_write_all :: "('r, 'w) kimojio \<Rightarrow> bytes \<Rightarrow> 'w \<Rightarrow> (unit, ParseError) Result \<times> 'w" where
  "kj_write_all K bs w = map_io_err (k_write K bs w)"

definition kj_shutdown :: "('r, 'w) kimojio \<Rightarrow> 'w \<Rightarrow> (unit, ParseError) Result \<times> 'w" where
  "kj_shutdown K w = map_io_err (k_shutdown K w)"

subsection \<open>The parser\<close>

record KimojioHttpParser =
  kp_buf :: bytes
  kp_len :: usize

type_synonym 'r kj_state = "KimojioHttpParser \<times> 'r"

definition kj_new :: KimojioHttpParser where
  "kj_new = \<lparr>kp_buf = replicate KJ_INITIAL_BUF_SIZE 0, kp_len = 0\<rparr>"

definition kj_reset :: "KimojioHttpParser \<Rightarrow> KimojioHttpParser" where
  "kj_reset p = p\<lparr>kp_len := 0\<rparr>"

definition kj_consume :: "usize \<Rightarrow> 'r kj_state \<Rightarrow> 'r kj_state" where
  "kj_consume from s =
     (case s of (p, r) \<Rightarrow>
       (p\<lparr>kp_buf := write_at 0 (drop from (take (kp_len p) (kp_buf p))) (kp_buf p), kp_len := kp_len p - from\<rparr>, r))"

definition kj_read_more :: "('r, 'w) kimojio \<Rightarrow> 'r kj_state \<Rightarrow> (usize, 'r kj_state) act" where
  "kj_read_more K s =
     (case s of (p, r) \<Rightarrow>
       if kp_len p = length (kp_buf p) \<and> length (kp_buf p) \<ge> KJ_MAX_BUF_SIZE then act_err HeadersTooLarge (p, r)
       else
         let p = (if kp_len p = length (kp_buf p)
                  then p\<lparr>kp_buf := kp_buf p @ replicate (length (kp_buf p)) 0\<rparr> else p)
         in (case kj_try_read K (length (kp_buf p) - kp_len p) r of
               (Err e, r) \<Rightarrow> act_err e (p, r)
             | (Ok bs, r) \<Rightarrow> act_ok (length bs)
                 (p\<lparr>kp_buf := write_at (kp_len p) bs (kp_buf p), kp_len := kp_len p + length bs\<rparr>, r)))"

partial_function (option) kj_parse_headers ::
  "'m http_lib \<Rightarrow> ('r, 'w) kimojio \<Rightarrow> 'r kj_state \<Rightarrow> ((bytes \<times> bytes \<times> Version \<times> 'm \<times> usize) option, 'r kj_state) act" where
  "kj_parse_headers H K s =
     (case h_parse H KJ_MAX_HEADERS (take (kp_len (fst s)) (kp_buf (fst s))) of
        Err e \<Rightarrow> act_err (Parse e) s
      | Ok (Some ph) \<Rightarrow> (case kj_convert_head H ph of Err e \<Rightarrow> act_err e s | Ok parsed \<Rightarrow> act_ok (Some parsed) s)
      | Ok None \<Rightarrow>
          (if kp_len (fst s) = 0 then
             act_bind (kj_read_more K s) (\<lambda>n s. if n = 0 then act_ok None s else kj_parse_headers H K s)
           else
             act_bind (kj_read_more K s) (\<lambda>n s. if n = 0 then act_err ConnectionClosed s else kj_parse_headers H K s)))"

text \<open>The loop that reads the remaining bytes of a body or a chunk, at most 8192 at a time.\<close>

partial_function (option) kj_fill ::
  "('r, 'w) kimojio \<Rightarrow> usize \<Rightarrow> bytes \<Rightarrow> 'r kj_state \<Rightarrow> (bytes, 'r kj_state) act" where
  "kj_fill K len data s =
     (if length data < len then
        let remaining = len - length data in
        (case kj_try_read K (min remaining 8192) (snd s) of
           (Err e, r) \<Rightarrow> act_err e (fst s, r)
         | (Ok bs, r) \<Rightarrow>
             if length bs = 0 then act_err ConnectionClosed (fst s, r)
             else kj_fill K len (data @ bs) (fst s, r))
      else act_ok data s)"

definition kj_read_exact :: "('r, 'w) kimojio \<Rightarrow> usize \<Rightarrow> 'r kj_state \<Rightarrow> (bytes, 'r kj_state) act" where
  "kj_read_exact K len s =
     (if len > isize_max then Some (Panic ''capacity overflow'')
      else
        let from_buf = min (kp_len (fst s)) len;
            data = take from_buf (kp_buf (fst s))
        in kj_fill K len data (kj_consume from_buf s))"

definition kj_read_fixed_body :: "('r, 'w) kimojio \<Rightarrow> usize \<Rightarrow> 'r kj_state \<Rightarrow> (bytes, 'r kj_state) act" where
  "kj_read_fixed_body K len s =
     (if len > isize_max then Some (Panic ''capacity overflow'')
      else
        let from_buf = min (kp_len (fst s)) len;
            body = take from_buf (kp_buf (fst s))
        in kj_fill K len body (kj_consume from_buf s))"

partial_function (option) kj_read_line_loop ::
  "('r, 'w) kimojio \<Rightarrow> bytes \<Rightarrow> 'r kj_state \<Rightarrow> (bytes, 'r kj_state) act" where
  "kj_read_line_loop K line s =
     (case position_nl (take (kp_len (fst s)) (kp_buf (fst s))) of
        Some pos \<Rightarrow>
          (let line = line @ take pos (kp_buf (fst s));
               line = (if line \<noteq> [] \<and> last line = 13 then butlast line else line)
           in act_ok line (kj_consume (pos + 1) s))
      | None \<Rightarrow>
          (let line = line @ take (kp_len (fst s)) (kp_buf (fst s)) in
           act_bind (kj_read_more K ((fst s)\<lparr>kp_len := 0\<rparr>, snd s)) (\<lambda>n s.
             if n = 0 then act_err ConnectionClosed s else kj_read_line_loop K line s)))"

definition kj_read_line :: "('r, 'w) kimojio \<Rightarrow> 'r kj_state \<Rightarrow> (bytes, 'r kj_state) act" where
  "kj_read_line K s = kj_read_line_loop K [] s"

definition kj_read_chunked_body :: "('r, 'w) kimojio \<Rightarrow> 'r kj_state \<Rightarrow> (bytes, 'r kj_state) act" where
  "kj_read_chunked_body K s = chunk_loop (kj_read_line K) (kj_read_exact K) [] s"

definition kj_read_body :: "'m http_lib \<Rightarrow> ('r, 'w) kimojio \<Rightarrow> 'm \<Rightarrow> 'r kj_state \<Rightarrow> (bytes, 'r kj_state) act" where
  "kj_read_body H K headers s =
     (if kj_is_chunked H headers then kj_read_chunked_body K s
      else (case kj_get_content_length H headers of
              Some content_length \<Rightarrow> kj_read_fixed_body K content_length s
            | None \<Rightarrow> act_ok [] s))"

definition kj_parse_request ::
  "'m http_lib \<Rightarrow> ('r, 'w) kimojio \<Rightarrow> 'r kj_state \<Rightarrow> ('m Request option, 'r kj_state) act" where
  "kj_parse_request H K s =
     act_bind (kj_parse_headers H K s) (\<lambda>parsed s.
       case parsed of
         None \<Rightarrow> act_ok None s
       | Some (mth, uri, version, headers, header_len) \<Rightarrow>
           act_bind (kj_read_body H K headers (kj_consume header_len s)) (\<lambda>body s.
             case h_uri H uri of
               None \<Rightarrow> act_err InvalidUri s
             | Some uri \<Rightarrow> act_ok (Some \<lparr>rq_method = mth, rq_uri = uri, rq_version = version,
                 rq_headers = headers, rq_body = body\<rparr>) s))"

subsection \<open>The connection\<close>

definition kj_write_response ::
  "'m http_lib \<Rightarrow> ('r, 'w) kimojio \<Rightarrow> 'm Response \<Rightarrow> 'w \<Rightarrow> (unit, ParseError) Result \<times> 'w" where
  "kj_write_response H K response w = kj_write_all K (kj_serialize_response H response) w"

text \<open>The state of a connection: the parser with its reader, and the writer.\<close>

definition with_writer :: "('a, 's) act \<Rightarrow> 'w \<Rightarrow> ('a, 's \<times> 'w) act" where
  "with_writer m w = map_option (map_outcome (\<lambda>(a, s). (a, (s, w)))) m"

partial_function (option) kj_connection_loop ::
  "'m http_lib \<Rightarrow> ('r, 'w) kimojio \<Rightarrow> ('m Request \<Rightarrow> 'm Response) \<Rightarrow> 'r kj_state \<times> 'w \<Rightarrow> (unit, 'r kj_state \<times> 'w) act" where
  "kj_connection_loop H K handler c =
     act_case (with_writer (kj_parse_request H K (fst c)) (snd c)) (\<lambda>res c.
       case res of
         Ok None \<Rightarrow> act_ok () c
       | Err ConnectionClosed \<Rightarrow> act_ok () c
       | Err e \<Rightarrow>
           (let (res, w) = kj_write_response H K (kj_error_response H e) (snd c)
            in act_err e (fst c, w))
       | Ok (Some request) \<Rightarrow>
           (let keep_alive = kj_should_keep_alive H (rq_headers request) (rq_version request);
                response = handler request;
                response = (if keep_alive then response
                  else response\<lparr>rs_headers := h_map_insert H (ascii ''connection'') (ascii ''close'') (rs_headers response)\<rparr>)
            in (case kj_write_response H K response (snd c) of
                  (Err e, w) \<Rightarrow> act_err e (fst c, w)
                | (Ok _, w) \<Rightarrow>
                    if keep_alive
                    then kj_connection_loop H K handler ((kj_reset (fst (fst c)), snd (fst c)), w)
                    else act_ok () (fst c, w))))"

definition handle_http_connection ::
  "'m http_lib \<Rightarrow> ('r, 'w) kimojio \<Rightarrow> ('m Request \<Rightarrow> 'm Response) \<Rightarrow> 'r \<Rightarrow> 'w \<Rightarrow> (unit, 'r kj_state \<times> 'w) act" where
  "handle_http_connection H K handler reader writer = kj_connection_loop H K handler ((kj_new, reader), writer)"

subsection \<open>The parser implements the interface\<close>

definition kj_buffered :: "'r kj_state \<Rightarrow> bytes" where
  "kj_buffered s = take (kp_len (fst s)) (kp_buf (fst s))"

text \<open>\<open>sent\<close> is what the stream held at an earlier time: reading never adds to it.\<close>

definition kj_ok ::
  "('r, 'w) kimojio \<Rightarrow> ('r \<Rightarrow> bytes) \<Rightarrow> ('w \<Rightarrow> bytes) \<Rightarrow> bytes \<Rightarrow> 'r kj_state \<Rightarrow> bool" where
  "kj_ok K incoming written sent s \<longleftrightarrow> kimojio_ok K incoming written \<and>
     buffer_ok (kp_buf (fst s)) (kp_len (fst s)) \<and> (\<exists>bs. sent = bs @ incoming (snd s))"

lemma kj_try_read_ok:
  assumes "kimojio_ok K incoming written"
  shows "\<exists>bs r'. kj_try_read K n r = (Ok bs, r') \<and> incoming r = bs @ incoming r' \<and> length bs \<le> n \<and>
    (0 < n \<and> incoming r \<noteq> [] \<longrightarrow> bs \<noteq> [])"
proof -
  obtain bs r' where r: "k_try_read K n r = (Ok bs, r')" "incoming r = bs @ incoming r' \<and> length bs \<le> n \<and>
      (0 < n \<and> incoming r \<noteq> [] \<longrightarrow> bs \<noteq> [])"
    using assms unfolding kimojio_ok_def by blast
  have "kj_try_read K n r = (Ok bs, r')" using r(1) by (simp add: kj_try_read_def map_io_err_def)
  with r(2) show ?thesis by blast
qed

lemma kj_write_response_ok:
  assumes "kimojio_ok K incoming written"
  shows "\<exists>w'. kj_write_response H K response w = (Ok (), w') \<and> written w' = written w @ serialize_response H response"
proof -
  obtain w' where "k_write K (serialize_response H response) w = (Ok (), w')" "written w' = written w @ serialize_response H response"
    using assms unfolding kimojio_ok_def by blast
  then show ?thesis by (simp add: kj_write_response_def kj_write_all_def map_io_err_def)
qed

lemma kj_length_buffered: "kj_ok K incoming written sent s \<Longrightarrow> length (kj_buffered s) = kp_len (fst s)"
  unfolding kj_ok_def kj_buffered_def by (blast intro: buffer_ok_bounds(4))

lemma kj_consume_laws:
  assumes "kj_ok K incoming written sent s" and "n \<le> length (kj_buffered s)"
  shows "kj_ok K incoming written sent (kj_consume n s)" "snd (kj_consume n s) = snd s"
    "kj_buffered (kj_consume n s) = drop n (kj_buffered s)"
  using assms buffer_ok_consume [of "kp_buf (fst s)" "kp_len (fst s)" n]
  by (auto simp: kj_ok_def kj_consume_def kj_buffered_def split: prod.split)

lemma kj_read_more_below:
  assumes "kj_ok K incoming written sent s" and "length (kj_buffered s) < MAX_BUF_SIZE"
  shows "\<exists>bs s'. kj_read_more K s = act_ok (length bs) s' \<and> kj_ok K incoming written sent s' \<and>
    kj_buffered s' = kj_buffered s @ bs \<and> incoming (snd s) = bs @ incoming (snd s') \<and> (incoming (snd s) \<noteq> [] \<longrightarrow> bs \<noteq> [])"
proof -
  obtain p r where s: "s = (p, r)" by fastforce
  have p: "kimojio_ok K incoming written" "buffer_ok (kp_buf p) (kp_len p)" "kp_len p < MAX_BUF_SIZE"
    using assms kj_length_buffered [OF assms(1)] by (auto simp: kj_ok_def s)
  let ?buf = "if kp_len p = length (kp_buf p) then kp_buf p @ replicate (length (kp_buf p)) 0 else kp_buf p"
  note g = buffer_ok_grow [OF p(2,3)]
  obtain bs r' where r: "kj_try_read K (length ?buf - kp_len p) r = (Ok bs, r')" "incoming r = bs @ incoming r'"
      "length bs \<le> length ?buf - kp_len p" "incoming r \<noteq> [] \<longrightarrow> bs \<noteq> []"
    using kj_try_read_ok [OF p(1), of "length ?buf - kp_len p" r] g(2) by auto
  let ?p = "p\<lparr>kp_buf := write_at (kp_len p) bs ?buf, kp_len := kp_len p + length bs\<rparr>"
  have "kj_read_more K s = act_ok (length bs) (?p, r')"
    using r(1) p(3) by (auto simp: kj_read_more_def s Let_def split: if_splits)
  moreover have "\<exists>us. sent = us @ incoming r'" using assms(1) r(2) by (auto simp: kj_ok_def s)
  ultimately show ?thesis
    using r p(1) buffer_ok_fill [OF g(1) r(3)] g(3) by (auto simp: kj_ok_def kj_buffered_def s)
qed

lemma kj_read_more_full:
  assumes "kj_ok K incoming written sent s" and "MAX_BUF_SIZE \<le> length (kj_buffered s)"
  shows "kj_read_more K s = act_err HeadersTooLarge s"
  using assms buffer_ok_bounds [of "kp_buf (fst s)" "kp_len (fst s)"]
  by (auto simp: kj_ok_def kj_read_more_def kj_buffered_def split: prod.split)

text \<open>The loop that fills: it ends with the bytes, or with the end of the stream.\<close>

lemma kj_fill_present:
  assumes "kimojio_ok K incoming written" and "incoming (snd s) = bs @ tail" and "length data + length bs = len"
  shows "\<exists>r. kj_fill K len data s = act_ok (data @ bs) (fst s, r) \<and> incoming r = tail"
  using assms(2,3)
proof (induction "length bs" arbitrary: bs data s rule: less_induct)
  case less
  show ?case
  proof (cases "bs = []")
    case True
    with less.prems show ?thesis by (subst kj_fill.simps) (auto intro!: exI [of _ "snd s"])
  next
    case False
    let ?n = "min (len - length data) 8192"
    obtain us r where r: "kj_try_read K ?n (snd s) = (Ok us, r)" "incoming (snd s) = us @ incoming r" "length us \<le> ?n" "us \<noteq> []"
      using kj_try_read_ok [OF assms(1), of ?n "snd s"] less.prems False by auto
    then have "length us \<le> length bs" using less.prems(2) by linarith
    then obtain vs where vs: "bs = us @ vs" "incoming r = vs @ tail"
      using less.prems(1) r(2) by (auto simp: append_eq_append_conv2)
    have "length data < len" using False less.prems(2) by (cases bs) auto
    then have "kj_fill K len data s = kj_fill K len (data @ us) (fst s, r)"
      using r by (subst kj_fill.simps) (simp add: Let_def)
    with less.hyps [of vs "(fst s, r)" "data @ us"] vs r(4) less.prems(2) show ?thesis by simp
  qed
qed

lemma kj_fill_missing:
  assumes "kimojio_ok K incoming written" and "length data + length (incoming (snd s)) < len"
  shows "\<exists>s'. kj_fill K len data s = act_err ConnectionClosed s'"
  using assms(2)
proof (induction "length (incoming (snd s))" arbitrary: data s rule: less_induct)
  case less
  let ?n = "min (len - length data) 8192"
  obtain us r where r: "kj_try_read K ?n (snd s) = (Ok us, r)" "incoming (snd s) = us @ incoming r"
    using kj_try_read_ok [OF assms(1), of ?n "snd s"] by blast
  have more: "length data < len" using less.prems by simp
  show ?case
  proof (cases "us = []")
    case True
    with r more show ?thesis by (subst kj_fill.simps) (simp add: Let_def)
  next
    case False
    then have "kj_fill K len data s = kj_fill K len (data @ us) (fst s, r)"
      using r more by (subst kj_fill.simps) (simp add: Let_def)
    with less.hyps [of "(fst s, r)" "data @ us"] False r(2) less.prems show ?thesis by simp
  qed
qed

lemma kj_read_exact_present:
  assumes "kj_ok K incoming written sent s" and "kj_buffered s @ incoming (snd s) = bs @ tail" and "length bs = n" and "n < 2 ^ 63"
  shows "\<exists>s'. kj_read_exact K n s = act_ok bs s' \<and> kj_ok K incoming written sent s' \<and> kj_buffered s' @ incoming (snd s') = tail"
proof -
  note len = kj_length_buffered [OF assms(1)]
  let ?m = "min (kp_len (fst s)) n"
  let ?s = "kj_consume ?m s"
  have data: "take ?m (kp_buf (fst s)) = take n (kj_buffered s)" by (simp add: kj_buffered_def min.commute)
  have c: "kj_ok K incoming written sent ?s" "snd ?s = snd s" "kj_buffered ?s = drop n (kj_buffered s)"
    using kj_consume_laws [OF assms(1), of ?m] len by (auto simp: min_def)
  have bs: "bs = take n (kj_buffered s) @ take (n - length (kj_buffered s)) (incoming (snd s))"
    "tail = drop n (kj_buffered s) @ drop (n - length (kj_buffered s)) (incoming (snd s))"
    using assms(2,3) by (metis append_eq_conv_conj take_append, metis append_eq_conv_conj drop_append)
  have "incoming (snd ?s) = take (n - length (kj_buffered s)) (incoming (snd s)) @ drop (n - length (kj_buffered s)) (incoming (snd s))"
    using c(2) by simp
  moreover have "length (take n (kj_buffered s)) + length (take (n - length (kj_buffered s)) (incoming (snd s))) = n"
    using arg_cong [OF bs(1), of length] assms(3) by simp
  moreover have "kimojio_ok K incoming written" using assms(1) by (simp add: kj_ok_def)
  ultimately obtain r where r: "kj_fill K n (take n (kj_buffered s)) ?s = act_ok bs (fst ?s, r)"
      "incoming r = drop (n - length (kj_buffered s)) (incoming (snd s))"
    using kj_fill_present bs(1) by metis
  then have "kj_read_exact K n s = act_ok bs (fst ?s, r)"
    using assms(4) by (simp add: kj_read_exact_def isize_max_def data Let_def)
  moreover have "\<exists>us. sent = us @ incoming r"
    using assms(1) r(2) by (auto simp: kj_ok_def) (metis append.assoc append_take_drop_id)
  then have "kj_ok K incoming written sent (fst ?s, r)" "kj_buffered (fst ?s, r) = drop n (kj_buffered s)"
    using c by (simp_all add: kj_ok_def kj_buffered_def)
  ultimately show ?thesis using r(2) bs(2) by auto
qed

lemma kj_read_exact_missing:
  assumes "kj_ok K incoming written sent s" and "length (kj_buffered s @ incoming (snd s)) < n" and "n < 2 ^ 63"
  shows "\<exists>s'. kj_read_exact K n s = act_err ConnectionClosed s'"
proof -
  note len = kj_length_buffered [OF assms(1)]
  let ?s = "kj_consume (kp_len (fst s)) s"
  have "snd ?s = snd s" using kj_consume_laws [OF assms(1), of "kp_len (fst s)"] len by simp
  then obtain s' where "kj_fill K n (kj_buffered s) ?s = act_err ConnectionClosed s'"
    using kj_fill_missing [of K incoming written "kj_buffered s" ?s n] assms(1,2) by (auto simp: kj_ok_def)
  then show ?thesis
    using assms(2,3) len by (auto simp: kj_read_exact_def isize_max_def kj_buffered_def min_def Let_def)
qed

lemma kj_consume_all: "((fst s)\<lparr>kp_len := 0\<rparr>, snd s) = kj_consume (kp_len (fst s)) s"
  by (simp add: kj_consume_def split: prod.split)

interpretation kj_parser: http_parser H "kj_ok K incoming written sent" kj_buffered "\<lambda>s. incoming (snd s)"
  "\<lambda>s. ()" "kj_read_more K" kj_consume "kj_parse_headers H K" "kj_read_line_loop K" "kj_read_exact K" "kj_parse_request H K"
  for H K incoming written sent
proof (unfold_locales, goal_cases)
  case (1 s)
  then show ?case using buffer_ok_bounds(1) by (fastforce simp: kj_ok_def kj_buffered_def)
next
  case (2 s)
  then show ?case using kj_read_more_below by metis
next
  case (3 s)
  then show ?case by (rule kj_read_more_full)
next
  case (4 s n)
  then show ?case using kj_consume_laws by metis
next
  case (5 s bs tail n)
  then show ?case using kj_read_exact_present by metis
next
  case (6 s n)
  then show ?case using kj_read_exact_missing by metis
next
  case (7 n s)
  then show ?case by (simp add: kj_read_exact_def isize_max_def)
next
  case (8 s)
  then have "kp_len (fst s) = 0 \<longleftrightarrow> kj_buffered s = []" using kj_length_buffered by fastforce
  then show ?case
    by (cases "kj_buffered s = []"; subst kj_parse_headers.simps)
      (simp_all add: kj_buffered_def [symmetric] cong: if_cong split: Result.split option.split)
next
  case (9 s line)
  then have "take pos (kj_buffered s) = take pos (kp_buf (fst s))" if "position_nl (kj_buffered s) = Some pos" for pos
    using that by (auto simp: kj_buffered_def position_nl_def Let_def split: if_splits)
  then show ?case
    unfolding kj_length_buffered [OF 9]
    by (subst kj_read_line_loop.simps)
      (simp add: kj_consume_all kj_buffered_def strip_cr_def Let_def cong: if_cong split: option.split)
next
  case (10 s)
  have line: "kj_read_line K = kj_read_line_loop K []" by (simp add: fun_eq_iff kj_read_line_def)
  have fixed: "kj_read_fixed_body K = kj_read_exact K" by (simp add: fun_eq_iff kj_read_fixed_body_def kj_read_exact_def)
  show ?case unfolding kj_parse_request_def kj_read_body_def kj_read_chunked_body_def line fixed kj_headers_same ..
qed

subsection \<open>Serving a connection\<close>

lemma kj_reset_laws:
  "kj_ok K incoming written sent (p, r) \<Longrightarrow> kj_ok K incoming written sent (kj_reset p, r)"
  "kj_buffered (kj_reset p, r) = []"
  by (auto simp: kj_ok_def kj_reset_def kj_buffered_def buffer_ok_def)

lemma kj_ok_new:
  "kimojio_ok K incoming written \<Longrightarrow> kj_ok K incoming written (incoming r) (kj_new, r)" "kj_buffered (kj_new, r) = []"
  by (simp_all add: kj_ok_def kj_new_def kj_buffered_def buffer_ok_new)

lemma with_writer_simps [simp]:
  "with_writer (Some (Ret (a, s))) w = Some (Ret (a, (s, w)))" "with_writer (Some (Panic msg)) w = Some (Panic msg)"
  by (simp_all add: with_writer_def)

lemma kj_loop_request:
  assumes "kj_parse_request H K s = Some (Ret (Ok (Some req), s1))" and "kimojio_ok K incoming written"
  shows "\<exists>w'. written w' = written w @ serialize_response H (final_response H handler req) \<and>
    kj_connection_loop H K handler (s, w) =
      (if should_keep_alive H (rq_headers req) (rq_version req)
       then kj_connection_loop H K handler ((kj_reset (fst s1), snd s1), w') else act_ok () (s1, w'))"
proof -
  obtain w' where w: "kj_write_response H K (final_response H handler req) w = (Ok (), w')"
      "written w' = written w @ serialize_response H (final_response H handler req)"
    using kj_write_response_ok [OF assms(2)] by blast
  then have "kj_connection_loop H K handler (s, w) =
      (if should_keep_alive H (rq_headers req) (rq_version req)
       then kj_connection_loop H K handler ((kj_reset (fst s1), snd s1), w') else act_ok () (s1, w'))"
    using assms(1) by (subst kj_connection_loop.simps) (auto simp: act_case_def final_response_def Let_def)
  with w(2) show ?thesis by blast
qed

lemma kj_connection_loop_returns:
  assumes "head_parser_ok H" and "kj_ok K incoming written sent s"
  shows "kj_connection_loop H K handler (s, w) \<noteq> None"
  using assms(2)
proof (induction "length (kj_buffered s @ incoming (snd s))" arbitrary: s w rule: less_induct)
  case less
  obtain x where x: "kj_parse_request H K s = Some x"
      "\<And>req s'. x = Ret (Ok (Some req), s') \<Longrightarrow> kj_ok K incoming written sent s' \<and>
         length (kj_buffered s' @ incoming (snd s')) < length (kj_buffered s @ incoming (snd s))"
    using kj_parser.parse_request_post [OF assms(1) less.prems] unfolding act_post_def by blast
  show ?case
  proof (cases "\<exists>req s'. x = Ret (Ok (Some req), s')")
    case False
    then show ?thesis
      by (subst kj_connection_loop.simps, cases x)
        (auto simp: x(1) act_case_def act_ok_def act_err_def Let_def
          split: prod.split Result.split option.split ParseError.split)
  next
    case True
    then obtain req p1 r1 where 1: "x = Ret (Ok (Some req), (p1, r1))" by auto
    have k: "kimojio_ok K incoming written" using less.prems by (simp add: kj_ok_def)
    have "length (incoming r1) < length (kj_buffered s @ incoming (snd s))" using x(2) [OF 1] by auto
    then have "length (kj_buffered (kj_reset p1, r1) @ incoming (snd (kj_reset p1, r1))) < length (kj_buffered s @ incoming (snd s))"
      by (simp add: kj_reset_laws(2))
    from less.hyps [OF this kj_reset_laws(1)] x(2) [OF 1]
    have "kj_connection_loop H K handler ((kj_reset p1, r1), w') \<noteq> None" for w' by simp
    then show ?thesis
      using kj_loop_request [OF x(1) [unfolded 1] k, of w handler] by (auto simp: act_ok_def)
  qed
qed

lemma kj_loop_other:
  assumes "kj_parse_request H K s = Some (Ret (res, s1))" and "kimojio_ok K incoming written"
  shows "res = Ok None \<or> res = Err ConnectionClosed \<Longrightarrow> kj_connection_loop H K handler (s, w) = act_ok () (s1, w)"
    and "res = Err e \<Longrightarrow> e \<noteq> ConnectionClosed \<Longrightarrow>
      \<exists>w'. kj_connection_loop H K handler (s, w) = act_err e (s1, w') \<and>
        written w' = written w @ serialize_response H (error_response H e)"
proof -
  show "res = Ok None \<or> res = Err ConnectionClosed \<Longrightarrow> kj_connection_loop H K handler (s, w) = act_ok () (s1, w)"
    using assms(1) by (subst kj_connection_loop.simps) (auto simp: act_case_def)
  obtain w' where w: "kj_write_response H K (error_response H e) w = (Ok (), w')"
      "written w' = written w @ serialize_response H (error_response H e)"
    using kj_write_response_ok [OF assms(2)] by blast
  show "\<exists>w'. kj_connection_loop H K handler (s, w) = act_err e (s1, w') \<and>
        written w' = written w @ serialize_response H (error_response H e)" if "res = Err e" "e \<noteq> ConnectionClosed"
    using assms(1) that w by (subst kj_connection_loop.simps) (auto simp: act_case_def split: ParseError.split)
qed

subsection \<open>The properties of the server\<close>

text \<open>The server returns on every finite input, whatever it contains.\<close>

theorem handle_http_connection_returns:
  assumes "kimojio_ok K incoming written" and "head_parser_ok H"
  shows "\<exists>x. handle_http_connection H K handler reader writer = Some x"
  using kj_connection_loop_returns [OF assms(2) kj_ok_new(1) [OF assms(1)]] by (simp add: handle_http_connection_def)

text \<open>
  After a request with keep-alive the server has written its response and goes on with what is
  still in the stream. What had been read beyond the request is lost.
\<close>

theorem kj_keep_alive_step:
  assumes "kj_ok K incoming written sent s" and "wire_request H (kj_buffered s @ incoming (snd s)) (Ok (Some req)) tail"
    and "should_keep_alive H (rq_headers req) (rq_version req)"
  shows "\<exists>lost p r w'. tail = lost @ incoming r \<and> kj_ok K incoming written sent (p, r) \<and> kj_buffered (p, r) = [] \<and>
    written w' = written w @ serialize_response H (handler req) \<and>
    kj_connection_loop H K handler (s, w) = kj_connection_loop H K handler ((p, r), w')"
proof -
  obtain p r where s: "kj_parse_request H K s = Some (Ret (Ok (Some req), (p, r)))" "kj_ok K incoming written sent (p, r)"
      "kj_buffered (p, r) @ incoming r = tail"
    using kj_parser.parse_request_wire [OF assms(2,1) refl] by auto
  have "kimojio_ok K incoming written" using assms(1) by (simp add: kj_ok_def)
  then obtain w' where "written w' = written w @ serialize_response H (handler req)"
      "kj_connection_loop H K handler (s, w) = kj_connection_loop H K handler ((kj_reset p, r), w')"
    using kj_loop_request [OF s(1), of incoming written w handler] assms(3) by (auto simp: final_response_def)
  with s(3) kj_reset_laws(1) [OF s(2)] kj_reset_laws(2) [of p r] show ?thesis by metis
qed



subsection \<open>Connections of the small instance\<close>

definition sim_kimojio :: "(bytes list, bytes) kimojio" where
  "sim_kimojio =
     \<lparr>k_try_read = (\<lambda>n segs.
        case dropWhile (\<lambda>s. s = []) segs of
          [] \<Rightarrow> (Ok [], [])
        | s # ss \<Rightarrow> (Ok (take n s), drop n s # ss)),
      k_write = (\<lambda>bs w. (Ok (), w @ bs)), k_shutdown = (\<lambda>w. (Ok (), w))\<rparr>"

lemma sim_kimojio_ok: "kimojio_ok sim_kimojio concat (\<lambda>w. w)"
proof -
  have "\<exists>bs r'. k_try_read sim_kimojio n segs = (Ok bs, r') \<and> concat segs = bs @ concat r' \<and> length bs \<le> n \<and>
      (0 < n \<and> concat segs \<noteq> [] \<longrightarrow> bs \<noteq> [])" for n segs
  proof -
    obtain bs r' where r: "s_read sim_stream n (segs, []) = (Ok bs, r')"
        "concat segs = bs @ concat (fst r')" "length bs \<le> n" "0 < n \<and> concat segs \<noteq> [] \<longrightarrow> bs \<noteq> []"
      using stream_okD(1) [OF sim_stream_ok, of n "(segs, [])"] unfolding fst_conv by blast
    from r(1) have "k_try_read sim_kimojio n segs = (Ok bs, fst r')"
      by (auto simp: sim_stream_def sim_kimojio_def simp del: dropWhile_eq_Nil_conv split: list.splits)
    with r show ?thesis by blast
  qed
  then show ?thesis unfolding kimojio_ok_def by (simp add: sim_kimojio_def)
qed

lemma sim_no_head: "no_head sim_http []"
  by (simp add: no_head_def sim_http_def sim_parse_def)

theorem handle_http_connection_returns_witness:
  "\<exists>x. handle_http_connection sim_http sim_kimojio (simple_echo_handler sim_http) [[80], [57]] [] = Some x"
  by (rule handle_http_connection_returns [OF sim_kimojio_ok sim_head_parser])

theorem kj_keep_alive_step_witness:
  "\<exists>lost p r w'. [88, 10] = lost @ concat r \<and> kj_buffered (p, r) = [] \<and>
    w' = serialize_response sim_http (simple_echo_handler sim_http (sim_post [50] [104, 105])) \<and>
    kj_connection_loop sim_http sim_kimojio (simple_echo_handler sim_http) ((kj_new, [[80, 50, 10, 104, 105], [88, 10]]), []) =
      kj_connection_loop sim_http sim_kimojio (simple_echo_handler sim_http) ((p, r), w')"
  using kj_keep_alive_step [OF kj_ok_new(1) [OF sim_kimojio_ok, of "[[80, 50, 10, 104, 105], [88, 10]]"],
      where H = sim_http and req = "sim_post [50] [104, 105]" and tail = "[88, 10]" and w = "[]"
        and handler = "simple_echo_handler sim_http"] sim_wire_post [of "[88, 10]"]
  by (auto simp: kj_ok_new sim_headers)



end
