(* ===== verification/Accept_Loops.thy ===== *)
theory Accept_Loops
  imports Eal Kimojio_Http
begin

section \<open>The accept loops of the tokio and kimojio servers\<close>

text \<open>
  A model of \<^verbatim>\<open>dpdk-net-test/src/app/tokio_server.rs\<close>, of the threads, the listening socket and the
  accept loop of \<^verbatim>\<open>kimojio_server.rs\<close>, and of the two functions of \<^verbatim>\<open>http_server.rs\<close> that wrap a handler.
  What the sockets do is a parameter over the state \<open>'k\<close>. A loop runs over the list of what it is told
  in each of its turns; at the end of the list it is still running. Serving a connection is handed to
  hyper, so that the result of a loop is the list of the connections it has spawned tasks for.
\<close>

subsection \<open>Handlers with a collected body\<close>

text \<open>The parts of a request are a request with its body still to come; \<open>collect\<close> reads the body.\<close>

definition with_collected_body ::
  "('b \<Rightarrow> 'w \<Rightarrow> (bytes, 'e) Result \<times> 'w) \<Rightarrow> ('m Request \<Rightarrow> 'w \<Rightarrow> ('m Response, 'e) Result \<times> 'w) \<Rightarrow>
     'm Request \<times> 'b \<Rightarrow> 'w \<Rightarrow> ('m Response, 'e) Result \<times> 'w" where
  "with_collected_body collect handler req w =
     (let (parts, body) = req in
      case collect body w of
        (Err e, w) \<Rightarrow> (Err e, w)
      | (Ok body_bytes, w) \<Rightarrow> handler (parts\<lparr>rq_body := body_bytes\<rparr>) w)"

definition echo_service :: "'m http_lib \<Rightarrow> 'm Request \<Rightarrow> 'w \<Rightarrow> ('m Response, 'e) Result \<times> 'w" where
  "echo_service H req w =
     (Ok \<lparr>rs_version = HTTP_11, rs_status = 200,
          rs_headers = h_map_insert H (ascii ''content-type'') (ascii ''text/plain'') (h_map_new H),
          rs_body = rq_body req\<rparr>, w)"

subsection \<open>tokio\<close>

datatype SocketAddr = SocketAddrV4 Ipv4Addr u16 | SocketAddrV6 "u16 list" u16

fun is_ipv4 :: "SocketAddr \<Rightarrow> bool" where
  "is_ipv4 (SocketAddrV4 ip port) = True"
| "is_ipv4 (SocketAddrV6 ip port) = False"

record ('l, 'k) socket_lib =
  so_new :: "bool \<Rightarrow> 'k \<Rightarrow> ('l, Errno) Result \<times> 'k"
  so_set_reuse_port :: "'l \<Rightarrow> bool \<Rightarrow> 'k \<Rightarrow> (unit, Errno) Result \<times> 'k"
  so_set_reuse_address :: "'l \<Rightarrow> bool \<Rightarrow> 'k \<Rightarrow> (unit, Errno) Result \<times> 'k"
  so_set_nonblocking :: "'l \<Rightarrow> bool \<Rightarrow> 'k \<Rightarrow> (unit, Errno) Result \<times> 'k"
  so_bind :: "'l \<Rightarrow> SocketAddr \<Rightarrow> 'k \<Rightarrow> (unit, Errno) Result \<times> 'k"
  so_listen :: "'l \<Rightarrow> int \<Rightarrow> 'k \<Rightarrow> (unit, Errno) Result \<times> 'k"
  so_from_std :: "'l \<Rightarrow> 'k \<Rightarrow> (unit, Errno) Result \<times> 'k"
  so_bind_listener :: "SocketAddr \<Rightarrow> 'k \<Rightarrow> ('l, Errno) Result \<times> 'k"

definition expect :: "string \<Rightarrow> ('a, 'e) Result \<times> 'k \<Rightarrow> ('a \<times> 'k) outcome" where
  "expect msg x = (case x of (Ok a, k) \<Rightarrow> Ret (a, k) | (Err e, k) \<Rightarrow> Panic msg)"

text \<open>What \<open>select!\<close> finds ready in a turn: the end of the server, or a result of \<open>accept\<close>.\<close>

datatype 'c selected = Stop | Accept "('c, Errno) Result"

fun tokio_loop :: "'c selected list \<Rightarrow> 'c list \<Rightarrow> bool \<times> 'c list" where
  "tokio_loop [] spawned = (False, spawned)"
| "tokio_loop (Stop # turns) spawned = (True, spawned)"
| "tokio_loop (Accept (Ok conn) # turns) spawned = tokio_loop turns (spawned @ [conn])"
| "tokio_loop (Accept (Err e) # turns) spawned = tokio_loop turns spawned"

definition run_tokio_multi_thread_server ::
  "('l, 'k) socket_lib \<Rightarrow> bool \<Rightarrow> SocketAddr \<Rightarrow> 'c selected list \<Rightarrow> 'k \<Rightarrow> ((bool \<times> 'c list) \<times> 'k) outcome" where
  "run_tokio_multi_thread_server L runtime addr turns k =
     (if \<not> runtime then Panic ''Failed to create tokio runtime''
      else bind_outcome (expect ''Failed to bind address'' (so_bind_listener L addr k)) (\<lambda>(listener, k).
        Ret (tokio_loop turns [], k)))"

definition open_listener :: "('l, 'k) socket_lib \<Rightarrow> SocketAddr \<Rightarrow> 'k \<Rightarrow> ('l \<times> 'k) outcome" where
  "open_listener L addr k =
     bind_outcome (expect ''Failed to create socket'' (so_new L (is_ipv4 addr) k)) (\<lambda>(socket, k).
     bind_outcome (expect ''Failed to set SO_REUSEPORT'' (so_set_reuse_port L socket True k)) (\<lambda>(_, k).
     bind_outcome (expect ''Failed to set SO_REUSEADDR'' (so_set_reuse_address L socket True k)) (\<lambda>(_, k).
     bind_outcome (expect ''Failed to set non-blocking'' (so_set_nonblocking L socket True k)) (\<lambda>(_, k).
     bind_outcome (expect ''Failed to bind address'' (so_bind L socket addr k)) (\<lambda>(_, k).
     bind_outcome (expect ''Failed to listen'' (so_listen L socket 1024 k)) (\<lambda>(_, k).
     bind_outcome (expect ''Failed to create TcpListener from socket'' (so_from_std L socket k)) (\<lambda>(_, k).
       Ret (socket, k))))))))"

definition run_accept_loop ::
  "('l, 'k) socket_lib \<Rightarrow> SocketAddr \<Rightarrow> 'c selected list \<Rightarrow> 'k \<Rightarrow> ((bool \<times> 'c list) \<times> 'k) outcome" where
  "run_accept_loop L addr turns k = bind_outcome (open_listener L addr k) (\<lambda>(listener, k). Ret (tokio_loop turns [], k))"

text \<open>Pinning a thread is best effort; \<open>runtime\<close> says whether the runtime could be created.\<close>

definition tokio_run_worker ::
  "(usize \<Rightarrow> ('set, Errno) Result) \<Rightarrow> (int \<Rightarrow> 'set \<Rightarrow> 'k \<Rightarrow> (unit, Errno) Result \<times> 'k) \<Rightarrow> ('l, 'k) socket_lib \<Rightarrow> bool \<Rightarrow>
     usize \<Rightarrow> SocketAddr \<Rightarrow> 'c selected list \<Rightarrow> 'k \<Rightarrow> ((bool \<times> 'c list) \<times> 'k) outcome" where
  "tokio_run_worker cpu_set_with sched_setaffinity L runtime core_id addr turns k =
     (let k = snd (set_cpu_affinity cpu_set_with sched_setaffinity core_id k) in
      if \<not> runtime then Panic ''Failed to create tokio runtime''
      else run_accept_loop L addr turns k)"

text \<open>
  The server with one thread for each core: \<open>turns\<close> and \<open>k\<close> are what each thread is told and the state it
  starts with. The main thread is core 0. A panic of another thread is not looked at when it is joined;
  a panic of the main thread ends the server.
\<close>

definition run_tokio_thread_per_core_server ::
  "(usize \<Rightarrow> ('set, Errno) Result) \<Rightarrow> (int \<Rightarrow> 'set \<Rightarrow> 'k \<Rightarrow> (unit, Errno) Result \<times> 'k) \<Rightarrow> ('l, 'k) socket_lib \<Rightarrow> (usize \<Rightarrow> bool) \<Rightarrow>
     bool \<Rightarrow> usize option \<Rightarrow> SocketAddr \<Rightarrow> (usize \<Rightarrow> 'c selected list) \<Rightarrow> (usize \<Rightarrow> 'k) \<Rightarrow>
     (usize \<times> ((bool \<times> 'c list) \<times> 'k) outcome) list outcome" where
  "run_tokio_thread_per_core_server cpu_set_with sched_setaffinity L runtime spawns parallelism addr turns k =
     (let num_cores = (case parallelism of Some p \<Rightarrow> p | None \<Rightarrow> 1);
          worker = (\<lambda>core_id. tokio_run_worker cpu_set_with sched_setaffinity L (runtime core_id) core_id addr (turns core_id) (k core_id))
      in if 1 < num_cores \<and> \<not> spawns then Panic ''Failed to spawn worker thread''
         else
           let handles = map (\<lambda>core_id. (core_id, worker core_id)) [1..<num_cores]
           in bind_outcome (worker 0) (\<lambda>main. Ret ((0, Ret main) # handles)))"

subsection \<open>kimojio\<close>

text \<open>The system calls of the runtime; \<open>ks_close\<close> is the drop of a value that owns a descriptor.\<close>

record ('fd, 'k) kimojio_sys =
  ks_socket :: "'k \<Rightarrow> ('fd, Errno) Result \<times> 'k"
  ks_set_tcp_nodelay :: "'fd \<Rightarrow> 'k \<Rightarrow> (unit, Errno) Result \<times> 'k"
  ks_set_reuse_address :: "'fd \<Rightarrow> 'k \<Rightarrow> (unit, Errno) Result \<times> 'k"
  ks_set_reuse_port :: "'fd \<Rightarrow> 'k \<Rightarrow> (unit, Errno) Result \<times> 'k"
  ks_bind :: "'fd \<Rightarrow> SocketAddr \<Rightarrow> 'k \<Rightarrow> (unit, Errno) Result \<times> 'k"
  ks_listen :: "'fd \<Rightarrow> int \<Rightarrow> 'k \<Rightarrow> (unit, Errno) Result \<times> 'k"
  ks_close :: "'fd \<Rightarrow> 'k \<Rightarrow> 'k"
  ks_SOMAXCONN :: int

definition EADDRINUSE :: Errno where
  "EADDRINUSE = OtherErrno 98"

text \<open>The options whose errors are ignored.\<close>

definition set_socket_options :: "('fd, 'k) kimojio_sys \<Rightarrow> 'fd \<Rightarrow> 'k \<Rightarrow> 'k" where
  "set_socket_options K fd k =
     (let k = snd (ks_set_tcp_nodelay K fd k);
          k = snd (ks_set_reuse_address K fd k)
      in snd (ks_set_reuse_port K fd k))"

text \<open>
  Until \<open>into_raw_fd\<close> gives it up, \<open>socket2_socket\<close> owns the descriptor beside \<open>server_fd\<close>: both are
  dropped when \<open>bind\<close> fails.
\<close>

definition create_server_socket_reuseport ::
  "('fd, 'k) kimojio_sys \<Rightarrow> u16 \<Rightarrow> 'k \<Rightarrow> ('fd, Errno) Result \<times> 'k" where
  "create_server_socket_reuseport K port k =
     (case ks_socket K k of
        (Err e, k) \<Rightarrow> (Err e, k)
      | (Ok server_fd, k) \<Rightarrow>
          let k = set_socket_options K server_fd k;
              addr = SocketAddrV6 [0, 0, 0, 0, 0, 0, 0, 0] port
          in (case ks_bind K server_fd addr k of
                (Err e, k) \<Rightarrow> (Err EADDRINUSE, ks_close K server_fd (ks_close K server_fd k))
              | (Ok _, k) \<Rightarrow>
                  (case ks_listen K server_fd (ks_SOMAXCONN K) k of
                     (Err e, k) \<Rightarrow> (Err e, ks_close K server_fd k)
                   | (Ok _, k) \<Rightarrow> (Ok server_fd, k))))"

text \<open>
  A turn of the loop is the value of the flag when it is looked at, and the result of \<open>accept\<close>, or
  \<open>None\<close> when no connection comes any more.
\<close>

fun kimojio_loop ::
  "(bool \<times> ('c, Errno) Result option) list \<Rightarrow> 'c list \<Rightarrow> (unit, Errno) Result option \<times> 'c list" where
  "kimojio_loop [] spawned = (None, spawned)"
| "kimojio_loop ((shutdown, accepted) # turns) spawned =
     (if shutdown then (Some (Ok ()), spawned)
      else
        (case accepted of
           None \<Rightarrow> (None, spawned)
         | Some (Err e) \<Rightarrow> (Some (Err e), spawned)
         | Some (Ok client_fd) \<Rightarrow> kimojio_loop turns (spawned @ [client_fd])))"

definition run_kimojio_accept_loop ::
  "('fd, 'k) kimojio_sys \<Rightarrow> u16 \<Rightarrow> (bool \<times> ('c, Errno) Result option) list \<Rightarrow> 'k \<Rightarrow> (unit, Errno) Result option \<times> 'c list \<times> 'k" where
  "run_kimojio_accept_loop K port turns k =
     (case create_server_socket_reuseport K port k of
        (Err e, k) \<Rightarrow> (Some (Err e), [], k)
      | (Ok server_fd, k) \<Rightarrow>
          let (result, spawned) = kimojio_loop turns []
          in (result, spawned, if result = None then k else ks_close K server_fd k))"

text \<open>The task of a connection; an error other than the end of the connection is printed.\<close>

definition kimojio_task ::
  "'m http_lib \<Rightarrow> ('r, 'w) kimojio \<Rightarrow> ('m Request \<Rightarrow> 'm Response) \<Rightarrow> ('r \<times> 'w, string) Result \<Rightarrow> string list outcome option" where
  "kimojio_task H K handler split_stream =
     (case split_stream of
        Err e \<Rightarrow> Some (Ret [''[kimojio] Failed to split stream: '' @ e])
      | Ok (reader, writer) \<Rightarrow>
          Option.bind (handle_http_connection H K handler reader writer) (\<lambda>x.
            case x of
              Panic msg \<Rightarrow> Some (Panic msg)
            | Ret (Ok _, s) \<Rightarrow> Some (Ret [])
            | Ret (Err e, s) \<Rightarrow>
                Some (Ret (if e = ConnectionClosed then [] else [''[kimojio] Connection error: '' @ kj_show_parse_error e]))))"

text \<open>
  Each thread runs its runtime under the index \<open>core_id as u8\<close>. Busy polling only changes how the runtime
  waits and is not an argument here.
\<close>

definition kimojio_thread_index :: "usize \<Rightarrow> u8" where
  "kimojio_thread_index core_id = of_nat core_id"

definition kimojio_worker ::
  "(usize \<Rightarrow> ('set, Errno) Result) \<Rightarrow> (int \<Rightarrow> 'set \<Rightarrow> 'k \<Rightarrow> (unit, Errno) Result \<times> 'k) \<Rightarrow> ('fd, 'k) kimojio_sys \<Rightarrow> u16 \<Rightarrow>
     (bool \<times> ('c, Errno) Result option) list \<Rightarrow> usize \<Rightarrow> 'k \<Rightarrow> (unit, Errno) Result option \<times> 'c list \<times> 'k" where
  "kimojio_worker cpu_set_with sched_setaffinity K port turns core_id k =
     run_kimojio_accept_loop K port turns (snd (set_cpu_affinity cpu_set_with sched_setaffinity core_id k))"

definition run_kimojio_thread_per_core_server ::
  "(usize \<Rightarrow> ('set, Errno) Result) \<Rightarrow> (int \<Rightarrow> 'set \<Rightarrow> 'k \<Rightarrow> (unit, Errno) Result \<times> 'k) \<Rightarrow> ('fd, 'k) kimojio_sys \<Rightarrow> bool \<Rightarrow> bool \<Rightarrow>
     usize option \<Rightarrow> u16 \<Rightarrow> (usize \<Rightarrow> (bool \<times> ('c, Errno) Result option) list) \<Rightarrow> (usize \<Rightarrow> 'k) \<Rightarrow>
     (u8 \<times> (unit, Errno) Result option \<times> 'c list \<times> 'k) list outcome" where
  "run_kimojio_thread_per_core_server cpu_set_with sched_setaffinity K spawns handler_set parallelism port turns k =
     (let num_cores = (case parallelism of Some p \<Rightarrow> p | None \<Rightarrow> 1) in
      if 0 < num_cores \<and> \<not> spawns then Panic ''Failed to spawn worker thread''
      else if \<not> handler_set then Panic ''Failed to set Ctrl+C handler''
      else Ret (map (\<lambda>core_id. (kimojio_thread_index core_id,
             kimojio_worker cpu_set_with sched_setaffinity K port (turns core_id) core_id (k core_id))) [0..<num_cores]))"

subsection \<open>Properties\<close>

text \<open>The connections accepted before the server is stopped.\<close>

definition accepted_before_stop :: "'c selected list \<Rightarrow> 'c list" where
  "accepted_before_stop turns =
     concat (map (\<lambda>t. case t of Accept (Ok conn) \<Rightarrow> [conn] | _ \<Rightarrow> []) (takeWhile (\<lambda>t. t \<noteq> Stop) turns))"

lemma tokio_loop_eq: "tokio_loop turns spawned = (Stop \<in> set turns, spawned @ accepted_before_stop turns)"
  by (induction turns spawned rule: tokio_loop.induct) (auto simp: accepted_before_stop_def)

lemma run_accept_loop_eq:
  "run_accept_loop L addr turns k =
     (case open_listener L addr k of
        Panic msg \<Rightarrow> Panic msg
      | Ret (listener, k') \<Rightarrow> Ret ((Stop \<in> set turns, accepted_before_stop turns), k'))"
  by (simp add: run_accept_loop_def tokio_loop_eq split: outcome.split)

text \<open>The state of a core's thread after it was pinned.\<close>

definition pinned ::
  "(usize \<Rightarrow> ('set, Errno) Result) \<Rightarrow> (int \<Rightarrow> 'set \<Rightarrow> 'k \<Rightarrow> (unit, Errno) Result \<times> 'k) \<Rightarrow> (usize \<Rightarrow> 'k) \<Rightarrow> usize \<Rightarrow> 'k" where
  "pinned cpu_set_with sched_setaffinity k core = snd (set_cpu_affinity cpu_set_with sched_setaffinity core (k core))"


text \<open>
  The loop of kimojio ends well exactly when a turn finds the flag set and every turn before it has
  accepted a connection: while it waits for a connection, it is not told to stop (C27).
\<close>

theorem kimojio_loop_ends:
  "kimojio_loop turns [] = (Some (Ok ()), spawned) \<longleftrightarrow>
     (\<exists>before accepted rest. turns = before @ (True, accepted) # rest \<and> before = map (\<lambda>fd. (False, Some (Ok fd))) spawned)"
proof -
  have "kimojio_loop turns spawned0 = (Some (Ok ()), spawned) \<longleftrightarrow>
      (\<exists>new accepted rest. spawned = spawned0 @ new \<and> turns = map (\<lambda>fd. (False, Some (Ok fd))) new @ (True, accepted) # rest)" for spawned0
  proof (induction turns spawned0 rule: kimojio_loop.induct)
    case (2 shutdown acc turns spawned0)
    consider (stop) "shutdown" | (wait) "\<not> shutdown" "acc = None" | (err) e where "\<not> shutdown" "acc = Some (Err e)"
      | (ok) fd where "\<not> shutdown" "acc = Some (Ok fd)" by (metis not_None_eq Result.exhaust)
    then show ?case
    proof cases
      case stop
      then show ?thesis by (auto simp: Cons_eq_append_conv Cons_eq_map_conv)
    next
      case (ok fd)
      then show ?thesis using "2.IH" [OF ok(1) ok(2) refl] by (auto simp: Cons_eq_append_conv Cons_eq_map_conv)
    qed (auto simp: Cons_eq_append_conv Cons_eq_map_conv)
  qed simp
  from this [of "[]"] show ?thesis by auto
qed

text \<open>What the drops of the listening socket do, for a view that counts how often a descriptor was closed.\<close>

definition closes_laws :: "('fd, 'k) kimojio_sys \<Rightarrow> ('fd \<Rightarrow> 'k \<Rightarrow> nat) \<Rightarrow> bool" where
  "closes_laws K closes \<longleftrightarrow>
     (\<forall>fd fd' k. closes fd (ks_close K fd' k) = closes fd k + (if fd' = fd then 1 else 0)) \<and>
     (\<forall>fd k. closes fd (snd (ks_socket K k)) = closes fd k) \<and>
     (\<forall>fd fd' k. closes fd (snd (ks_set_tcp_nodelay K fd' k)) = closes fd k \<and>
        closes fd (snd (ks_set_reuse_address K fd' k)) = closes fd k \<and> closes fd (snd (ks_set_reuse_port K fd' k)) = closes fd k) \<and>
     (\<forall>fd fd' addr n k. closes fd (snd (ks_bind K fd' addr k)) = closes fd k \<and> closes fd (snd (ks_listen K fd' n k)) = closes fd k)"

text \<open>
  A listening socket that was created is not closed; one that cannot listen is closed once; one that
  cannot be bound is closed twice, by its two owners, and the error is always EADDRINUSE.
\<close>

theorem kimojio_socket_closes:
  assumes "closes_laws K closes" and "ks_socket K k = (Ok fd, k1)"
  shows "case ks_bind K fd (SocketAddrV6 [0, 0, 0, 0, 0, 0, 0, 0] port) (set_socket_options K fd k1) of
      (Err _, _) \<Rightarrow> \<exists>k'. create_server_socket_reuseport K port k = (Err EADDRINUSE, k') \<and> closes fd k' = closes fd k + 2
    | (Ok _, k2) \<Rightarrow>
        (case ks_listen K fd (ks_SOMAXCONN K) k2 of
           (Err e, _) \<Rightarrow> \<exists>k'. create_server_socket_reuseport K port k = (Err e, k') \<and> closes fd k' = closes fd k + 1
         | (Ok _, _) \<Rightarrow> \<exists>k'. create_server_socket_reuseport K port k = (Ok fd, k') \<and> closes fd k' = closes fd k)"
proof -
  obtain rb k2 where b: "ks_bind K fd (SocketAddrV6 [0, 0, 0, 0, 0, 0, 0, 0] port) (set_socket_options K fd k1) = (rb, k2)" by fastforce
  obtain rl k3 where l: "ks_listen K fd (ks_SOMAXCONN K) k2 = (rl, k3)" by fastforce
  have c: "closes fd k2 = closes fd k" "closes fd k3 = closes fd k"
    using assms b l unfolding closes_laws_def set_socket_options_def Let_def by (metis snd_conv)+
  show ?thesis
    using assms b l c
    by (cases rb; cases rl) (auto simp: create_server_socket_reuseport_def closes_laws_def Let_def)
qed

text \<open>The runtimes of kimojio have different thread indices exactly up to 256 cores.\<close>

lemma kimojio_thread_indices_distinct: "distinct (map kimojio_thread_index [0..<n]) \<longleftrightarrow> n \<le> 256"
proof
  assume d: "distinct (map kimojio_thread_index [0..<n])"
  show "n \<le> 256"
  proof (rule ccontr)
    assume "\<not> n \<le> 256"
    then have "map kimojio_thread_index [0..<n] ! 0 = map kimojio_thread_index [0..<n] ! 256" "0 < n" "256 < n"
      by (simp_all add: kimojio_thread_index_def)
    with d show False by (metis length_map length_upt diff_zero nth_eq_iff_index_eq zero_neq_numeral)
  qed
next
  assume "n \<le> 256"
  then show "distinct (map kimojio_thread_index [0..<n])"
    by (auto simp: distinct_map inj_on_def kimojio_thread_index_def word_unat_eq_iff unat_of_nat)
qed

subsection \<open>Witnesses\<close>

text \<open>Sockets over a list of closed descriptors: port 0 cannot be bound.\<close>

definition sim_kimojio_sys :: "(nat, nat list) kimojio_sys" where
  "sim_kimojio_sys =
     \<lparr>ks_socket = (\<lambda>k. (Ok 3, k)), ks_set_tcp_nodelay = (\<lambda>fd k. (Ok (), k)), ks_set_reuse_address = (\<lambda>fd k. (Ok (), k)),
      ks_set_reuse_port = (\<lambda>fd k. (Ok (), k)),
      ks_bind = (\<lambda>fd addr k. (case addr of SocketAddrV6 ip port \<Rightarrow> if port = 0 then Err EINVAL else Ok () | _ \<Rightarrow> Ok (), k)),
      ks_listen = (\<lambda>fd n k. (Ok (), k)), ks_close = (\<lambda>fd k. fd # k), ks_SOMAXCONN = 4096\<rparr>"

theorem kimojio_socket_closes_witness:
  "\<exists>k'. create_server_socket_reuseport sim_kimojio_sys 0 [] = (Err EADDRINUSE, k') \<and> count_list k' 3 = 2"
proof -
  have "closes_laws sim_kimojio_sys (\<lambda>fd k. count_list k fd)" by (simp add: closes_laws_def sim_kimojio_sys_def)
  moreover have "ks_socket sim_kimojio_sys [] = (Ok 3, [])" by (simp add: sim_kimojio_sys_def)
  ultimately show ?thesis using kimojio_socket_closes [of sim_kimojio_sys "\<lambda>fd k. count_list k fd" "[]" 3 "[]" 0]
    by (simp add: sim_kimojio_sys_def numeral_2_eq_2)
qed

text \<open>Two cores, where the second one cannot listen.\<close>

definition sim_sockets :: "(unit, nat) socket_lib" where
  "sim_sockets =
     \<lparr>so_new = (\<lambda>v4 k. (Ok (), k)), so_set_reuse_port = (\<lambda>s b k. (Ok (), k)), so_set_reuse_address = (\<lambda>s b k. (Ok (), k)),
      so_set_nonblocking = (\<lambda>s b k. (Ok (), k)), so_bind = (\<lambda>s addr k. (Ok (), k)),
      so_listen = (\<lambda>s n k. (if k = 0 then Ok () else Err EINVAL, k)), so_from_std = (\<lambda>s k. (Ok (), k)),
      so_bind_listener = (\<lambda>addr k. (Ok (), k))\<rparr>"


end
