(* ===== verification/Bench.thy ===== *)
theory Bench
  imports Server_Runner Test_Context Accept_Loops
begin

section \<open>The benchmark programs\<close>

text \<open>
  A model of the benchmark server \<^verbatim>\<open>tests/dpdk-bench-server/src/main.rs\<close> and of the parts of the benchmark
  client that \<open>Raw_Client\<close> leaves: the arguments of \<^verbatim>\<open>main.rs\<close> and \<^verbatim>\<open>hyper_client.rs\<close>. The counter of the
  requests is the state of the handlers. What hyper returns for a request is part of a turn.
  Arithmetic panics on overflow, as in a build with overflow checks. The locale \<open>counting_client\<close> is what
  the two clients promise their statistics.
\<close>

subsection \<open>The pages of the server\<close>

definition page_lines :: "string list \<Rightarrow> bytes" where
  "page_lines ls = concat (map (\<lambda>l. ascii l @ [10]) ls)"

definition counter_page :: "u64 \<Rightarrow> bytes" where
  \<open>counter_page requests =
     page_lines [
      ''<!DOCTYPE html>'',
      ''<html>'',
      ''<head>'',
      ''    <title>HTTP Benchmark Server</title>'',
      ''    <style>'',
      ''        body {'',
      ''            font-family: -apple-system, BlinkMacSystemFont, 'Segoe UI', Roboto, sans-serif;'',
      ''            display: flex;'',
      ''            justify-content: center;'',
      ''            align-items: center;'',
      ''            height: 100vh;'',
      ''            margin: 0;'',
      ''            background: linear-gradient(135deg, #667eea 0%, #764ba2 100%);'',
      ''            color: white;'',
      ''        }'',
      ''        .container {'',
      ''            text-align: center;'',
      ''            padding: 2rem;'',
      ''            background: rgba(255, 255, 255, 0.1);'',
      ''            border-radius: 20px;'',
      ''            backdrop-filter: blur(10px);'',
      ''        }'',
      ''        h1 { font-size: 3rem; margin-bottom: 0.5rem; }'',
      ''        .count { font-size: 6rem; font-weight: bold; }'',
      ''        .label { font-size: 1.5rem; opacity: 0.8; }'',
      ''    </style>'',
      ''</head>'',
      ''<body>'',
      ''    <div class="container">''] @
     ascii ''        <h1>'' @ [0xF0, 0x9F, 0x9A, 0x80] @ ascii '' HTTP Benchmark Server</h1>'' @ [10] @
     ascii ''        <div class="count">'' @ show_radix 10 (unat requests) @ ascii ''</div>'' @ [10] @
     page_lines [''        <div class="label">requests received</div>'', ''    </div>'', ''</body>''] @ ascii ''</html>''\<close>

text \<open>The counter is shared by all connections; the addition wraps.\<close>

definition generate_counter_html :: "u64 \<Rightarrow> bytes \<times> u64" where
  "generate_counter_html request_count = (counter_page request_count, request_count + 1)"

definition counter_handler_kimojio :: "'m http_lib \<Rightarrow> 'm Request \<Rightarrow> u64 \<Rightarrow> 'm Response \<times> u64" where
  "counter_handler_kimojio H req request_count =
     (let (html, request_count) = generate_counter_html request_count
      in (\<lparr>rs_version = HTTP_11, rs_status = 200,
           rs_headers = h_map_insert H (ascii ''content-type'') (ascii ''text/html; charset=utf-8'') (h_map_new H),
           rs_body = html\<rparr>, request_count))"

definition counter_handler :: "'m http_lib \<Rightarrow> 'm Request \<Rightarrow> u64 \<Rightarrow> ('m Response, 'e) Result \<times> u64" where
  "counter_handler H req request_count =
     (let (html, request_count) = generate_counter_html request_count
      in (Ok \<lparr>rs_version = HTTP_11, rs_status = 200,
              rs_headers = h_map_insert H (ascii ''content-type'') (ascii ''text/html; charset=utf-8'') (h_map_new H),
              rs_body = html\<rparr>, request_count))"

subsection \<open>The server over DPDK\<close>

text \<open>\<open>Ipv4Addr::from_str\<close>: four numbers of at most three digits, without leading zeros.\<close>

definition parse_octet :: "bytes \<Rightarrow> u8 option" where
  "parse_octet part =
     (if part = [] \<or> 3 < length part \<or> (1 < length part \<and> hd part = 48) then None
      else map_option of_nat (digits_value 256 10 0 part))"

definition ipv4_from_str :: "bytes \<Rightarrow> Ipv4Addr option" where
  "ipv4_from_str s =
     (case map parse_octet (str_split 46 s) of
        [Some a, Some b, Some c, Some d] \<Rightarrow> Some (Ipv4 a b c d)
      | _ \<Rightarrow> None)"

datatype ServerMode = Dpdk | Tokio | TokioLocal | Kimojio | KimojioPoll

record ServerArgs =
  sa_mode :: ServerMode
  sa_addr :: SocketAddr
  sa_interface :: bytes
  sa_port :: u16
  sa_ip_addr :: "bytes option"
  sa_gateway :: "bytes option"
  sa_hw_queues :: "usize option"
  sa_max_queues :: "usize option"
  sa_backlog :: usize

definition server_network ::
  "fs \<Rightarrow> ifaddr list option \<Rightarrow> ServerArgs \<Rightarrow> DpdkServerRunner \<Rightarrow> DpdkServerRunner outcome" where
  "server_network F getifaddrs a runner =
     (case sa_ip_addr a of
        Some ip_str \<Rightarrow>
          (case ipv4_from_str ip_str of
             None \<Rightarrow> Panic ''Invalid IP address''
           | Some ip \<Rightarrow>
               (case sa_gateway a of
                  None \<Rightarrow> Ret (runner_gateway (Ipv4 10 0 0 1) (runner_ip_addr ip runner))
                | Some g \<Rightarrow>
                    (case ipv4_from_str g of
                       None \<Rightarrow> Panic ''Invalid gateway''
                     | Some gw \<Rightarrow> Ret (runner_gateway gw (runner_ip_addr ip runner)))))
      | None \<Rightarrow>
          with_default_network_config (\<lambda>_. get_interface_ipv4 getifaddrs (sa_interface a)) (get_default_gateway F) runner)"

text \<open>The number of channels of the interface, over the calls of \<^const>\<open>get_ethtool_channels\<close>.\<close>

definition combined_channels :: "'k libc \<Rightarrow> 'k \<Rightarrow> bytes \<Rightarrow> (u32, string) Result" where
  "combined_channels C k interface =
     (case fst (get_ethtool_channels C interface k) of Ok ch \<Rightarrow> Ok (ch_combined_count ch) | Err e \<Rightarrow> Err e)"

definition server_runner ::
  "fs \<Rightarrow> ifaddr list option \<Rightarrow> 'k libc \<Rightarrow> 'k \<Rightarrow> ServerArgs \<Rightarrow> DpdkServerRunner outcome" where
  "server_runner F getifaddrs C k a =
     bind_outcome (server_network F getifaddrs a (runner_new (string_of (sa_interface a)))) (\<lambda>runner.
     bind_outcome
       (case sa_hw_queues a of
          Some queues \<Rightarrow> Ret (runner_hw_queues queues runner)
        | None \<Rightarrow> with_default_hw_queues (\<lambda>_. combined_channels C k (sa_interface a)) runner) (\<lambda>runner.
     let runner = runner_port (sa_port a) runner;
         runner = (case sa_max_queues a of Some max_queues \<Rightarrow> runner_max_queues max_queues runner | None \<Rightarrow> runner)
     in Ret (runner_tcp_buffers 16384 16384 (runner_backlog (sa_backlog a) runner))))"

text \<open>The guard of the EAL is dropped at the end; the parameters of the run are those of \<^const>\<open>runner_run\<close>.\<close>

definition run_dpdk_server ::
  "'d dpdk \<Rightarrow> u16 \<Rightarrow> u16 \<Rightarrow> string list \<Rightarrow> fs \<Rightarrow> ifaddr list option \<Rightarrow> 'k libc \<Rightarrow> 'k \<Rightarrow> usize \<Rightarrow> bool \<Rightarrow> nat \<Rightarrow>
     (worker list \<Rightarrow> 'd world \<Rightarrow> 'd world outcome) \<Rightarrow> ServerArgs \<Rightarrow> 'd world \<Rightarrow> 'd world outcome" where
  "run_dpdk_server D room headroom env_args F getifaddrs C k num_cpus handler_set cache_id threads a w =
     (case get_pci_addr F (sa_interface a) of
        None \<Rightarrow> Panic ''Failed to get PCI address''
      | Some pci_addr \<Rightarrow>
          (case eal_builder_init D env_args (eal_allow (string_of pci_addr) eal_builder_new) w of
             (Panic msg, w) \<Rightarrow> Panic msg
           | (Ret (Err e), w) \<Rightarrow> Panic ''Failed to initialize EAL''
           | (Ret (Ok _), w) \<Rightarrow>
               bind_outcome (server_runner F getifaddrs C k a) (\<lambda>runner.
               bind_outcome (runner_run D room headroom num_cpus handler_set cache_id threads runner w) (\<lambda>w.
                 Ret (eal_drop D w)))))"

text \<open>What the command line starts.\<close>

datatype server_launch = LaunchTokio SocketAddr | LaunchTokioLocal SocketAddr | LaunchDpdk ServerArgs | LaunchKimojio u16 bool

fun bench_server_main :: "ServerArgs \<Rightarrow> server_launch" where
  "bench_server_main a =
     (case sa_mode a of
        Tokio \<Rightarrow> LaunchTokio (sa_addr a)
      | TokioLocal \<Rightarrow> LaunchTokioLocal (sa_addr a)
      | Dpdk \<Rightarrow> LaunchDpdk a
      | Kimojio \<Rightarrow> LaunchKimojio (sa_port a) False
      | KimojioPoll \<Rightarrow> LaunchKimojio (sa_port a) True)"

subsection \<open>The client\<close>

text \<open>A \<open>Duration\<close> is its number of nanoseconds.\<close>

definition from_secs :: "nat \<Rightarrow> nat" where
  "from_secs n = n * 10 ^ 9"

definition from_millis :: "nat \<Rightarrow> nat" where
  "from_millis n = n * 10 ^ 6"

definition strip_suffix :: "bytes \<Rightarrow> bytes \<Rightarrow> bytes option" where
  "strip_suffix suffix s =
     (if length suffix \<le> length s \<and> drop (length s - length suffix) s = suffix then Some (take (length s - length suffix) s) else None)"

definition parse_u64 :: "bytes \<Rightarrow> (nat, string) Result" where
  "parse_u64 s = (case from_str_radix (2 ^ 64) 10 s of Some n \<Rightarrow> Ok n | None \<Rightarrow> Err ''ParseIntError'')"

definition invalid_duration :: "bytes \<Rightarrow> string" where
  "invalid_duration s = ''Invalid duration: '' @ string_of s"

definition parse_duration :: "bytes \<Rightarrow> (nat, string) Result outcome" where
  "parse_duration s =
     (let s = trim s in
      case strip_suffix (ascii ''ms'') s of
        Some stripped \<Rightarrow>
          (case parse_u64 stripped of Ok n \<Rightarrow> Ret (Ok (from_millis n)) | Err _ \<Rightarrow> Ret (Err (invalid_duration s)))
      | None \<Rightarrow>
     (case strip_suffix (ascii ''s'') s of
        Some stripped \<Rightarrow>
          (case parse_u64 stripped of Ok n \<Rightarrow> Ret (Ok (from_secs n)) | Err _ \<Rightarrow> Ret (Err (invalid_duration s)))
      | None \<Rightarrow>
     (case strip_suffix (ascii ''m'') s of
        Some stripped \<Rightarrow>
          (case parse_u64 stripped of
             Ok n \<Rightarrow> if n * 60 < 2 ^ 64 then Ret (Ok (from_secs (n * 60))) else Panic ''attempt to multiply with overflow''
           | Err _ \<Rightarrow> Ret (Err (invalid_duration s)))
      | None \<Rightarrow>
          (case parse_u64 s of Ok n \<Rightarrow> Ret (Ok (from_secs n)) | Err _ \<Rightarrow> Ret (Err (invalid_duration s))))))"

text \<open>
  One turn of a connection of the hyper client: the answer to the request, an error with its chain of
  causes, or nothing before the time limit; the latency; and whether the lock of the samples is free. An
  answer is the list of the frames of its body, where a frame without data carries trailers.
\<close>

record hyper_turn =
  ht_response :: "((bytes option, string) Result list, string \<times> string list) Result option"
  ht_latency :: u64
  ht_locked :: bool

fun body_bytes :: "(bytes option, string) Result list \<Rightarrow> usize \<Rightarrow> usize" where
  "body_bytes [] total_bytes = total_bytes"
| "body_bytes (Ok (Some data) # frames) total_bytes = body_bytes frames (total_bytes + length data)"
| "body_bytes (Ok None # frames) total_bytes = body_bytes frames total_bytes"
| "body_bytes (Err e # frames) total_bytes = body_bytes frames total_bytes"

fun error_chain :: "string \<Rightarrow> string list \<Rightarrow> string" where
  "error_chain msg [] = msg"
| "error_chain msg (cause # causes) = error_chain (msg @ '' -> '' @ cause) causes"

definition hyper_run_turn ::
  "'h histogram \<Rightarrow> hyper_turn \<Rightarrow> 'h LocalStats \<times> 'h BenchStats \<Rightarrow> 'h LocalStats \<times> 'h BenchStats" where
  "hyper_run_turn G turn c =
     (let (local, stats) = c in
      case ht_response turn of
        Some (Ok frames) \<Rightarrow> (record_success G (ht_latency turn) (body_bytes frames 0) local, stats)
      | Some (Err (msg, causes)) \<Rightarrow> (record_error local, record_error_sample (ht_locked turn) (error_chain msg causes) stats)
      | None \<Rightarrow> (record_error local, record_error_sample (ht_locked turn) ''timeout'' stats))"

definition hyper_run_connection ::
  "'h histogram \<Rightarrow> hyper_turn list \<Rightarrow> bool \<Rightarrow> 'h BenchStats \<Rightarrow> 'h BenchStats" where
  "hyper_run_connection G turns locked stats =
     (let stats = stats\<lparr>bs_active_connections := bs_active_connections stats + 1\<rparr>;
          (local, stats) = fold (hyper_run_turn G) turns (local_stats_new G, stats);
          stats = merge_into G locked local stats
      in stats\<lparr>bs_active_connections := bs_active_connections stats - 1\<rparr>)"

text \<open>The benchmark with its connections one after the other; \<open>uri\<close> says whether the URL is valid.\<close>

definition hyper_run_benchmark ::
  "'h histogram \<Rightarrow> bool \<Rightarrow> (hyper_turn list \<times> bool) list \<Rightarrow> 'h BenchStats \<Rightarrow> 'h BenchStats outcome" where
  "hyper_run_benchmark G uri conns stats =
     (if \<not> uri then Panic ''Invalid URL''
      else Ret (fold (\<lambda>(turns, locked). hyper_run_connection G turns locked) conns stats))"

datatype ClientMode = Raw | Hyper

definition client_mode_str :: "ClientMode \<Rightarrow> bool \<Rightarrow> string" where
  "client_mode_str mode http2 =
     (case mode of Raw \<Rightarrow> ''raw'' | Hyper \<Rightarrow> if http2 then ''hyper (HTTP/2)'' else ''hyper (HTTP/1.1)'')"

subsection \<open>Properties\<close>

lemma strip_suffix_append: "strip_suffix suffix (s @ suffix) = Some s"
  by (simp add: strip_suffix_def)

lemma strip_suffix_other:
  assumes "s = [] \<or> last s \<noteq> last suffix" and "suffix \<noteq> []"
  shows "strip_suffix suffix s = None"
proof -
  have "last s = last suffix \<and> s \<noteq> []" if "length suffix \<le> length s" "drop (length s - length suffix) s = suffix"
  proof -
    have "s \<noteq> []" using that(1) assms(2) by auto
    moreover have "last (drop (length s - length suffix) s) = last s"
      using that(1) assms(2) by (intro last_drop) (cases suffix; simp)
    ultimately show ?thesis using that(2) by simp
  qed
  with assms(1) show ?thesis by (auto simp: strip_suffix_def)
qed

lemma show_digits_last: "last (show_radix 10 n) \<noteq> 115" "last (show_radix 10 n) \<noteq> 109" "plain (show_radix 10 n)"
proof -
  have "last (show_radix 10 n) \<in> set (show_radix 10 n)" by (rule last_in_set) (rule show_radix_nonempty)
  then obtain d where d: "d < 10" "last (show_radix 10 n) = digit_byte d" using show_radix_digits [of 10 "last (show_radix 10 n)" n] by auto
  then have "unat (last (show_radix 10 n)) = 48 + d" using unat_digit_byte [of d] by simp
  then show "last (show_radix 10 n) \<noteq> 115" "last (show_radix 10 n) \<noteq> 109" using d(1) by (auto simp: word_unat_eq_iff)
  show "plain (show_radix 10 n)" by (rule plain_show_radix) simp_all
qed

lemma trim_unit: "plain suffix \<Longrightarrow> trim (show_radix 10 n @ suffix) = show_radix 10 n @ suffix"
  using show_digits_last(3) [of n] by (intro trim_plain) (auto simp: plain_def)

lemma parse_u64_show: "n < 2 ^ 64 \<Longrightarrow> parse_u64 (show_radix 10 n) = Ok n"
  using from_str_radix_show [of 10 n "2 ^ 64"] by (simp add: parse_u64_def)

text \<open>
  A duration is read back as it is written, in milliseconds, seconds, minutes or without a unit; a number
  of minutes whose seconds do not fit 64 bits makes the program panic instead of being refused.
\<close>

theorem parse_duration_show:
  assumes "n < 2 ^ 64"
  shows "parse_duration (show_radix 10 n @ ascii ''ms'') = Ret (Ok (n * 10 ^ 6)) \<and>
    parse_duration (show_radix 10 n @ ascii ''s'') = Ret (Ok (n * 10 ^ 9)) \<and>
    parse_duration (show_radix 10 n) = Ret (Ok (n * 10 ^ 9)) \<and>
    parse_duration (show_radix 10 n @ ascii ''m'') =
      (if n * 60 < 2 ^ 64 then Ret (Ok (n * 60 * 10 ^ 9)) else Panic ''attempt to multiply with overflow'')"
proof -
  let ?d = "show_radix 10 n"
  have u: "plain (ascii ''ms'')" "plain (ascii ''s'')" "plain (ascii ''m'')" by (simp_all add: plain_def ascii_def)
  obtain ds b where d: "?d = ds @ [b]" using show_radix_nonempty [of 10 n] by (cases ?d rule: rev_cases) auto
  then have "b \<noteq> 109" using show_digits_last(2) [of n] by simp
  then have s: "strip_suffix (ascii ''ms'') (?d @ ascii ''s'') = None" unfolding d by (simp add: strip_suffix_def ascii_def)
  have m: "strip_suffix (ascii ''ms'') (?d @ ascii ''m'') = None" "strip_suffix (ascii ''s'') (?d @ ascii ''m'') = None"
    by (rule strip_suffix_other; simp add: ascii_def)+
  have p: "strip_suffix (ascii ''ms'') ?d = None" "strip_suffix (ascii ''s'') ?d = None" "strip_suffix (ascii ''m'') ?d = None"
    by (rule strip_suffix_other; simp add: ascii_def show_digits_last)+
  show ?thesis
    using parse_u64_show [OF assms] trim_unit [OF u(1), of n] trim_unit [OF u(2), of n] trim_unit [OF u(3), of n]
      trim_plain [OF show_digits_last(3) [of n]] s m p
    by (simp add: parse_duration_def strip_suffix_append from_millis_def from_secs_def)
qed

theorem parse_duration_show_witness:
  "parse_duration (show_radix 10 307445734561825861 @ ascii ''m'') = Panic ''attempt to multiply with overflow''"
  using parse_duration_show [of 307445734561825861] by simp

text \<open>What a turn of the hyper client counts.\<close>

definition responded :: "hyper_turn \<Rightarrow> bool" where
  "responded turn \<longleftrightarrow> (case ht_response turn of Some (Ok frames) \<Rightarrow> True | _ \<Rightarrow> False)"

definition turn_bytes :: "hyper_turn \<Rightarrow> u64" where
  "turn_bytes turn = (case ht_response turn of Some (Ok frames) \<Rightarrow> of_nat (body_bytes frames 0) | _ \<Rightarrow> 0)"

lemma hyper_turns_count:
  "fold (hyper_run_turn G) turns (local, stats) = (local', stats') \<Longrightarrow>
     ls_requests local' = ls_requests local + of_nat (length (filter responded turns)) \<and>
     ls_errors local' = ls_errors local + of_nat (length (filter (Not \<circ> responded) turns)) \<and>
     ls_bytes local' = ls_bytes local + sum_list (map turn_bytes turns) \<and>
     bs_requests stats' = bs_requests stats \<and> bs_errors stats' = bs_errors stats \<and>
     bs_bytes_read stats' = bs_bytes_read stats \<and> bs_active_connections stats' = bs_active_connections stats"
proof (induction turns arbitrary: local stats)
  case (Cons turn turns)
  obtain local1 stats1 where 1: "hyper_run_turn G turn (local, stats) = (local1, stats1)" by fastforce
  from Cons.IH [of local1 stats1] Cons.prems 1 show ?case
    by (auto simp: hyper_run_turn_def responded_def turn_bytes_def record_success_def record_error_def record_error_sample_def
        Let_def split: option.splits Result.splits)
qed simp

text \<open>
  A connection of the hyper client counts every turn once: a turn whose request was answered as a request,
  with the bytes of the frames that could be read, every other turn as an error. An answer whose body
  breaks off is answered: it counts as a request, and no error is recorded.
\<close>

theorem hyper_connection_counts:
  "bs_requests (hyper_run_connection G turns locked stats) = bs_requests stats + of_nat (length (filter responded turns)) \<and>
   bs_errors (hyper_run_connection G turns locked stats) = bs_errors stats + of_nat (length (filter (Not \<circ> responded) turns)) \<and>
   bs_bytes_read (hyper_run_connection G turns locked stats) = bs_bytes_read stats + sum_list (map turn_bytes turns) \<and>
   bs_active_connections (hyper_run_connection G turns locked stats) = bs_active_connections stats \<and>
   responded \<lparr>ht_response = Some (Ok [Err e]), ht_latency = l, ht_locked = b\<rparr>"
proof -
  obtain local' stats' where
    "fold (hyper_run_turn G) turns (local_stats_new G, stats\<lparr>bs_active_connections := bs_active_connections stats + 1\<rparr>) = (local', stats')"
    by fastforce
  from this hyper_turns_count [OF this] show ?thesis
    by (simp add: hyper_run_connection_def merge_into_def local_stats_new_def responded_def Let_def)
qed

text \<open>
  The contract both clients keep with their statistics: a turn is counted once, as a request or as an
  error.
\<close>

fun fold_turns :: "('t \<Rightarrow> 'c \<Rightarrow> 'c option) \<Rightarrow> 't list \<Rightarrow> 'c \<Rightarrow> 'c option" where
  "fold_turns turn [] c = Some c"
| "fold_turns turn (t # ts) c = Option.bind (turn t c) (fold_turns turn ts)"

lemma merge_into_totals:
  "bs_requests (merge_into G locked l s) = bs_requests s + ls_requests l"
  "bs_errors (merge_into G locked l s) = bs_errors s + ls_errors l"
  by (simp_all add: merge_into_def Let_def)

locale counting_client =
  fixes turn :: "'t \<Rightarrow> 'c \<Rightarrow> 'c option" and local_of :: "'c \<Rightarrow> 'h LocalStats" and stats_of :: "'c \<Rightarrow> 'h BenchStats"
  assumes counts_one: "turn t c = Some c' \<Longrightarrow>
      ls_requests (local_of c') + ls_errors (local_of c') = ls_requests (local_of c) + ls_errors (local_of c) + 1"
    and keeps_totals: "turn t c = Some c' \<Longrightarrow>
      bs_requests (stats_of c') = bs_requests (stats_of c) \<and> bs_errors (stats_of c') = bs_errors (stats_of c)"
begin

lemma turns_counted:
  "fold_turns turn ts c = Some c' \<Longrightarrow>
     ls_requests (local_of c') + ls_errors (local_of c') = ls_requests (local_of c) + ls_errors (local_of c) + of_nat (length ts) \<and>
     bs_requests (stats_of c') = bs_requests (stats_of c) \<and> bs_errors (stats_of c') = bs_errors (stats_of c)"
proof (induction ts arbitrary: c)
  case (Cons t ts)
  then obtain c1 where c1: "turn t c = Some c1" "fold_turns turn ts c1 = Some c'" by (auto simp: bind_eq_Some_conv)
  from Cons.IH [OF c1(2)] counts_one [OF c1(1)] keeps_totals [OF c1(1)] show ?case by (simp add: algebra_simps)
qed simp

lemma merged_totals:
  assumes "fold_turns turn ts c = Some c'" and "local_of c = local_stats_new G"
  shows "bs_requests (merge_into G locked (local_of c') (stats_of c')) + bs_errors (merge_into G locked (local_of c') (stats_of c')) =
    bs_requests (stats_of c) + bs_errors (stats_of c) + of_nat (length ts)"
proof -
  note t = turns_counted [OF assms(1)]
  have "bs_requests (merge_into G locked (local_of c') (stats_of c')) + bs_errors (merge_into G locked (local_of c') (stats_of c')) =
      bs_requests (stats_of c) + bs_errors (stats_of c) + (ls_requests (local_of c') + ls_errors (local_of c'))"
    using t by (simp add: merge_into_totals algebra_simps)
  also have "ls_requests (local_of c') + ls_errors (local_of c') = of_nat (length ts)"
    using t assms(2) by (simp add: local_stats_new_def)
  finally show ?thesis .
qed

end

lemma run_turns_fold: "run_turns G T request_bytes turns c = fold_turns (run_turn G T request_bytes) turns c"
  by (induction turns arbitrary: c) (auto simp: bind_eq_Some_conv intro: option.expand split: bind_splits)

lemma hyper_turns_fold: "Some (fold (hyper_run_turn G) turns c) = fold_turns (\<lambda>t c. Some (hyper_run_turn G t c)) turns c"
  by (induction turns arbitrary: c) auto

lemma run_exchange_counts:
  assumes "run_exchange G T request_bytes turn s buf local stats = Some (stream', buf', local', stats')"
  shows "ls_requests local' + ls_errors local' = ls_requests local + ls_errors local + 1"
    "bs_requests stats' = bs_requests stats" "bs_errors stats' = bs_errors stats"
proof -
  have sample: "bs_requests (record_error_sample b msg stats) = bs_requests stats" "bs_errors (record_error_sample b msg stats) = bs_errors stats" for b msg
    by (simp_all add: record_error_sample_def)
  have "(local' = record_error local \<or> (\<exists>l n. local' = record_success G l n local)) \<and>
      (stats' = stats \<or> (\<exists>b msg. stats' = record_error_sample b msg stats))"
  proof (cases "bt_cut turn")
    case None
    with assms obtain res r b where "exchange T request_bytes buf s = Some (res, b, r)" by (auto simp: run_exchange_def bind_eq_Some_conv)
    with None assms show ?thesis by (cases res) (auto simp: run_exchange_def)
  qed (use assms in \<open>auto simp: run_exchange_def\<close>)
  then show "ls_requests local' + ls_errors local' = ls_requests local + ls_errors local + 1"
    "bs_requests stats' = bs_requests stats" "bs_errors stats' = bs_errors stats"
    by (auto simp: record_success_def record_error_def sample)
qed

interpretation raw_counting: counting_client "run_turn G T request_bytes" "\<lambda>(stream, buf, local, stats). local"
    "\<lambda>(stream, buf, local, stats). stats" for G T request_bytes
  by unfold_locales
    (auto simp: run_turn_def run_exchange_counts record_error_def record_error_sample_def split: option.splits Result.splits if_splits
      dest: run_exchange_counts)

interpretation hyper_counting: counting_client "\<lambda>t c. Some (hyper_run_turn G t c)" fst snd for G
  by unfold_locales
    (auto simp: hyper_run_turn_def record_success_def record_error_def record_error_sample_def Let_def
      split: option.splits Result.splits prod.splits)

text \<open>Both clients report as many requests and errors as they have made turns.\<close>

theorem clients_count_turns:
  "(\<forall>stats'. run_connection G T request_bytes turns locked stats = Some stats' \<longrightarrow>
      bs_requests stats' + bs_errors stats' = bs_requests stats + bs_errors stats + of_nat (length turns)) \<and>
   bs_requests (hyper_run_connection G hturns locked stats) + bs_errors (hyper_run_connection G hturns locked stats) =
      bs_requests stats + bs_errors stats + of_nat (length hturns)"
proof (intro conjI allI impI)
  let ?stats = "stats\<lparr>bs_active_connections := bs_active_connections stats + 1\<rparr>"
  fix stats' assume "run_connection G T request_bytes turns locked stats = Some stats'"
  then obtain stream buf local stats1 where
      f: "fold_turns (run_turn G T request_bytes) turns (None, replicate 16384 0, local_stats_new G, ?stats) = Some (stream, buf, local, stats1)"
      and s: "stats' = (merge_into G locked local stats1)\<lparr>bs_active_connections := bs_active_connections (merge_into G locked local stats1) - 1\<rparr>"
    by (auto simp: run_connection_def run_turns_fold bind_eq_Some_conv Let_def)
  from raw_counting.merged_totals [OF f, of G locked] show "bs_requests stats' + bs_errors stats' = bs_requests stats + bs_errors stats + of_nat (length turns)"
    unfolding s by simp
next
  let ?stats = "stats\<lparr>bs_active_connections := bs_active_connections stats + 1\<rparr>"
  have "fold_turns (\<lambda>t c. Some (hyper_run_turn G t c)) hturns (local_stats_new G, ?stats) =
      Some (fold (hyper_run_turn G) hturns (local_stats_new G, ?stats))" by (rule hyper_turns_fold [symmetric])
  from hyper_counting.merged_totals [OF this, of G locked]
  show "bs_requests (hyper_run_connection G hturns locked stats) + bs_errors (hyper_run_connection G hturns locked stats) =
      bs_requests stats + bs_errors stats + of_nat (length hturns)"
    by (simp add: hyper_run_connection_def case_prod_beta Let_def)
qed

text \<open>Addresses of the command line.\<close>

fun dot_join :: "bytes list \<Rightarrow> bytes" where
  "dot_join [] = []"
| "dot_join [part] = part"
| "dot_join (part # parts) = part @ 46 # dot_join parts"

definition show_ipv4 :: "Ipv4Addr \<Rightarrow> bytes" where
  "show_ipv4 ip = dot_join (map (\<lambda>b. show_radix 10 (unat b)) (octets ip))"

lemma show_octet_shape:
  assumes "n < 256"
  shows "length (show_radix 10 n) \<le> 3 \<and> (1 < length (show_radix 10 n) \<longrightarrow> hd (show_radix 10 n) \<noteq> 48)"
proof -
  have h: "digit_byte d \<noteq> 48" if "0 < d" "d < 10" for d using that unat_digit_byte [of d] by (auto simp: word_unat_eq_iff)
  consider "n < 10" | "10 \<le> n" "n < 100" | "100 \<le> n" by linarith
  then show ?thesis
  proof cases
    case 2
    then have "0 < n div 10" "n div 10 < 10" by (simp_all add: div_greater_zero_iff less_mult_imp_div_less)
    with 2 h show ?thesis by (simp add: show_radix.simps [of 10 n] show_radix.simps [of 10 "n div 10"])
  next
    case 3
    then have "10 \<le> n div 10" "n div 10 < 100" "0 < n div 100" "n div 100 < 10" using assms
      by (simp_all add: div_greater_zero_iff less_mult_imp_div_less less_eq_div_iff_mult_less_eq)
    moreover have "n div 10 div 10 = n div 100" by (simp add: div_mult2_eq [symmetric])
    ultimately show ?thesis using 3 h
      by (simp add: show_radix.simps [of 10 n] show_radix.simps [of 10 "n div 10"] show_radix.simps [of 10 "n div 100"])
  qed (simp add: show_radix.simps [of 10 n])
qed

lemma parse_octet_show: "parse_octet (show_radix 10 (unat b)) = Some b"
  using show_octet_shape [of "unat b"] unat_u8_less [of b] show_radix_nonempty [of 10 "unat b"] digits_value_show [of 10 "unat b" 256]
  by (auto simp: parse_octet_def)

lemma show_octet_no_dot: "46 \<notin> set (show_radix 10 n)"
proof
  assume "46 \<in> set (show_radix 10 n)"
  then obtain d where "d < 10" "46 = digit_byte d" using show_radix_digits [of 10 46 n] by auto
  then have "unat (46 :: u8) = 48 + d" using unat_digit_byte [of d] by simp
  then show False by simp
qed

lemma ipv4_from_str_show: "ipv4_from_str (show_ipv4 ip) = Some ip"
proof (cases ip)
  case (Ipv4 a b c d)
  have "str_split 46 (show_ipv4 ip) = map (\<lambda>b. show_radix 10 (unat b)) [a, b, c, d]"
    by (simp add: show_ipv4_def Ipv4 split_part split_last show_octet_no_dot)
  then show ?thesis by (simp add: ipv4_from_str_def parse_octet_show Ipv4)
qed

text \<open>What the runner is given.\<close>

definition runner_follows :: "ServerArgs \<Rightarrow> DpdkServerRunner \<Rightarrow> bool" where
  "runner_follows a runner \<longleftrightarrow> sr_port runner = sa_port a \<and> sr_backlog runner = sa_backlog a \<and> sr_max_queues runner = sa_max_queues a \<and>
     (\<forall>queues. sa_hw_queues a = Some queues \<longrightarrow> sr_hw_queues runner = Some queues) \<and>
     (\<forall>ip. sa_ip_addr a = Some (show_ipv4 ip) \<longrightarrow> sr_ip_addr runner = Some ip \<and>
        (\<forall>gw. sa_gateway a = Some (show_ipv4 gw) \<longrightarrow> sr_gateway runner = Some gw))"

lemma server_network_follows:
  assumes "server_network F getifaddrs a (runner_new i) = Ret r"
  shows "sr_max_queues r = None \<and> (\<forall>ip. sa_ip_addr a = Some (show_ipv4 ip) \<longrightarrow> sr_ip_addr r = Some ip \<and>
      (\<forall>gw. sa_gateway a = Some (show_ipv4 gw) \<longrightarrow> sr_gateway r = Some gw))"
  using assms
  by (auto simp: server_network_def with_default_network_config_def runner_new_def setter_defs ipv4_from_str_show Let_def
      split: option.splits)

lemma server_runner_follows:
  assumes "server_runner F getifaddrs C k a = Ret runner"
  shows "runner_follows a runner"
proof -
  from assms obtain r r' where r: "server_network F getifaddrs a (runner_new (string_of (sa_interface a))) = Ret r"
      and r': "(case sa_hw_queues a of Some queues \<Rightarrow> Ret (runner_hw_queues queues r)
        | None \<Rightarrow> with_default_hw_queues (\<lambda>_. combined_channels C k (sa_interface a)) r) = Ret r'"
      and run: "runner = runner_tcp_buffers 16384 16384 (runner_backlog (sa_backlog a)
        (case sa_max_queues a of Some m \<Rightarrow> runner_max_queues m (runner_port (sa_port a) r') | None \<Rightarrow> runner_port (sa_port a) r'))"
    by (auto simp: server_runner_def bind_outcome_Ret_conv Let_def)
  from r' have "sr_max_queues r' = sr_max_queues r" "sr_ip_addr r' = sr_ip_addr r" "sr_gateway r' = sr_gateway r"
      "\<forall>queues. sa_hw_queues a = Some queues \<longrightarrow> sr_hw_queues r' = Some queues"
    by (auto simp: with_default_hw_queues_def setter_defs split: option.splits Result.splits)
  with server_network_follows [OF r] show ?thesis
    unfolding run runner_follows_def by (auto simp: setter_defs split: option.split)
qed

lemma runner_serve_cleans_up:
  assumes "runner_serve D handler_set cache_id threads r config n ip gateway mempool eth_dev w = Ret w'"
  shows "\<exists>w2. w' = mempool_drop D mempool (runner_cleanup D eth_dev w2)"
proof -
  obtain res w1 where m: "eth_mac_addr D eth_dev (runner_log_rss D eth_dev n w) = (res, w1)" by fastforce
  then obtain mac where "res = Ok mac" using assms by (cases res) (auto simp: runner_serve_def)
  with m assms show ?thesis
    by (cases "n > 1"; cases handler_set) (auto simp: runner_serve_def bind_outcome_Ret_conv)
qed

lemma runner_run_cleans_up:
  assumes "runner_run D room headroom num_cpus handler_set cache_id threads runner w = Ret w'"
  shows "\<exists>mempool eth_dev w2. w' = mempool_drop D mempool (runner_cleanup D eth_dev w2)"
proof -
  obtain res w1 where i: "eth_info D (eth_dev_new 0) w = (res, w1)" by fastforce
  with assms obtain config and built :: "(ptr \<times> EthDev, Errno) Result" and n ip gateway w2 where
    "(case built of Err e \<Rightarrow> Panic ''Failed to configure eth device''
      | Ok (mempool, eth_dev) \<Rightarrow> runner_serve D handler_set cache_id threads runner config n ip gateway mempool eth_dev w2) = Ret w'"
    by (cases "sr_ip_addr runner"; cases "sr_gateway runner"; cases "sr_hw_queues runner"; cases res)
      (auto simp: runner_run_def bind_outcome_Ret_conv Let_def)
  then obtain mempool eth_dev where
    "runner_serve D handler_set cache_id threads runner config n ip gateway mempool eth_dev w2 = Ret w'"
    by (cases built) auto
  from runner_serve_cleans_up [OF this] show ?thesis by blast
qed


text \<open>A run of the server on one queue whose workers end at once.\<close>

definition sim_args :: ServerArgs where
  "sim_args = \<lparr>sa_mode = Dpdk, sa_addr = SocketAddrV4 (Ipv4 0 0 0 0) 8080, sa_interface = ascii ''eth0'', sa_port = 8080,
     sa_ip_addr = Some (show_ipv4 (Ipv4 10 0 0 4)), sa_gateway = None, sa_hw_queues = Some 1, sa_max_queues = Some 1, sa_backlog = 64\<rparr>"

lemma sim_server_run:
  "\<exists>w'. run_dpdk_server sim_dpdk 2048 128 [''server''] sim_fs None C k 1 True 0 (\<lambda>workers w. Ret w) sim_args (sim_world [] [] 0) = Ret w'"
proof -
  have pci: "get_pci_addr sim_fs (ascii ''eth0'') = Some (ascii ''0001:00:02.0'')"
  proof (rule get_pci_addr_direct)
    show "device_link sim_fs (ascii ''eth0'') = Some (ascii ''../../..'' @ 47 # ascii ''0001:00:02.0'')"
      by (simp add: device_link_def sim_fs_def ascii_def)
  qed (simp add: pci_name_def ascii_def)
  obtain argv where argv: "cstrings (build_args [''server''] (eal_allow (string_of (ascii ''0001:00:02.0'')) eal_builder_new)) = Some argv"
    by (simp add: string_of_ascii build_args_def setter_defs eal_builder_new_def cstrings_def cstring_def)
  obtain w1 where 1: "eal_builder_init sim_dpdk [''server''] (eal_allow (string_of (ascii ''0001:00:02.0'')) eal_builder_new) (sim_world [] [] 0) = (Ret (Ok ()), w1)"
    by (simp add: eal_builder_init_def eal_init_def argv sim_world_def sim_call_def)
  obtain runner where 2: "server_runner sim_fs None C k sim_args = Ret runner" "sr_ip_addr runner \<noteq> None" "sr_gateway runner \<noteq> None"
      "sr_hw_queues runner = Some 1" "sr_max_queues runner = Some 1" "sr_mbufs_per_queue runner = 8192"
    by (simp add: server_runner_def server_network_def sim_args_def ipv4_from_str_show setter_defs runner_new_def)
  have "\<exists>w'. runner_run sim_dpdk 2048 128 1 True 0 (\<lambda>workers w. Ret w) runner w1 = Ret w'"
  proof -
    have n: "runner_num_queues 1 1 (sr_max_queues runner) = 1" "runner_total_mbufs runner 1 = Ret 8192"
      using 2 by (simp_all add: runner_num_queues_def runner_total_mbufs_def)
    let ?config = "runner_config runner 8192 1 (runner_eth_conf sim_dpdk 128)"
    have "ec_nb_rx_queues ?config = 1" "ec_nb_tx_queues ?config = 1" "cstring_new (ec_mempool_name ?config) \<noteq> None"
      by (simp_all add: runner_config_def setter_defs eth_dev_config_new_def cstring_new_def ascii_def)
    from sim_config_build [OF this] obtain w2 where c: "config_build sim_dpdk 2048 128 ?config w1 = Ret (Ok (4096, eth_dev_new (ec_port_id ?config)), w2)"
      by blast
    have i: "eth_info sim_dpdk dev w = (Ok \<lparr>info_reta_size = 128, info_max_rx_queues = 8, info_max_tx_queues = 8\<rparr>, w)"
        "eth_mac_addr sim_dpdk dev w = (Ok (Mac 2 0 0 0 0 1), w)" for dev w
      by (simp_all add: eth_info_def eth_mac_addr_def checked_get_def check_rte_success_def sim_dpdk_def)
    show ?thesis using 2 n c by (auto simp: runner_run_def runner_serve_def runner_log_rss_def i)
  qed
  with pci 1 2(1) show ?thesis by (auto simp: run_dpdk_server_def sim_args_def)
qed

definition sim_libc :: "unit libc" where
  "sim_libc = \<lparr>lc_socket = (\<lambda>k. (-1, k)), lc_close = (\<lambda>fd k. k), lc_ioctl = (\<lambda>fd req name (cmd, ch) k. (-1, ch, k)), lc_last_os_error = (\<lambda>k. [])\<rparr>"


end
