(* ===== verification/Bench_Report.thy ===== *)
theory Bench_Report
  imports Bench
begin

section \<open>The report of the benchmark client\<close>

text \<open>
  A model of \<open>main\<close> of \<^verbatim>\<open>tests/dpdk-bench-client/src/main.rs\<close>: the choice of the client, the statistics
  it collects, and the report. HOL has no IEEE arithmetic: the operations on \<open>f64\<close> are the record
  \<open>f64_ops\<close>, and nothing is said about their results. The histogram is a parameter as in
  \<^verbatim>\<open>Raw_Client\<close>, here with what is read from it; parsing the command line belongs to clap.
\<close>

record 'f f64_ops =
  f_lit :: "nat \<Rightarrow> 'f"
  f_of_u64 :: "u64 \<Rightarrow> 'f"
  f_as_secs :: "nat \<Rightarrow> 'f"
  f_mul :: "'f \<Rightarrow> 'f \<Rightarrow> 'f"
  f_div :: "'f \<Rightarrow> 'f \<Rightarrow> 'f"
  f_round :: "'f \<Rightarrow> 'f"
  f_to_u64 :: "'f \<Rightarrow> u64"

record ('h, 'f) hist_queries =
  hq_is_empty :: "'h \<Rightarrow> bool"
  hq_value_at_percentile :: "'h \<Rightarrow> nat \<Rightarrow> u64"
  hq_mean :: "'h \<Rightarrow> 'f"
  hq_max :: "'h \<Rightarrow> u64"
  hq_stdev :: "'h \<Rightarrow> 'f"

record Args =
  arg_url :: bytes
  arg_connections :: usize
  arg_duration :: bytes
  arg_mode :: ClientMode
  arg_http2 :: bool
  arg_latency :: bool
  arg_timeout :: u64

record LatencyStats =
  p50_us :: u64
  p75_us :: u64
  p90_us :: u64
  p99_us :: u64
  avg_us :: u64
  max_us :: u64
  stdev_us :: u64

record 'f BenchmarkResult =
  br_url :: bytes
  br_connections :: usize
  br_duration_secs :: 'f
  br_mode :: string
  br_worker_threads :: usize
  br_timeout_ms :: u64
  br_requests :: u64
  br_errors :: u64
  br_gb_read :: 'f
  br_requests_per_sec :: 'f
  br_mb_per_sec :: 'f
  br_error_samples :: "string list option"
  br_latency :: "LatencyStats option"

definition round_2 :: "'f f64_ops \<Rightarrow> 'f \<Rightarrow> 'f" where
  "round_2 F v = f_div F (f_round F (f_mul F v (f_lit F 100))) (f_lit F 100)"

definition get_requests :: "'h BenchStats \<Rightarrow> u64" where
  "get_requests s = bs_requests s"

definition get_errors :: "'h BenchStats \<Rightarrow> u64" where
  "get_errors s = bs_errors s"

definition get_bytes :: "'h BenchStats \<Rightarrow> u64" where
  "get_bytes s = bs_bytes_read s"

definition latency_stats :: "'f f64_ops \<Rightarrow> ('h, 'f) hist_queries \<Rightarrow> 'h \<Rightarrow> LatencyStats" where
  "latency_stats F Q hist =
     \<lparr>p50_us = hq_value_at_percentile Q hist 50, p75_us = hq_value_at_percentile Q hist 75,
      p90_us = hq_value_at_percentile Q hist 90, p99_us = hq_value_at_percentile Q hist 99,
      avg_us = f_to_u64 F (hq_mean Q hist), max_us = hq_max Q hist, stdev_us = f_to_u64 F (hq_stdev Q hist)\<rparr>"

definition benchmark_result ::
  "'f f64_ops \<Rightarrow> ('h, 'f) hist_queries \<Rightarrow> Args \<Rightarrow> nat \<Rightarrow> usize \<Rightarrow> 'h BenchStats \<Rightarrow> 'f BenchmarkResult" where
  "benchmark_result F Q args duration worker_threads stats =
     (let total_requests = get_requests stats;
          total_errors = get_errors stats;
          total_bytes = get_bytes stats;
          actual_duration = f_as_secs F duration;
          error_samples = bs_error_samples stats;
          latency = (if arg_latency args
                     then (if \<not> hq_is_empty Q (bs_latency_histogram stats)
                           then Some (latency_stats F Q (bs_latency_histogram stats)) else None)
                     else None)
      in \<lparr>br_url = arg_url args, br_connections = arg_connections args,
          br_duration_secs = round_2 F actual_duration,
          br_mode = client_mode_str (arg_mode args) (arg_http2 args),
          br_worker_threads = worker_threads, br_timeout_ms = arg_timeout args,
          br_requests = total_requests, br_errors = total_errors,
          br_gb_read = round_2 F (f_div F (f_of_u64 F total_bytes) (f_mul F (f_mul F (f_lit F 1024) (f_lit F 1024)) (f_lit F 1024))),
          br_requests_per_sec = round_2 F (f_div F (f_of_u64 F total_requests) actual_duration),
          br_mb_per_sec = round_2 F (f_div F (f_div F (f_of_u64 F total_bytes) actual_duration) (f_mul F (f_lit F 1024) (f_lit F 1024))),
          br_error_samples = (if error_samples = [] then None else Some error_samples),
          br_latency = latency\<rparr>)"

text \<open>
  The runs of the two clients are given by the turns of their connections, of which there are as many as
  \<open>connections\<close> asks for; \<open>None\<close> is a benchmark that does not end, and \<open>parallelism\<close> the answer of the system.
\<close>

definition client_run ::
  "'h histogram \<Rightarrow> 'r byte_stream \<Rightarrow> (bytes \<Rightarrow> ('r bench_turn list \<times> bool) list) \<Rightarrow> bool \<Rightarrow> (hyper_turn list \<times> bool) list \<Rightarrow>
     Args \<Rightarrow> 'h BenchStats option outcome" where
  "client_run G T conns uri hconns args =
     (let stats = bench_stats_new G in
      case arg_mode args of
        Raw \<Rightarrow> run_benchmark G T conns (arg_url args) stats
      | Hyper \<Rightarrow> bind_outcome (hyper_run_benchmark G uri hconns stats) (\<lambda>stats. Ret (Some stats)))"

definition client_main ::
  "'f f64_ops \<Rightarrow> ('h, 'f) hist_queries \<Rightarrow> 'h histogram \<Rightarrow> 'r byte_stream \<Rightarrow>
     (bytes \<Rightarrow> ('r bench_turn list \<times> bool) list) \<Rightarrow> bool \<Rightarrow> (hyper_turn list \<times> bool) list \<Rightarrow>
     usize option \<Rightarrow> Args \<Rightarrow> 'f BenchmarkResult option outcome" where
  "client_main F Q G T conns uri hconns parallelism args =
     bind_outcome (parse_duration (arg_duration args)) (\<lambda>res.
       case res of
         Err e \<Rightarrow> Panic ''Invalid duration format''
       | Ok duration \<Rightarrow>
           let worker_threads = (case parallelism of Some p \<Rightarrow> p | None \<Rightarrow> 1) in
           bind_outcome (client_run G T conns uri hconns args) (\<lambda>stats.
             Ret (map_option (benchmark_result F Q args duration worker_threads) stats)))"

subsection \<open>The report accounts for every turn\<close>

text \<open>At most five error messages are kept.\<close>

definition samples_ok :: "'h BenchStats \<Rightarrow> bool" where
  "samples_ok s \<longleftrightarrow> bs_max_error_samples s = 5 \<and> length (bs_error_samples s) \<le> 5"

lemma samples_ok_simps [simp]:
  "samples_ok (bench_stats_new G)"
  "samples_ok s \<Longrightarrow> samples_ok (record_error_sample locked msg s)"
  "samples_ok (s\<lparr>bs_active_connections := n\<rparr>) = samples_ok s"
  "samples_ok (merge_into G locked l s) = samples_ok s"
  by (auto simp: samples_ok_def bench_stats_new_def record_error_sample_def merge_into_def Let_def)

lemma run_turn_samples:
  assumes "run_turn G T request_bytes turn (stream, buf, local, stats) = Some (stream', buf', local', stats')" and "samples_ok stats"
  shows "samples_ok stats'"
  using assms
  by (auto simp: run_turn_def run_exchange_def split: option.splits bind_splits prod.splits Result.splits)

lemma run_turns_samples:
  "run_turns G T request_bytes turns (stream, buf, local, stats) = Some (stream', buf', local', stats') \<Longrightarrow>
     samples_ok stats \<Longrightarrow> samples_ok stats'"
proof (induction turns arbitrary: stream buf local stats)
  case (Cons turn turns)
  then show ?case by (auto simp: bind_eq_Some_conv dest: run_turn_samples)
qed simp

lemma run_connection_samples: "run_connection G T request_bytes turns locked stats = Some stats' \<Longrightarrow> samples_ok stats \<Longrightarrow> samples_ok stats'"
  by (auto simp: run_connection_def bind_eq_Some_conv Let_def dest: run_turns_samples)

lemma hyper_turns_samples: "samples_ok (snd c) \<Longrightarrow> samples_ok (snd (fold (hyper_run_turn G) turns c))"
  by (induction turns arbitrary: c) (auto simp: hyper_run_turn_def split: prod.splits option.splits Result.splits)

lemma hyper_run_connection_samples: "samples_ok stats \<Longrightarrow> samples_ok (hyper_run_connection G turns locked stats)"
  using hyper_turns_samples [of "(local_stats_new G, stats\<lparr>bs_active_connections := bs_active_connections stats + 1\<rparr>)" G turns]
  by (simp add: hyper_run_connection_def case_prod_beta Let_def)

definition total_turns :: "('t list \<times> bool) list \<Rightarrow> u64" where
  "total_turns conns = of_nat (sum_list (map (length \<circ> fst) conns))"

lemma run_connections_total:
  "run_connections G T request_bytes conns stats = Some stats' \<Longrightarrow> samples_ok stats \<Longrightarrow>
     samples_ok stats' \<and> bs_requests stats' + bs_errors stats' = bs_requests stats + bs_errors stats + total_turns conns"
proof (induction conns arbitrary: stats)
  case (Cons conn conns)
  obtain turns locked where conn: "conn = (turns, locked)" by fastforce
  obtain stats1 where c: "run_connection G T request_bytes turns locked stats = Some stats1"
      "run_connections G T request_bytes conns stats1 = Some stats'"
    using Cons.prems(1) by (auto simp: conn bind_eq_Some_conv)
  have "bs_requests stats1 + bs_errors stats1 = bs_requests stats + bs_errors stats + of_nat (length turns)"
    using clients_count_turns [of G T request_bytes turns locked stats] c(1) by blast
  then show ?case
    using Cons.IH [OF c(2) run_connection_samples [OF c(1) Cons.prems(2)]] by (simp add: conn total_turns_def algebra_simps)
qed (simp add: total_turns_def)

lemma hyper_connections_total:
  "samples_ok stats \<Longrightarrow> stats' = fold (\<lambda>(turns, locked). hyper_run_connection G turns locked) conns stats \<Longrightarrow>
     samples_ok stats' \<and> bs_requests stats' + bs_errors stats' = bs_requests stats + bs_errors stats + total_turns conns"
proof (induction conns arbitrary: stats)
  case (Cons conn conns)
  obtain turns locked where conn: "conn = (turns, locked)" by fastforce
  have "bs_requests (hyper_run_connection G turns locked stats) + bs_errors (hyper_run_connection G turns locked stats) =
      bs_requests stats + bs_errors stats + of_nat (length turns)"
    using clients_count_turns [of G _ _ _ locked stats turns] by blast
  then show ?case
    using Cons.IH [OF hyper_run_connection_samples [OF Cons.prems(1)]] Cons.prems(2)
    by (simp add: conn total_turns_def algebra_simps)
qed (simp add: total_turns_def)

text \<open>
  A report of the client accounts for every turn of every connection, as a request or as an error, in
  both modes; it has latencies only when they were asked for and some request has succeeded in recording
  one, and at most five error messages.
\<close>

theorem client_report_complete:
  assumes "client_main F Q G T conns uri hconns parallelism args = Ret (Some report)"
  shows "(arg_mode args = Hyper \<longrightarrow> br_requests report + br_errors report = total_turns hconns)"
    and "arg_mode args = Raw \<Longrightarrow> \<exists>parsed. parse_url (arg_url args) = Ok parsed \<and>
      br_requests report + br_errors report = total_turns (conns (client_addr parsed))"
    and "br_error_samples report \<noteq> Some []" "\<forall>samples. br_error_samples report = Some samples \<longrightarrow> length samples \<le> 5"
proof -
  obtain stats duration workers where r: "report = benchmark_result F Q args duration workers stats"
      and run: "client_run G T conns uri hconns args = Ret (Some stats)"
    using assms by (cases "parse_duration (arg_duration args)"; cases "client_run G T conns uri hconns args")
      (auto simp: client_main_def Let_def simp del: bind_outcome_Ret_conv split: Result.splits)
  have counts: "br_requests report = bs_requests stats" "br_errors report = bs_errors stats"
    "br_error_samples report = (if bs_error_samples stats = [] then None else Some (bs_error_samples stats))"
    by (simp_all add: r benchmark_result_def get_requests_def get_errors_def Let_def)
  have zero: "bs_requests (bench_stats_new G) = 0" "bs_errors (bench_stats_new G) = 0" by (simp_all add: bench_stats_new_def)
  have raw: "\<exists>parsed. parse_url (arg_url args) = Ok parsed \<and> samples_ok stats \<and>
      bs_requests stats + bs_errors stats = total_turns (conns (client_addr parsed))" if "arg_mode args = Raw"
    using run that run_connections_total [OF _ samples_ok_simps(1)] zero
    by (fastforce simp: client_run_def run_benchmark_def split: Result.splits)
  have hyper: "samples_ok stats \<and> bs_requests stats + bs_errors stats = total_turns hconns" if "arg_mode args = Hyper"
    using run that hyper_connections_total [OF samples_ok_simps(1) refl, of G hconns] zero
    by (auto simp: client_run_def hyper_run_benchmark_def split: if_splits)
  show "arg_mode args = Hyper \<longrightarrow> br_requests report + br_errors report = total_turns hconns"
    using hyper counts by simp
  show "arg_mode args = Raw \<Longrightarrow> \<exists>parsed. parse_url (arg_url args) = Ok parsed \<and>
      br_requests report + br_errors report = total_turns (conns (client_addr parsed))"
    using raw counts by auto
  have "samples_ok stats" using raw hyper by (cases "arg_mode args") auto
  then show "br_error_samples report \<noteq> Some []" "\<forall>samples. br_error_samples report = Some samples \<longrightarrow> length samples \<le> 5"
    using counts(3) by (auto simp: samples_ok_def)
qed

end
