(* ===== verification/Tokio_Session.thy ===== *)
theory Tokio_Session
  imports Echo_Server
begin

section \<open>Sessions over the tokio adapter\<close>

text \<open>
  What a user of \<open>TokioTcpStream\<close> (\<^verbatim>\<open>dpdk-net/src/runtime/tokio_compat.rs\<close>) sees over the life of
  a connection: the polls of its four functions in any order, between which the reactor and the
  other tasks run. The state keeps the bytes that the reads have returned and the bytes that the
  writes have reported as written; \<open>accepted\<close> and \<open>delivered\<close> are the bytes the socket has taken and
  handed over, as in \<^verbatim>\<open>Echo_Server\<close>. The HTTP servers and hyper work on such a stream.
\<close>

record ('s, 'i, 'v) session =
  ts_read :: bytes
  ts_written :: bytes
  ts_reactor :: "('s, 'i, 'v) reactor"

text \<open>
  Closing starts, or has already started: \<open>close\<close> of smoltcp leaves the states in which data is
  still exchanged.
\<close>

definition closing_states :: "tcp_state set" where
  "closing_states = {FinWait1, FinWait2, Closing, LastAck}"

definition ended_states :: "tcp_state set" where
  "ended_states = {Closed, TimeWait}"

definition close_law :: "('t, 'u, 's, 'i, 'v) smoltcp \<Rightarrow> bool" where
  "close_law S \<longleftrightarrow> (\<forall>t. tcp_state_of S (tcp_close S t) \<in> closing_states \<union> ended_states) \<and>
     (\<forall>k t. tcp_state_of S (tcp_register_send_waker S k t) = tcp_state_of S t)"

text \<open>
  The steps. A read is given an empty buffer with room for \<open>n\<close> bytes. Between the polls, the data
  that was exchanged with the application stays what it is.
\<close>

inductive tokio_step ::
  "('t, 'u, 's, 'i, 'v) smoltcp \<Rightarrow> ('t \<Rightarrow> bytes) \<Rightarrow> ('t \<Rightarrow> bytes) \<Rightarrow> SocketHandle \<Rightarrow>
     ('s, 'i, 'v) session \<Rightarrow> ('s, 'i, 'v) session \<Rightarrow> bool"
  for S accepted delivered h where
  read_poll: "tokio_poll_read S cx h \<lparr>rb_filled = [], rb_unfilled = n\<rparr> (ts_reactor x) = Ret (p, buf, r) \<Longrightarrow>
    tokio_step S accepted delivered h x (x\<lparr>ts_read := ts_read x @ rb_filled buf, ts_reactor := r\<rparr>)"
| write_poll: "tokio_poll_write S cx h bs (ts_reactor x) = Ret (p, r) \<Longrightarrow>
    tokio_step S accepted delivered h x
      (x\<lparr>ts_written := ts_written x @ (case p of Ready (Ok n) \<Rightarrow> take n bs | _ \<Rightarrow> []), ts_reactor := r\<rparr>)"
| flush_poll: "tokio_poll_flush S cx h (ts_reactor x) = Ret (p, r) \<Longrightarrow>
    tokio_step S accepted delivered h x (x\<lparr>ts_reactor := r\<rparr>)"
| shutdown_poll: "tokio_poll_shutdown S cx h (ts_reactor x) = Ret (p, r) \<Longrightarrow>
    tokio_step S accepted delivered h x (x\<lparr>ts_reactor := r\<rparr>)"
| others: "tcp_at S h (ts_reactor x) = Some t \<Longrightarrow> tcp_at S h r = Some t' \<Longrightarrow>
    accepted t' = accepted t \<Longrightarrow> delivered t' = delivered t \<Longrightarrow>
    tokio_step S accepted delivered h x (x\<lparr>ts_reactor := r\<rparr>)"

subsection \<open>One poll\<close>

text \<open>A poll keeps the socket, and moves bytes only as it says.\<close>

definition moves ::
  "('t, 'u, 's, 'i, 'v) smoltcp \<Rightarrow> ('t \<Rightarrow> bytes) \<Rightarrow> ('t \<Rightarrow> bytes) \<Rightarrow> SocketHandle \<Rightarrow>
     ('s, 'i, 'v) reactor \<Rightarrow> bytes \<Rightarrow> bytes \<Rightarrow> ('s, 'i, 'v) reactor \<Rightarrow> bool" where
  "moves S accepted delivered h r rd wr r' \<longleftrightarrow>
     (\<forall>a0 d0 a d. echoed S accepted delivered h a0 d0 r a d \<longrightarrow> echoed S accepted delivered h a0 d0 r' (a @ wr) (d @ rd))"

lemma movesI:
  assumes "tcp_at S h r = Some t" and "tcp_at S h r' = Some t'"
    and "accepted t' = accepted t @ wr" and "delivered t' = delivered t @ rd"
  shows "moves S accepted delivered h r rd wr r'"
  using assms by (simp add: moves_def echoed_def)

definition session_ok ::
  "('t, 'u, 's, 'i, 'v) smoltcp \<Rightarrow> ('t \<Rightarrow> bytes) \<Rightarrow> ('t \<Rightarrow> bytes) \<Rightarrow> SocketHandle \<Rightarrow> ('s, 'i, 'v) reactor \<Rightarrow> bool" where
  "session_ok S accepted delivered h r \<longleftrightarrow> socket_set_laws S \<and> echo_laws S accepted delivered \<and> tcp_at S h r \<noteq> None"

lemma session_okE:
  assumes "session_ok S accepted delivered h r"
  obtains t where "tcp_at S h r = Some t" "\<And>t'. tcp_at S h (put_tcp S h t' r) = Some t'"
    "\<And>t'. session_ok S accepted delivered h (put_tcp S h t' r)"
proof -
  from assms obtain t where t: "tcp_at S h r = Some t" by (auto simp: session_ok_def)
  then have "tcp_at S h (put_tcp S h t' r) = Some t'" for t'
    using assms tcp_at_put by (auto simp: session_ok_def)
  with t assms that show thesis by (simp add: session_ok_def)
qed

text \<open>The contract of the functions of the adapter: they do not panic, and are exact.\<close>

locale exact_poll =
  fixes ok :: "'r \<Rightarrow> bool"
    and moved :: "'r \<Rightarrow> bytes \<Rightarrow> bytes \<Rightarrow> 'r \<Rightarrow> bool"
    and poll :: "'r \<Rightarrow> ('p \<times> 'r) outcome"
    and rd :: "'p \<Rightarrow> bytes"
    and wr :: "'p \<Rightarrow> bytes"
  assumes poll_exact: "ok r \<Longrightarrow> \<exists>p r'. poll r = Ret (p, r') \<and> ok r' \<and> moved r (rd p) (wr p) r'"
begin

lemma poll_moved:
  assumes "ok r" and "poll r = Ret (p, r')"
  shows "ok r'" "moved r (rd p) (wr p) r'"
  using poll_exact [OF assms(1)] assms(2) by auto

end

lemma with_tcp_exact:
  assumes "\<And>t p t'. echo_laws S accepted delivered \<Longrightarrow> f t = (p, t') \<Longrightarrow>
      accepted t' = accepted t @ wr p \<and> delivered t' = delivered t @ rd p"
  shows "exact_poll (session_ok S accepted delivered h) (moves S accepted delivered h) (with_tcp S h f) rd wr"
proof
  fix r
  assume ok: "session_ok S accepted delivered h r"
  then obtain t where t: "tcp_at S h r = Some t" "\<And>t'. tcp_at S h (put_tcp S h t' r) = Some t'"
    "\<And>t'. session_ok S accepted delivered h (put_tcp S h t' r)" using session_okE by metis
  obtain p t' where f: "f t = (p, t')" by fastforce
  have "accepted t' = accepted t @ wr p \<and> delivered t' = delivered t @ rd p"
    using assms [OF _ f] ok by (simp add: session_ok_def)
  then show "\<exists>p r'. with_tcp S h f r = Ret (p, r') \<and> session_ok S accepted delivered h r' \<and>
      moves S accepted delivered h r (rd p) (wr p) r'"
    using with_tcp_at [OF t(1), of f] f t(3) movesI [OF t(1,2), of accepted _ "wr p" delivered "rd p"] by auto
qed

lemma no_bytes_moved: "session_ok S accepted delivered h r \<Longrightarrow> moves S accepted delivered h r [] [] r"
  by (simp add: moves_def)

subsection \<open>The functions of the adapter are exact\<close>

definition written_part :: "bytes \<Rightarrow> (usize, io_error) Result poll \<Rightarrow> bytes" where
  "written_part bs p = (case p of Ready (Ok n) \<Rightarrow> take n bs | _ \<Rightarrow> [])"

interpretation write_exact: exact_poll "session_ok S accepted delivered h" "moves S accepted delivered h"
  "tokio_poll_write S cx h bs" "\<lambda>p. []" "written_part bs" for S accepted delivered h cx bs
  unfolding tokio_poll_write_def
  by (rule with_tcp_exact)
    (auto simp: written_part_def dest: echo_lawsD(4) stream_lawsD(1,2) [OF echo_lawsD(1)]
      simp: echo_lawsD(5,7) split: prod.splits Result.splits TcpSendError.splits if_splits)

text \<open>The waiting part of a flush and of a shutdown only registers the waker.\<close>

lemma register_exact: "exact_poll (session_ok S accepted delivered h) (moves S accepted delivered h)
    (with_tcp S h (\<lambda>t. (p, tcp_register_send_waker S cx t))) (\<lambda>p. []) (\<lambda>p. [])"
  by (rule with_tcp_exact) (auto simp: echo_lawsD(5,7))

lemma shutdown_wait_exact: "exact_poll (session_ok S accepted delivered h) (moves S accepted delivered h)
    (with_tcp S h (shutdown_wait S cx)) (\<lambda>p. []) (\<lambda>p. [])"
  by (rule with_tcp_exact) (auto simp: shutdown_wait_def echo_lawsD(5,7) split: if_splits)

interpretation flush_exact: exact_poll "session_ok S accepted delivered h" "moves S accepted delivered h"
  "tokio_poll_flush S cx h" "\<lambda>p. []" "\<lambda>p. []" for S accepted delivered h cx
proof
  fix r
  assume ok: "session_ok S accepted delivered h r"
  then obtain t where t: "tcp_at S h r = Some t" by (rule session_okE)
  show "\<exists>p r'. tokio_poll_flush S cx h r = Ret (p, r') \<and> session_ok S accepted delivered h r' \<and>
      moves S accepted delivered h r [] [] r'"
    using ok no_bytes_moved [OF ok] exact_poll.poll_exact [OF register_exact ok, of "Pending :: (unit, io_error) Result poll" cx]
    by (simp add: tokio_poll_flush_def get_tcp_at [OF t] del: bind_outcome_Ret_conv)
qed

interpretation shutdown_exact: exact_poll "session_ok S accepted delivered h" "moves S accepted delivered h"
  "tokio_poll_shutdown S cx h" "\<lambda>p. []" "\<lambda>p. []" for S accepted delivered h cx
proof
  fix r
  assume ok: "session_ok S accepted delivered h r"
  then obtain t where t: "tcp_at S h r = Some t" "\<And>t'. tcp_at S h (put_tcp S h t' r) = Some t'"
    "\<And>t'. session_ok S accepted delivered h (put_tcp S h t' r)" using session_okE by metis
  have "accepted (tcp_close S t) = accepted t" "delivered (tcp_close S t) = delivered t"
    using ok echo_lawsD(9,10) by (auto simp: session_ok_def)
  then have close: "echoed S accepted delivered h a0 d0 (put_tcp S h (tcp_close S t) r) a d \<longleftrightarrow>
      echoed S accepted delivered h a0 d0 r a d" for a0 d0 a d
    using t(1,2) by (simp add: echoed_def)
  show "\<exists>p r'. tokio_poll_shutdown S cx h r = Ret (p, r') \<and> session_ok S accepted delivered h r' \<and>
      moves S accepted delivered h r [] [] r'"
    unfolding tokio_poll_shutdown_at [OF t(1,2)]
    using ok no_bytes_moved [OF ok] exact_poll.poll_exact [OF shutdown_wait_exact ok, of cx]
      exact_poll.poll_exact [OF shutdown_wait_exact t(3), of cx "tcp_close S t"] close
    by (simp add: moves_def)
qed

text \<open>A read is exact for the part of the buffer that it fills.\<close>

lemma read_exact_bytes:
  assumes ok: "session_ok S accepted delivered h r"
    and run: "tokio_poll_read S cx h buf r = Ret (p, buf', r')"
  shows "session_ok S accepted delivered h r'"
    and "\<exists>bs. rb_filled buf' = rb_filled buf @ bs \<and> moves S accepted delivered h r bs [] r'"
proof -
  obtain t where t: "tcp_at S h r = Some t" "\<And>t'. tcp_at S h (put_tcp S h t' r) = Some t'"
    "\<And>t'. session_ok S accepted delivered h (put_tcp S h t' r)" using session_okE [OF ok] by metis
  note L = echo_lawsD [of S accepted delivered]
  have laws: "echo_laws S accepted delivered" using ok by (simp add: session_ok_def)
  obtain res t1 where res: "tcp_recv_slice S (rb_unfilled buf) t = (res, t1)" by fastforce
  note D = run [unfolded tokio_poll_read_def get_tcp_at [OF t(1)] bind_outcome.simps, unfolded res Let_def prod.case]
  have m: "moves S accepted delivered h r bs [] (put_tcp S h t2 r)"
    if "accepted t2 = accepted t" "delivered t2 = delivered t @ bs" for bs t2
    using movesI [OF t(1,2), of accepted t2 "[]" delivered bs] that by simp
  show "session_ok S accepted delivered h r'"
    using D ok t(3) by (auto split: if_splits Result.splits TcpRecvError.splits)
  show "\<exists>bs. rb_filled buf' = rb_filled buf @ bs \<and> moves S accepted delivered h r bs [] r'"
  proof (cases res)
    case (Ok bs)
    note recv = L(2) [OF laws res [unfolded Ok]]
    show ?thesis
      using D Ok recv no_bytes_moved [OF ok] m [of t1 bs] m [of "tcp_register_recv_waker S cx t1" "[]"] L(6,8) [OF laws]
      by (auto split: if_splits)
  next
    case (Err e)
    then show ?thesis
      using D L(3) [OF laws res [unfolded Err]] no_bytes_moved [OF ok] m [of t1 "[]"]
      by (cases e) (auto split: if_splits)
  qed
qed

subsection \<open>Sessions\<close>

definition session_start :: "('s, 'i, 'v) reactor \<Rightarrow> ('s, 'i, 'v) session" where
  "session_start r = \<lparr>ts_read = [], ts_written = [], ts_reactor = r\<rparr>"

definition session_inv ::
  "('t, 'u, 's, 'i, 'v) smoltcp \<Rightarrow> ('t \<Rightarrow> bytes) \<Rightarrow> ('t \<Rightarrow> bytes) \<Rightarrow> SocketHandle \<Rightarrow> bytes \<Rightarrow> bytes \<Rightarrow>
     ('s, 'i, 'v) session \<Rightarrow> bool" where
  "session_inv S accepted delivered h a0 d0 x \<longleftrightarrow>
     session_ok S accepted delivered h (ts_reactor x) \<and>
     echoed S accepted delivered h a0 d0 (ts_reactor x) (ts_written x) (ts_read x)"

lemma tokio_step_inv:
  assumes "tokio_step S accepted delivered h x y" and "session_inv S accepted delivered h a0 d0 x"
  shows "session_inv S accepted delivered h a0 d0 y"
  using assms
proof (induction rule: tokio_step.induct)
  case (read_poll cx n x p buf r)
  then show ?case
    using read_exact_bytes [OF _ read_poll.hyps] by (fastforce simp: session_inv_def moves_def)
next
  case (write_poll cx bs x p r)
  then show ?case
    using write_exact.poll_moved [OF _ write_poll.hyps] by (fastforce simp: session_inv_def moves_def written_part_def)
next
  case (flush_poll cx x p r)
  then show ?case
    using flush_exact.poll_moved [OF _ flush_poll.hyps] by (fastforce simp: session_inv_def moves_def)
next
  case (shutdown_poll cx x p r)
  then show ?case
    using shutdown_exact.poll_moved [OF _ shutdown_poll.hyps] by (fastforce simp: session_inv_def moves_def)
next
  case (others x t r t')
  then show ?case by (auto simp: session_inv_def session_ok_def echoed_def)
qed

lemma tokio_reachable_inv:
  assumes "(tokio_step S accepted delivered h)\<^sup>*\<^sup>* x y" and "session_inv S accepted delivered h a0 d0 x"
  shows "session_inv S accepted delivered h a0 d0 y"
  using assms by (induction rule: rtranclp_induct) (auto intro: tokio_step_inv)

text \<open>What a shutdown leaves behind.\<close>

lemma shutdown_state:
  assumes "socket_set_laws S" and "close_law S" and "tcp_at S h r \<noteq> None"
    and "tokio_poll_shutdown S cx h r = Ret (p, r')"
  shows "\<exists>t'. tcp_at S h r' = Some t' \<and>
    (case p of Ready v \<Rightarrow> v = Ok () \<and> tcp_state_of S t' \<in> ended_states | Pending \<Rightarrow> tcp_state_of S t' \<in> closing_states)"
proof -
  obtain t where t: "tcp_at S h r = Some t" using assms(3) by auto
  have at: "tcp_at S h (put_tcp S h t' r) = Some t'" for t' using tcp_at_put [OF assms(1) t] .
  have at2: "tcp_at S h (put_tcp S h t2 (put_tcp S h t1 r)) = Some t2" for t1 t2
    using tcp_at_put [OF assms(1) at] .
  have close: "tcp_state_of S (tcp_close S t) \<in> closing_states \<union> ended_states" using assms(2) by (simp add: close_law_def)
  have reg: "tcp_state_of S (tcp_register_send_waker S k t') = tcp_state_of S t'" for k t'
    using assms(2) by (simp add: close_law_def)
  show ?thesis
    using assms(4) t at at2 close reg unfolding tokio_poll_shutdown_at [OF t at]
    by (auto simp: with_tcp_at [OF t] with_tcp_at [OF at] shutdown_wait_def closing_states_def ended_states_def
        split: if_splits)
qed

subsection \<open>The stream is exact\<close>


lemma sim_close_law: "close_law sim_stack"
  by (simp add: close_law_def sim_stack_def closing_states_def)


end
