(* ===== verification/Http_Servers.thy ===== *)
theory Http_Servers
  imports Tokio_Session Accept_Loops
begin

section \<open>The HTTP servers of a queue\<close>

text \<open>
  The servers of \<^verbatim>\<open>dpdk-net-test/src/app/custom_http.rs\<close> and \<^verbatim>\<open>dpdk-net-test/src/app/http_server.rs\<close>
  as a whole: their structures, and \<open>run\<close> as the accept loop of \<^verbatim>\<open>Echo_Server\<close> together with the task
  that it spawns for each connection. \<open>io_of h\<close> is the tokio stream over the accepted socket \<open>h\<close>, as its
  peer drives it; what a stream over the adapter promises is the subject of \<^verbatim>\<open>Tokio_Session\<close>. The
  connections of hyper are a parameter: functions from a service and a stream to the result.
\<close>

record 'f queue_server =
  qs_listener :: TcpListener
  qs_cancel :: nat
  qs_handler :: 'f
  qs_queue_id :: usize
  qs_port :: u16

type_synonym 'm handler = "'m Request \<Rightarrow> 'm Response"
type_synonym ('m, 'e, 'w) service = "'m Request \<Rightarrow> 'w \<Rightarrow> ('m Response, 'e) Result \<times> 'w"
type_synonym ('m, 'b, 'e, 'w) incoming_service = "'m Request \<times> 'b \<Rightarrow> 'w \<Rightarrow> ('m Response, 'e) Result \<times> 'w"

definition simple_http1_server_new ::
  "TcpListener \<Rightarrow> nat \<Rightarrow> 'm handler \<Rightarrow> usize \<Rightarrow> u16 \<Rightarrow> 'm handler queue_server" where
  "simple_http1_server_new listener cancel handler queue_id port =
     \<lparr>qs_listener = listener, qs_cancel = cancel, qs_handler = handler, qs_queue_id = queue_id, qs_port = port\<rparr>"

definition http_auto_server_new ::
  "TcpListener \<Rightarrow> nat \<Rightarrow> ('m, 'e, 'w) service \<Rightarrow> usize \<Rightarrow> u16 \<Rightarrow> ('m, 'e, 'w) service queue_server" where
  "http_auto_server_new listener cancel handler queue_id port =
     \<lparr>qs_listener = listener, qs_cancel = cancel, qs_handler = handler, qs_queue_id = queue_id, qs_port = port\<rparr>"

definition http1_server_new ::
  "TcpListener \<Rightarrow> nat \<Rightarrow> ('m, 'e, 'w) service \<Rightarrow> usize \<Rightarrow> u16 \<Rightarrow> ('m, 'e, 'w) service queue_server" where
  "http1_server_new listener cancel handler queue_id port =
     \<lparr>qs_listener = listener, qs_cancel = cancel, qs_handler = handler, qs_queue_id = queue_id, qs_port = port\<rparr>"

definition http2_server_new ::
  "TcpListener \<Rightarrow> nat \<Rightarrow> ('m, 'e, 'w) service \<Rightarrow> usize \<Rightarrow> u16 \<Rightarrow> ('m, 'e, 'w) service queue_server" where
  "http2_server_new listener cancel handler queue_id port =
     \<lparr>qs_listener = listener, qs_cancel = cancel, qs_handler = handler, qs_queue_id = queue_id, qs_port = port\<rparr>"

fun task_socket :: "conn_task \<Rightarrow> SocketHandle" where
  "task_socket (EchoTask i h) = h"
| "task_socket (SimpleHttpTask i h) = h"
| "task_socket (Http1Task i h) = h"
| "task_socket (Http2Task i h) = h"
| "task_socket (HttpAutoTask i h) = h"

text \<open>
  The loop with its tasks. The tasks run beside the loop and beside each other; each has a stream and a
  copy of the handler of its own, so that its result is that of its connection alone.
\<close>

type_synonym ('s, 'i, 'v) turns = "(bool \<times> bool \<times> (('s, 'i, 'v) reactor \<Rightarrow> ('s, 'i, 'v) reactor)) list"

definition run_with_tasks ::
  "(u64 \<Rightarrow> SocketHandle \<Rightarrow> conn_task) \<Rightarrow> (SocketHandle \<Rightarrow> 'c) \<Rightarrow> ('t, 'u, 's, 'i, 'v) smoltcp \<Rightarrow> waker \<Rightarrow>
     ('s, 'i, 'v) turns \<Rightarrow> 'f queue_server \<Rightarrow> ('s, 'i, 'v) reactor \<Rightarrow> ('c list \<times> ('s, 'i, 'v) reactor) outcome" where
  "run_with_tasks task serve S cx turns server r =
     bind_outcome (server_run task S cx turns (accept_server_new (qs_listener server)) r) (\<lambda>(srv, r).
       Ret (map (\<lambda>t. serve (task_socket t)) (srv_tasks srv), r))"

definition simple_http1_server_run ::
  "'m http_lib \<Rightarrow> 'r byte_stream \<Rightarrow> (SocketHandle \<Rightarrow> 'r) \<Rightarrow> ('t, 'u, 's, 'i, 'v) smoltcp \<Rightarrow> waker \<Rightarrow>
     ('s, 'i, 'v) turns \<Rightarrow> 'm handler queue_server \<Rightarrow> ('s, 'i, 'v) reactor
     \<Rightarrow> ((unit, 'r HttpParser) act list \<times> ('s, 'i, 'v) reactor) outcome" where
  "simple_http1_server_run H T io_of S cx turns server r =
     run_with_tasks SimpleHttpTask (\<lambda>h. handle_connection H T (qs_handler server) (io_of h)) S cx turns server r"

text \<open>What \<open>serve_connection\<close> of the three builders of hyper gives for a service and a stream.\<close>

record ('q, 'io, 'c) hyper_builders =
  hy_auto :: "'q \<Rightarrow> 'io \<Rightarrow> 'c"
  hy_http1 :: "'q \<Rightarrow> 'io \<Rightarrow> 'c"
  hy_http2 :: "'q \<Rightarrow> 'io \<Rightarrow> 'c"

definition http_auto_server_run ::
  "(('m, 'b, 'e, 'w) incoming_service, 'io, 'c) hyper_builders \<Rightarrow> ('b \<Rightarrow> 'w \<Rightarrow> (bytes, 'e) Result \<times> 'w) \<Rightarrow>
     (SocketHandle \<Rightarrow> 'io) \<Rightarrow> ('t, 'u, 's, 'i, 'v) smoltcp \<Rightarrow> waker \<Rightarrow> ('s, 'i, 'v) turns \<Rightarrow>
     ('m, 'e, 'w) service queue_server \<Rightarrow> ('s, 'i, 'v) reactor \<Rightarrow> ('c list \<times> ('s, 'i, 'v) reactor) outcome" where
  "http_auto_server_run Y collect io_of S cx turns server r =
     (let wrapped_handler = with_collected_body collect (qs_handler server)
      in run_with_tasks HttpAutoTask (\<lambda>h. hy_auto Y wrapped_handler (io_of h)) S cx turns server r)"

definition http1_server_run ::
  "(('m, 'b, 'e, 'w) incoming_service, 'io, 'c) hyper_builders \<Rightarrow> ('b \<Rightarrow> 'w \<Rightarrow> (bytes, 'e) Result \<times> 'w) \<Rightarrow>
     (SocketHandle \<Rightarrow> 'io) \<Rightarrow> ('t, 'u, 's, 'i, 'v) smoltcp \<Rightarrow> waker \<Rightarrow> ('s, 'i, 'v) turns \<Rightarrow>
     ('m, 'e, 'w) service queue_server \<Rightarrow> ('s, 'i, 'v) reactor \<Rightarrow> ('c list \<times> ('s, 'i, 'v) reactor) outcome" where
  "http1_server_run Y collect io_of S cx turns server r =
     (let wrapped_handler = with_collected_body collect (qs_handler server)
      in run_with_tasks Http1Task (\<lambda>h. hy_http1 Y wrapped_handler (io_of h)) S cx turns server r)"

definition http2_server_run ::
  "(('m, 'b, 'e, 'w) incoming_service, 'io, 'c) hyper_builders \<Rightarrow> ('b \<Rightarrow> 'w \<Rightarrow> (bytes, 'e) Result \<times> 'w) \<Rightarrow>
     (SocketHandle \<Rightarrow> 'io) \<Rightarrow> ('t, 'u, 's, 'i, 'v) smoltcp \<Rightarrow> waker \<Rightarrow> ('s, 'i, 'v) turns \<Rightarrow>
     ('m, 'e, 'w) service queue_server \<Rightarrow> ('s, 'i, 'v) reactor \<Rightarrow> ('c list \<times> ('s, 'i, 'v) reactor) outcome" where
  "http2_server_run Y collect io_of S cx turns server r =
     (let wrapped_handler = with_collected_body collect (qs_handler server)
      in run_with_tasks Http2Task (\<lambda>h. hy_http2 Y wrapped_handler (io_of h)) S cx turns server r)"

subsection \<open>Every accepted connection is served\<close>

text \<open>What happens between the turns keeps the sockets of the listeners.\<close>

definition turns_keep ::
  "('t, 'u, 's, 'i, 'v) smoltcp \<Rightarrow> ('t, 'u) waker_view \<Rightarrow> ('s, 'i, 'v) turns \<Rightarrow> bool" where
  "turns_keep S W turns \<longleftrightarrow>
     (\<forall>(cancelled, cancel_first, env) \<in> set turns. \<forall>l r. accept_live S W (l, r) \<longrightarrow> accept_live S W (l, env r))"

text \<open>
  The connections that polling the listener gives in the turns before the server stops: it stops when it
  is cancelled and either looks at this first or has no connection waiting.
\<close>

fun accepted_by ::
  "('t, 'u, 's, 'i, 'v) smoltcp \<Rightarrow> waker \<Rightarrow> ('s, 'i, 'v) turns \<Rightarrow> TcpListener \<Rightarrow> ('s, 'i, 'v) reactor \<Rightarrow> SocketHandle list" where
  "accepted_by S cx [] l r = []"
| "accepted_by S cx ((cancelled, cancel_first, env) # turns) l r =
     (if cancelled \<and> cancel_first then []
      else
        (case accept_poll S cx l r of
           Ret (Ready (Ok h), l, r) \<Rightarrow> h # accepted_by S cx turns l (env r)
         | Ret (Ready (Err e), l, r) \<Rightarrow> accepted_by S cx turns l (env r)
         | Ret (Pending, l, r) \<Rightarrow> if cancelled then [] else accepted_by S cx turns l (env r)
         | Panic msg \<Rightarrow> []))"

lemma server_run_accepts:
  assumes "\<And>i h. task_socket (task i h) = h" and "server_run task S cx turns srv r = Ret (srv', r')"
  shows "map task_socket (srv_tasks srv') = map task_socket (srv_tasks srv) @ accepted_by S cx turns (srv_listener srv) r"
  using assms(2)
proof (induction turns arbitrary: srv r)
  case (Cons turn turns)
  obtain cancelled cancel_first env where turn: "turn = (cancelled, cancel_first, env)" by (cases turn) auto
  show ?case
  proof (cases "cancelled \<and> cancel_first")
    case True
    then show ?thesis using Cons.prems by (auto simp: turn accept_turn_def)
  next
    case False
    then obtain p l r1 where P: "accept_poll S cx (srv_listener srv) r = Ret (p, l, r1)"
      using Cons.prems by (cases "accept_poll S cx (srv_listener srv) r") (auto simp: turn accept_turn_def)
    show ?thesis
    proof (cases p)
      case Pending
      then show ?thesis
        using Cons.prems False P Cons.IH [of "srv\<lparr>srv_listener := l\<rparr>" "env r1"]
        by (cases cancelled) (auto simp: turn accept_turn_def)
    next
      case (Ready v)
      then show ?thesis
      proof (cases v)
        case (Ok h)
        let ?srv = "srv\<lparr>srv_listener := l, srv_conn_id := srv_conn_id srv + 1,
          srv_tasks := srv_tasks srv @ [task (srv_conn_id srv) h]\<rparr>"
        from Ok show ?thesis
          using Ready Cons.prems False P Cons.IH [of ?srv "env r1"] assms(1) by (auto simp: turn accept_turn_def)
      next
        case (Err e)
        then show ?thesis
          using Ready Cons.prems False P Cons.IH [of "srv\<lparr>srv_listener := l\<rparr>" "env r1"] by (auto simp: turn accept_turn_def)
      qed
    qed
  qed
qed simp

lemma run_with_tasks_serves:
  assumes "accept_live S W (qs_listener server, r)" and "turns_keep S W turns"
    and task: "\<And>i h. task_socket (task i h) = h"
  shows "\<exists>r'. run_with_tasks task serve S cx turns server r = Ret (map serve (accepted_by S cx turns (qs_listener server) r), r')"
proof -
  let ?srv = "accept_server_new (qs_listener server)"
  have start: "accept_live S W (srv_listener ?srv, r)" "srv_tasks ?srv = []" "srv_conn_id ?srv = 0"
    "srv_listener ?srv = qs_listener server"
    using assms(1) by (simp_all add: accept_server_new_def)
  from server_run_numbers [OF start(1-3) assms(2) [unfolded turns_keep_def], where task = task and cx = cx]
  obtain srv' r' where run: "server_run task S cx turns ?srv r = Ret (srv', r')" by blast
  have "map serve (map task_socket (srv_tasks srv')) = map serve (accepted_by S cx turns (qs_listener server) r)"
    using server_run_accepts [OF task run] start(2,4) by simp
  then show ?thesis using run by (simp add: run_with_tasks_def comp_def)
qed


text \<open>The three servers over hyper hand the same connections to hyper, with the collecting handler.\<close>

lemma hyper_servers_serve:
  fixes collect server io_of Y
  assumes "accept_live S W (qs_listener server, r)" and "turns_keep S W turns"
    and hs: "hs = accepted_by S cx turns (qs_listener server) r"
    and service: "service = with_collected_body collect (qs_handler server)"
  shows "\<exists>r'. http_auto_server_run Y collect io_of S cx turns server r = Ret (map (\<lambda>h. hy_auto Y service (io_of h)) hs, r')"
    and "\<exists>r'. http1_server_run Y collect io_of S cx turns server r = Ret (map (\<lambda>h. hy_http1 Y service (io_of h)) hs, r')"
    and "\<exists>r'. http2_server_run Y collect io_of S cx turns server r = Ret (map (\<lambda>h. hy_http2 Y service (io_of h)) hs, r')"
  unfolding http_auto_server_run_def http1_server_run_def http2_server_run_def Let_def hs service
  by (rule run_with_tasks_serves [OF assms(1,2)], simp)+

text \<open>A connection waits in the backlog of the simulated stack, and is answered.\<close>

definition sim_server :: "sim_headers handler queue_server" where
  "sim_server = simple_http1_server_new sim_listener 0 (simple_echo_handler sim_http) 0 80"

lemma sim_accepted: "accepted_by sim_stack 7 [(False, True, id)] (qs_listener sim_server) sim_listening = [2]"
  by (simp add: sim_server_def simple_http1_server_new_def accept_poll_def sim_listening_def sim_listener_def sim_stack_def
      get_tcp_def create_listening_socket_def sim_reactor_def reactor_new_def Let_def)


end
