(* ===== verification/Archive_Tests.thy ===== *)
theory Archive_Tests
  imports Queues Http_Text
begin

section \<open>The archived tests of the DPDK bindings\<close>

text \<open>
  A model of \<^verbatim>\<open>archive/dpdk-test/src/lib.rs\<close>, which drives the raw bindings without the wrappers of
  \<^verbatim>\<open>dpdk-net\<close>: the shared start-up, the launch on every core, the test that writes and reads a packet
  buffer, and the test that sends a frame through a ring device and drains what it receives. The
  functions that only these tests call are the record \<open>lcores\<close>. \<open>buf_addr + data_off\<close> is the
  address that \<open>rte_pktmbuf_mtod\<close> gives.
\<close>

record 'd lcores =
  lc_is_power_of_2 :: "u32 \<Rightarrow> int"
  lc_socket_id :: "'d \<Rightarrow> u32"
  lc_get_next_lcore :: "u32 \<Rightarrow> int \<Rightarrow> int \<Rightarrow> 'd \<Rightarrow> u32"
  lc_remote_launch :: "u32 \<Rightarrow> 'd \<Rightarrow> 'd"
  lc_lcore_id :: "'d \<Rightarrow> u32"
  lc_mp_wait_lcore :: "'d \<Rightarrow> 'd"
  lc_MAX_LCORE :: u32
  lc_MBUF_DEFAULT_BUF_SIZE :: u32

subsection \<open>Start-up\<close>

text \<open>A \<open>Once\<close> that panicked stays poisoned, and makes every later call panic.\<close>

datatype once = OnceNew | OncePoisoned | OnceDone

record 'd archive =
  ar_once :: once
  ar_mempool :: ptr
  ar_world :: "'d world"

definition archive_argv :: "string list" where
  "archive_argv = [''dpdk-test'', ''--no-huge'', ''--file-prefix=dpdk_test'', ''--vdev=net_ring0'']"

definition init_dpdk :: "'d dpdk \<Rightarrow> 'd lcores \<Rightarrow> 'd archive \<Rightarrow> unit outcome \<times> 'd archive" where
  "init_dpdk D A s =
     (case ar_once s of
        OnceDone \<Rightarrow> (Ret (), s)
      | OncePoisoned \<Rightarrow> (Panic ''Once instance has previously been poisoned'', s)
      | OnceNew \<Rightarrow>
          let (ret, d) = rte_eal_init D (int (length archive_argv)) archive_argv (rte (ar_world s));
              s = s\<lparr>ar_world := (ar_world s)\<lparr>rte := d\<rparr>\<rparr>
          in if ret < 0 then (Panic ''DPDK EAL initialization failed'', s\<lparr>ar_once := OncePoisoned\<rparr>)
             else
               let socket_id = sint (lc_socket_id A d);
                   (p, d) = pktmbuf_pool_create D (ascii ''shared_mbuf_pool'' @ [0]) 8192 250 0
                     (ucast (lc_MBUF_DEFAULT_BUF_SIZE A)) socket_id d;
                   s = s\<lparr>ar_world := (ar_world s)\<lparr>rte := d\<rparr>, ar_mempool := p\<rparr>
               in if p = null_ptr then (Panic ''Failed to create shared mempool'', s\<lparr>ar_once := OncePoisoned\<rparr>)
                  else (Ret (), s\<lparr>ar_once := OnceDone\<rparr>))"

text \<open>Every test starts with it, and uses the pool it created.\<close>

definition with_dpdk ::
  "'d dpdk \<Rightarrow> 'd lcores \<Rightarrow> (ptr \<Rightarrow> 'd world \<Rightarrow> 'a outcome) \<Rightarrow> 'd archive \<Rightarrow> 'a outcome" where
  "with_dpdk D A body s =
     (case init_dpdk D A s of (Panic msg, s) \<Rightarrow> Panic msg | (Ret u, s) \<Rightarrow> body (ar_mempool s) (ar_world s))"

definition dummy_test :: "'d dpdk \<Rightarrow> 'd lcores \<Rightarrow> 'd archive \<Rightarrow> unit outcome" where
  "dummy_test D A = with_dpdk D A (\<lambda>pool w.
     if lc_is_power_of_2 A 7 \<noteq> 0 then Panic ''assertion `left == right` failed''
      else if lc_is_power_of_2 A 16 \<noteq> 1 then Panic ''assertion `left == right` failed'' else Ret ())"

subsection \<open>A function on every core\<close>

definition lcore_hello :: "'d lcores \<Rightarrow> 'd \<Rightarrow> bytes \<times> int" where
  "lcore_hello A d = (ascii ''hello from core '' @ show_radix 10 (unat (lc_lcore_id A d)), 0)"

partial_function (option) launch_loop :: "'d lcores \<Rightarrow> u32 \<Rightarrow> u32 list \<Rightarrow> 'd \<Rightarrow> (u32 list \<times> 'd) option" where
  "launch_loop A lcore_id launched d =
     (if lcore_id < lc_MAX_LCORE A then
        let d = lc_remote_launch A lcore_id d
        in launch_loop A (lc_get_next_lcore A lcore_id 1 0 d) (launched @ [lcore_id]) d
      else Some (launched, d))"

text \<open>
  The cores on which \<open>lcore_hello\<close> was launched, and what it prints on the main core. \<open>None\<close> is a
  loop that does not end.
\<close>

definition test_helloworld ::
  "'d dpdk \<Rightarrow> 'd lcores \<Rightarrow> 'd archive \<Rightarrow> (u32 list \<times> bytes \<times> 'd) option outcome" where
  "test_helloworld D A = with_dpdk D A (\<lambda>pool w.
     Ret (Option.bind (launch_loop A (lc_get_next_lcore A (- 1) 1 0 (rte w)) [] (rte w)) (\<lambda>(launched, d).
       Some (launched, fst (lcore_hello A d), lc_mp_wait_lcore A d))))"

subsection \<open>A packet buffer\<close>

definition ether_header :: bytes where
  "ether_header = [0x02, 0, 0, 0, 0, 0x01, 0x02, 0, 0, 0, 0, 0x02, 0x08, 0x00]"

definition mbuf_test_data :: bytes where
  "mbuf_test_data = ether_header @
     [0x45, 0x00, 0x00, 0x2e, 0x00, 0x00, 0x40, 0x00, 0x40, 0x11, 0x00, 0x00, 0xc0, 0xa8,
      0x01, 0x01, 0xc0, 0xa8, 0x01, 0x02, 0x04, 0xd2, 0x16, 0x2e, 0x00, 0x1a, 0x00, 0x00,
      0x48, 0x65, 0x6c, 0x6c, 0x6f, 0x20, 0x44, 0x50, 0x44, 0x4b, 0x21, 0x00, 0x00, 0x00,
      0x00, 0x00, 0x00, 0x00, 0x00, 0x00, 0x00, 0x00]"

definition eth_test_data :: bytes where
  "eth_test_data = ether_header @
     [0x48, 0x65, 0x6c, 0x6c, 0x6f, 0x20, 0x66, 0x72, 0x6f, 0x6d, 0x20, 0x44, 0x50, 0x44,
      0x4b, 0x20, 0x65, 0x74, 0x68, 0x65, 0x72, 0x6e, 0x65, 0x74, 0x20, 0x74, 0x65, 0x73,
      0x74, 0x21] @ replicate 20 0"

text \<open>The bytes are written before the lengths; the room of the buffer is not checked.\<close>

definition write_packet :: "'d dpdk \<Rightarrow> Mbuf \<Rightarrow> bytes \<Rightarrow> 'd world \<Rightarrow> 'd world" where
  "write_packet D m bs w =
     (let data_ptr = pktmbuf_mtod D m (rte w);
          w = w\<lparr>mem := write_raw (mem w) data_ptr bs\<rparr>
      in w\<lparr>rte := pktmbuf_set_pkt_len D m (of_nat (length bs))
             (pktmbuf_set_data_len D m (of_nat (length bs)) (rte w))\<rparr>)"

definition mbuf_tx_rx :: "'d dpdk \<Rightarrow> ptr \<Rightarrow> 'd world \<Rightarrow> 'd world outcome" where
  "mbuf_tx_rx D pool w =
     (if pool = null_ptr then Panic ''Failed to get shared mempool''
      else
        let (m, d) = pktmbuf_alloc D pool (rte w); w = w\<lparr>rte := d\<rparr> in
        if m = null_ptr then Panic ''Failed to allocate mbuf''
        else
          let data_ptr = pktmbuf_mtod D m (rte w) in
          if data_ptr = null_ptr then Panic ''Failed to get mbuf data pointer''
          else
            let w = write_packet D m mbuf_test_data w;
                read_back = from_raw_parts (mem w) data_ptr (length mbuf_test_data)
            in if read_back \<noteq> mbuf_test_data then Panic ''Data mismatch''
               else if take 6 read_back \<noteq> [0x02, 0, 0, 0, 0, 0x01] then Panic ''Destination MAC mismatch''
               else if take 6 (drop 6 read_back) \<noteq> [0x02, 0, 0, 0, 0, 0x02] then Panic ''Source MAC mismatch''
               else if take 2 (drop 12 read_back) \<noteq> [0x08, 0x00] then Panic ''EtherType mismatch''
               else if take 11 (drop 42 read_back) \<noteq> ascii ''Hello DPDK!'' then Panic ''Payload mismatch''
               else Ret (mbuf_drop D m w))"

definition test_mbuf_tx_rx :: "'d dpdk \<Rightarrow> 'd lcores \<Rightarrow> 'd archive \<Rightarrow> 'd world outcome" where
  "test_mbuf_tx_rx D A = with_dpdk D A (mbuf_tx_rx D)"

subsection \<open>A device\<close>

definition zeroed_eth_conf :: rte_eth_conf where
  "zeroed_eth_conf =
     \<lparr>raw_link_speeds = 0, raw_rx_mq_mode = 0, raw_rx_mtu = 0, raw_rx_offloads = 0, raw_rx_max_lro_pkt_size = 0,
      raw_tx_mq_mode = 0, raw_tx_offloads = 0, raw_lpbk_mode = 0,
      raw_rss_conf = \<lparr>rss_conf_hf = 0, rss_conf_key = None, rss_conf_key_len = 0\<rparr>\<rparr>"

definition assert_zero :: "string \<Rightarrow> ('d \<Rightarrow> int \<times> 'd) \<Rightarrow> 'd world \<Rightarrow> 'd world outcome" where
  "assert_zero msg call w = (let (ret, d) = call (rte w) in if ret = 0 then Ret (w\<lparr>rte := d\<rparr>) else Panic msg)"

definition start_port :: "'d dpdk \<Rightarrow> 'd lcores \<Rightarrow> ptr \<Rightarrow> 'd world \<Rightarrow> 'd world outcome" where
  "start_port D A pool w =
     (if rte_eth_dev_count_avail D (rte w) = 0 then Panic ''No ethernet devices available''
      else if pool = null_ptr then Panic ''Failed to get shared mempool''
      else
        bind_outcome (assert_zero ''Failed to configure port'' (rte_eth_dev_configure D 0 1 1 zeroed_eth_conf) w) (\<lambda>w.
        let socket_id = lc_socket_id A (rte w) in
        bind_outcome (assert_zero ''Failed to setup RX queue'' (rte_eth_rx_queue_setup D 0 0 128 socket_id None pool) w) (\<lambda>w.
        bind_outcome (assert_zero ''Failed to setup TX queue'' (rte_eth_tx_queue_setup D 0 0 128 socket_id None) w) (\<lambda>w.
        bind_outcome (assert_zero ''Failed to start port'' (rte_eth_dev_start D 0) w) (\<lambda>w.
        Ret (w\<lparr>rte := snd (rte_eth_promiscuous_enable D 0 (rte w))\<rparr>))))))"

text \<open>The frame is freed when the transmit burst does not take it.\<close>

definition transmit_test_packet :: "'d dpdk \<Rightarrow> ptr \<Rightarrow> 'd world \<Rightarrow> 'd world outcome" where
  "transmit_test_packet D pool w =
     (let (m, d) = pktmbuf_alloc D pool (rte w); w = w\<lparr>rte := d\<rparr> in
      if m = null_ptr then Panic ''Failed to allocate TX mbuf''
      else
        let w = write_packet D m eth_test_data w;
            (nb_tx, mm, d) = eth_tx_burst D 0 0 [m] 1 (mem w) (rte w);
            w = w\<lparr>mem := mm, rte := d\<rparr>
        in Ret (if nb_tx = 0 then mbuf_drop D m w else w))"

text \<open>The packets of a burst: compared with the header of the test frame, and freed.\<close>

fun check_packets :: "'d dpdk \<Rightarrow> Mbuf list \<Rightarrow> bool \<Rightarrow> 'd world \<Rightarrow> bool \<times> 'd world" where
  "check_packets D [] received w = (received, w)"
| "check_packets D (m # ms) received w =
     (if m = null_ptr then check_packets D ms received w
      else
        let pkt_len = unat (pktmbuf_pkt_len D m (rte w));
            rx_data = from_raw_parts (mem w) (pktmbuf_mtod D m (rte w)) pkt_len
        in check_packets D ms (received \<or> pkt_len \<ge> 14 \<and> take 14 rx_data = take 14 eth_test_data) (mbuf_drop D m w))"

fun receive_attempts :: "'d dpdk \<Rightarrow> nat \<Rightarrow> ptr list \<Rightarrow> 'd world \<Rightarrow> bool \<times> 'd world" where
  "receive_attempts D 0 rx_pkts w = (False, w)"
| "receive_attempts D (Suc n) rx_pkts w =
     (let (nb_rx, rx_pkts, mm, d) = eth_rx_burst D 0 0 rx_pkts 32 (mem w) (rte w);
          w = w\<lparr>mem := mm, rte := d\<rparr>
      in if nb_rx > 0 then check_packets D (take (unat nb_rx) rx_pkts) False w
         else receive_attempts D n rx_pkts w)"

text \<open>Whether the frame came back is only printed.\<close>

definition test_eth_dev_tx_rx :: "'d dpdk \<Rightarrow> 'd lcores \<Rightarrow> 'd archive \<Rightarrow> (bool \<times> 'd world) outcome" where
  "test_eth_dev_tx_rx D A = with_dpdk D A (\<lambda>pool w.
     bind_outcome (start_port D A pool w) (\<lambda>w.
     bind_outcome (transmit_test_packet D pool w) (\<lambda>w.
       let (received, w) = receive_attempts D 10 (replicate 32 null_ptr) w
       in Ret (received, w\<lparr>rte := snd (rte_eth_dev_stop D 0 (rte w))\<rparr>))))"

subsection \<open>Every worker core is reached once\<close>

text \<open>
  What DPDK documents of \<open>rte_get_next_lcore\<close>, with \<open>workers\<close> the worker cores in order: the first
  one after the given number, which starts again at 0 after the largest, or \<open>RTE_MAX_LCORE\<close>.
\<close>

definition lcore_law :: "'d lcores \<Rightarrow> u32 list \<Rightarrow> bool" where
  "lcore_law A workers \<longleftrightarrow> sorted workers \<and> distinct workers \<and> (\<forall>i \<in> set workers. i < lc_MAX_LCORE A) \<and>
     (\<forall>i d. lc_get_next_lcore A i 1 0 d =
        (case filter (\<lambda>j. i + 1 \<le> j) workers of [] \<Rightarrow> lc_MAX_LCORE A | j # js \<Rightarrow> j))"

lemma launch_loop_workers:
  assumes "lcore_law A (done_ws @ ws)"
  shows "\<exists>d'. launch_loop A (case ws of [] \<Rightarrow> lc_MAX_LCORE A | j # js \<Rightarrow> j) launched d = Some (launched @ ws, d')"
  using assms
proof (induction ws arbitrary: done_ws launched d)
  case Nil
  then show ?case by (subst launch_loop.simps) simp
next
  case (Cons j ws)
  let ?d = "lc_remote_launch A j d"
  have L: "sorted (done_ws @ j # ws)" "distinct (done_ws @ j # ws)" "j < lc_MAX_LCORE A"
    "lc_get_next_lcore A j 1 0 ?d = (case filter (\<lambda>i. j + 1 \<le> i) (done_ws @ j # ws) of [] \<Rightarrow> lc_MAX_LCORE A | i # is \<Rightarrow> i)"
    using Cons.prems by (auto simp: lcore_law_def)
  have "unat (j + 1) = Suc (unat j)" 
    using unatSuc [of j] L(3) max_word_wrap [of j] word_order.extremum_strict [of "lc_MAX_LCORE A"] by (metis add.commute)
  then have le: "j + 1 \<le> i \<longleftrightarrow> j < i" for i by (simp add: word_le_nat_alt word_less_nat_alt Suc_le_eq)
  have "filter (\<lambda>i. j < i) done_ws = []" "filter (\<lambda>i. j < i) ws = ws"
    using L(1,2) by (fastforce simp: sorted_append filter_empty_conv, intro filter_True) (auto simp: sorted_append order_less_le)
  then have "filter (\<lambda>i. j + 1 \<le> i) (done_ws @ j # ws) = ws" by (simp add: le)
  then have next_core: "lc_get_next_lcore A j 1 0 ?d = (case ws of [] \<Rightarrow> lc_MAX_LCORE A | i # is \<Rightarrow> i)"
    using L(4) by simp
  have "lcore_law A ((done_ws @ [j]) @ ws)" using Cons.prems by simp
  from Cons.IH [OF this, of "launched @ [j]" ?d] show ?case
    using L(3) next_core by (subst launch_loop.simps) (simp add: Let_def)
qed

theorem test_helloworld_reaches_workers:
  assumes "lcore_law A workers" and "init_dpdk D A s = (Ret (), s')"
  shows "\<exists>out d. test_helloworld D A s = Ret (Some (workers, out, d))"
proof -
  have "filter (\<lambda>j. (- 1 :: u32) + 1 \<le> j) workers = workers" by simp
  then have "lc_get_next_lcore A (- 1) 1 0 d = (case workers of [] \<Rightarrow> lc_MAX_LCORE A | j # js \<Rightarrow> j)" for d
    using assms(1) unfolding lcore_law_def by metis
  then show ?thesis
    using launch_loop_workers [of A "[]" workers "[]" "rte (ar_world s')"] assms
    by (auto simp: test_helloworld_def with_dpdk_def)
qed

subsection \<open>The tests give every buffer back\<close>

lemma write_packet_spec:
  assumes laws: "mbuf_laws D V" and l: "mbuf_live V w m" and empty: "mbuf_data_len D m w = 0"
    and room: "length bs \<le> mbuf_tailroom D m w"
  defines "w' \<equiv> write_packet D m bs w"
  shows "mbuf_live V w' m" "keeps D V {m} w w'" "mbuf_data D m w' = bs"
    "from_raw_parts (mem w') (pktmbuf_mtod D m (rte w)) (length bs) = bs"
proof -
  let ?p = "pktmbuf_mtod D m (rte w)"
  let ?w = "w\<lparr>mem := write_raw (mem w) ?p bs\<rparr>"
  have eq: "w' = mbuf_set_lens D m (of_nat (length bs)) (of_nat (length bs)) ?w"
    by (simp add: w'_def write_packet_def mbuf_set_lens_def Let_def)
  have u16: "length bs \<le> u16_max" using room area_lawsD(5) [OF laws l [unfolded mbuf_live_def]]
    by (simp add: mbuf_tailroom_def mbuf_data_len_def)
  then have len: "unat (of_nat (length bs) :: u16) = length bs" by (simp add: unat_of_nat)
  have area: "?p \<noteq> 0" "area_lo V m \<le> ?p" "?p + length bs \<le> area_hi V m"
    using area_lawsD(2-4) [OF laws l [unfolded mbuf_live_def]] room by (auto simp: mbuf_tailroom_def)
  have lw: "mbuf_live V ?w m" using l by (simp add: mbuf_live_def)
  have cap: "unat (of_nat (length bs) :: u16) \<le> mbuf_capacity D m ?w"
    using room by (simp add: len mbuf_capacity_def mbuf_tailroom_def mbuf_data_len_def)
  note S = mbuf_set_lens_spec [OF laws lw cap, of "of_nat (length bs)", folded eq]
  have "keeps D V {m} w ?w"
    by (rule keepsI [OF laws])
      (use write_raw_outside [OF laws l [unfolded mbuf_live_def]] area in auto)
  then show "keeps D V {m} w w'" using keeps_trans [OF _ S(6)] by fastforce
  show "mbuf_live V w' m" by (rule S(1))
  show raw: "from_raw_parts (mem w') ?p (length bs) = bs" by (simp add: S(5))
  show "mbuf_data D m w' = bs" using raw S(2,4) area(1) by (auto simp: mbuf_data_def len Let_def)
qed

lemma raw_alloc:
  assumes "pktmbuf_alloc D pool (rte w) = (m, d)" and "m \<noteq> 0"
  shows "mbuf_alloc D pool w = (Some m, w\<lparr>rte := d\<rparr>)"
  using assms by (simp add: mbuf_alloc_def non_null_def)

text \<open>
  With room for the frame in a fresh buffer, the first test passes, and leaves all buffers as they were.
\<close>

theorem mbuf_tx_rx_passes:
  assumes laws: "mbuf_laws D V" and "pool \<noteq> 0" and al: "mbuf_alloc D pool w = (Some m, w1)"
    and room: "64 \<le> mbuf_tailroom D m w1"
  shows "\<exists>w'. mbuf_tx_rx D pool w = Ret w' \<and> keeps D V {} w w'"
proof -
  obtain d where d: "pktmbuf_alloc D pool (rte w) = (m, d)" "m \<noteq> 0" "w1 = w\<lparr>rte := d\<rparr>"
    using al by (auto simp: mbuf_alloc_def non_null_def split: prod.splits if_splits)
  note A = mbuf_alloc_Some [OF laws al]
  have p: "pktmbuf_mtod D m (rte w1) \<noteq> 0" using area_lawsD(2) [OF laws A(2) [unfolded mbuf_live_def]] .
  have "length mbuf_test_data \<le> mbuf_tailroom D m w1"
    using room by (simp add: mbuf_test_data_def ether_header_def)
  note W = write_packet_spec [OF laws A(2) A(5) this]
  let ?w2 = "write_packet D m mbuf_test_data w1"
  note F = mbuf_drop_spec [OF laws W(1)]
  have "mbuf_tx_rx D pool w = Ret (mbuf_drop D m ?w2)"
    using assms(2) d p W(4) by (simp add: mbuf_tx_rx_def Let_def) (simp add: mbuf_test_data_def ether_header_def ascii_def)
  moreover have "keeps D V {m} w (mbuf_drop D m ?w2)"
    using keeps_trans [OF keeps_trans [OF A(4) W(2)] F(2)] by simp
  then have "keeps D V {} w (mbuf_drop D m ?w2)" using keeps_not_live A(1) F(1) by blast
  ultimately show ?thesis by blast
qed

lemma transmit_conserves:
  assumes laws: "dpdk_laws D V" and run: "transmit_test_packet D pool w = Ret w'"
    and room: "\<And>m w1. mbuf_alloc D pool w = (Some m, w1) \<Longrightarrow> 64 \<le> mbuf_tailroom D m w1"
  shows "keeps D V {} w w'"
proof -
  note M = dpdk_lawsD(1) [OF laws]
  obtain m d where d: "pktmbuf_alloc D pool (rte w) = (m, d)" by fastforce
  then have m: "m \<noteq> 0" using run by (auto simp: transmit_test_packet_def split: if_splits)
  let ?w1 = "w\<lparr>rte := d\<rparr>"
  note al = raw_alloc [OF d m]
  note A = mbuf_alloc_Some [OF M al]
  have "length eth_test_data \<le> mbuf_tailroom D m ?w1"
    using room [OF al] by (simp add: eth_test_data_def ether_header_def)
  note W = write_packet_spec [OF M A(2) A(5) this]
  let ?w2 = "write_packet D m eth_test_data ?w1"
  obtain nb mm d3 where tx: "eth_tx_burst D 0 0 [m] 1 (mem ?w2) (rte ?w2) = (nb, mm, d3)" by (metis prod_cases3)
  let ?w3 = "?w2\<lparr>mem := mm, rte := d3\<rparr>"
  have w': "w' = (if nb = 0 then mbuf_drop D m ?w3 else ?w3)"
    using run d m tx by (simp add: transmit_test_packet_def Let_def)
  note T = tx_burst_lawD [OF dpdk_lawsD(3) [OF laws] _ tx]
  have nb: "nb = 0 \<or> unat nb = 1" 
    using T(1) by (cases "unat nb") (simp_all add: unat_eq_0)
  have "x \<notin> set (take (unat nb) [m])" if "x \<noteq> m" for x using that in_set_takeD [of x _ "[m]"] by auto
  then have k3: "keeps D V {m} ?w2 ?w3"
    by (intro keepsI [OF M]) (use T(3,4) in auto)
  have live3: "nb = 0 \<Longrightarrow> mbuf_live V ?w3 m"
    using T(3) [of m] W(1) by (auto simp: mbuf_live_def same_mbuf_def)
  have gone: "\<not> mbuf_live V w' m"
    using nb live3 T(2) [of m] mbuf_drop_spec(1) [OF M live3] w' by (auto simp: mbuf_live_def)
  have "keeps D V {m} ?w3 w'" using mbuf_drop_spec(2) [OF M live3] w' by auto
  then have "keeps D V {m} w w'"
    using keeps_trans [OF keeps_trans [OF keeps_trans [OF A(4) W(2)] k3], of "{m}" w'] by simp
  then show ?thesis using keeps_not_live A(1) gone by blast
qed

lemma check_packets_frees:
  assumes "mbuf_laws D V" and "distinct ms" and "\<forall>m \<in> set ms. mbuf_live V w m"
    and "check_packets D ms received w = (received', w')"
  shows "keeps D V (set ms) w w' \<and> (\<forall>m \<in> set ms. \<not> mbuf_live V w' m)"
  using assms(2-)
proof (induction ms arbitrary: received w)
  case (Cons m ms)
  have live: "mbuf_live V w m" using Cons.prems by simp
  note F = mbuf_drop_spec [OF assms(1) live]
  have "m \<noteq> 0" using area_lawsD(1) [OF assms(1) live [unfolded mbuf_live_def]] .
  then obtain rc where run: "check_packets D ms rc (mbuf_drop D m w) = (received', w')"
    using Cons.prems(3) by (simp add: Let_def)
  have "\<forall>x \<in> set ms. mbuf_live V (mbuf_drop D m w) x"
    using Cons.prems(1,2) keepsD(1) [OF F(2)] by (metis distinct.simps(2) list.set_intros(2) singletonD)
  from Cons.IH [OF _ this run] have IH: "keeps D V (set ms) (mbuf_drop D m w) w'" "\<forall>x \<in> set ms. \<not> mbuf_live V w' x"
    using Cons.prems(1) by simp_all
  then have "\<not> mbuf_live V w' m" using keepsD(1) [OF IH(1), of m] F(1) Cons.prems(1) by simp
  then show ?case using keeps_trans [OF F(2) IH(1)] IH(2) by simp
qed simp

lemma receive_conserves:
  assumes laws: "dpdk_laws D V" and "length rx_pkts = 32" and "receive_attempts D n rx_pkts w = (received, w')"
  shows "keeps D V {} w w'"
  using assms(2,3)
proof (induction n arbitrary: rx_pkts w)
  case (Suc n)
  note M = dpdk_lawsD(1) [OF laws]
  obtain nb raw mm d where rx: "eth_rx_burst D 0 0 rx_pkts 32 (mem w) (rte w) = (nb, raw, mm, d)" by (metis prod_cases4)
  let ?w = "w\<lparr>mem := mm, rte := d\<rparr>"
  let ?ms = "take (unat nb) raw"
  note R = rx_burst_lawD [OF dpdk_lawsD(2) [OF laws] _ rx]
  have k: "keeps D V (set ?ms) w ?w"
    by (rule keepsI [OF M]) (use R(5,6) Suc.prems(1) in auto)
  show ?case
  proof (cases "nb > 0")
    case True
    then have run: "check_packets D ?ms False ?w = (received, w')" using Suc.prems(2) rx by (simp add: Let_def)
    have "distinct ?ms" "\<forall>m \<in> set ?ms. mbuf_live V ?w m" "\<forall>m \<in> set ?ms. \<not> mbuf_live V w m"
      using R(3,4) Suc.prems(1) by (auto simp: mbuf_live_def)
    then show ?thesis
      using check_packets_frees [OF M _ _ run] keeps_trans [OF k, of "set ?ms" w'] keeps_not_live [of D V "set ?ms" w w'] by auto
  next
    case False
    then have "keeps D V {} ?w w'" using Suc rx R(2) by (simp add: Let_def)
    moreover have "keeps D V {} w ?w" using k False by (simp add: word_less_nat_alt)
    ultimately show ?thesis using keeps_trans [of D V "{}" w ?w "{}" w'] by simp
  qed
qed simp

text \<open>
  Between the start and the stop of the port, the device test gives back every buffer that it
  allocates or receives, whether the burst takes the frame or not and whatever arrives.
\<close>

theorem eth_test_conserves_buffers:
  assumes "dpdk_laws D V" and "transmit_test_packet D pool w = Ret w1"
    and "\<And>m w1. mbuf_alloc D pool w = (Some m, w1) \<Longrightarrow> 64 \<le> mbuf_tailroom D m w1"
    and "receive_attempts D 10 (replicate 32 null_ptr) w1 = (received, w2)"
  shows "keeps D V {} w w2"
  using keeps_trans [OF transmit_conserves [OF assms(1-3)] receive_conserves [OF assms(1) _ assms(4)]] by simp

subsection \<open>The AF\_XDP experiment\<close>

text \<open>
  \<^verbatim>\<open>archive/xdp-test/src/lib.rs\<close> sends an ARP request from one interface of a pair to the other. The crate
  \<open>xsk-rs\<close> is the record \<open>xsk\<close>: a UMEM and a socket are numbers, a frame descriptor is the number of its
  frame, and a socket comes with its fill and completion queues or without them. \<^verbatim>\<open>archive/xdp-socket-test\<close>
  is one addition.
\<close>

record 'x xsk =
  xk_umem_new :: "nat \<Rightarrow> 'x \<Rightarrow> (nat \<times> nat list, string) Result \<times> 'x"
  xk_socket_new :: "nat \<Rightarrow> string \<Rightarrow> nat \<Rightarrow> 'x \<Rightarrow> (nat \<times> bool, string) Result \<times> 'x"
  xk_fill_produce :: "nat \<Rightarrow> nat list \<Rightarrow> 'x \<Rightarrow> 'x"
  xk_write_all :: "nat \<Rightarrow> nat \<Rightarrow> bytes \<Rightarrow> 'x \<Rightarrow> (unit, string) Result \<times> 'x"
  xk_produce_and_wakeup :: "nat \<Rightarrow> nat list \<Rightarrow> 'x \<Rightarrow> (nat, string) Result \<times> 'x"
  xk_poll_and_consume :: "nat \<Rightarrow> nat list \<Rightarrow> nat \<Rightarrow> 'x \<Rightarrow> (nat \<times> nat list, string) Result \<times> 'x"
  xk_data :: "nat \<Rightarrow> nat \<Rightarrow> 'x \<Rightarrow> bytes"

definition ETHERNET_PACKET :: bytes where
  "ETHERNET_PACKET =
     [0xff, 0xff, 0xff, 0xff, 0xff, 0xff, 0xf6, 0xe0, 0xf6, 0xc9, 0x60, 0x0a, 0x08, 0x06, 0x00, 0x01,
      0x08, 0x00, 0x06, 0x04, 0x00, 0x01, 0xf6, 0xe0, 0xf6, 0xc9, 0x60, 0x0a, 0xc0, 0xa8, 0x45, 0x01,
      0x00, 0x00, 0x00, 0x00, 0x00, 0x00, 0xc0, 0xa8, 0x45, 0xfe]"

definition expect_ok :: "string \<Rightarrow> ('a, string) Result \<times> 'x \<Rightarrow> ('a \<times> 'x) outcome" where
  "expect_ok msg res = (case res of (Ok a, x) \<Rightarrow> Ret (a, x) | (Err e, x) \<Rightarrow> Panic msg)"

definition xdp_test_fn :: "'x xsk \<Rightarrow> 'x \<Rightarrow> 'x outcome" where
  "xdp_test_fn X x =
     bind_outcome (expect_ok ''failed to create UMEM'' (xk_umem_new X 32 x)) (\<lambda>((dev1_umem, dev1_descs), x).
     bind_outcome (expect_ok ''failed to create dev1 socket'' (xk_socket_new X dev1_umem ''xsk_dev1'' 0 x)) (\<lambda>((dev1, has_queues1), x).
     bind_outcome (expect_ok ''failed to create UMEM'' (xk_umem_new X 32 x)) (\<lambda>((dev2_umem, dev2_descs), x).
     bind_outcome (expect_ok ''failed to create dev2 socket'' (xk_socket_new X dev2_umem ''xsk_dev2'' 0 x)) (\<lambda>((dev2, has_queues2), x).
       if \<not> has_queues2 then Panic ''missing dev2 fill queue and comp queue''
       else
         let x = xk_fill_produce X dev2 dev2_descs x in
         if dev1_descs = [] then Panic ''index out of bounds''
         else
           bind_outcome (expect_ok ''failed writing packet to frame''
             (xk_write_all X dev1_umem (hd dev1_descs) ETHERNET_PACKET x)) (\<lambda>(u, x).
           bind_outcome (expect_ok ''called `Result::unwrap()` on an `Err` value''
             (xk_produce_and_wakeup X dev1 (take 1 dev1_descs) x)) (\<lambda>(sent, x).
           bind_outcome (expect_ok ''called `Result::unwrap()` on an `Err` value''
             (xk_poll_and_consume X dev2 dev2_descs 100 x)) (\<lambda>((pkts_recvd, dev2_descs), x).
             if \<exists>desc \<in> set (take pkts_recvd dev2_descs). xk_data X dev2_umem desc x = ETHERNET_PACKET then Ret x
             else Panic ''no matching packets received'')))))))"

text \<open>\<open>left + right\<close> with the overflow check of a test build.\<close>

definition xdp_add :: "u64 \<Rightarrow> u64 \<Rightarrow> u64 outcome" where
  "xdp_add left right =
     (if unat left + unat right < 2 ^ 64 then Ret (left + right) else Panic ''attempt to add with overflow'')"

lemma xdp_add_value: "xdp_add left right = Ret s \<Longrightarrow> unat s = unat left + unat right"
  by (auto simp: xdp_add_def unat_word_ariths split: if_splits)

lemma expect_ok_Ret [simp]: "expect_ok msg res = Ret (a, x) \<longleftrightarrow> res = (Ok a, x)"
  by (auto simp: expect_ok_def split: prod.splits Result.splits)

text \<open>The experiment succeeds only if the frame came back unchanged.\<close>

lemma xdp_test_received:
  assumes "xdp_test_fn X x = Ret x'"
  shows "\<exists>umem desc. xk_data X umem desc x' = ETHERNET_PACKET"
  using assms by (auto simp: xdp_test_fn_def Let_def split: if_splits)

end
