(* ===== verification/Spec2Isabelle.thy ===== *)
theory Spec2Isabelle
  imports Bench_Report Http_Servers Archive_Tests
begin

text \<open>
  A verification of \<^verbatim>\<open>dpdk-net\<close>, an asynchronous TCP/IP library over DPDK, and of the programs of
  \<^verbatim>\<open>dpdk-net-test\<close> and \<^verbatim>\<open>tests\<close> that are built on it. File names below are relative to the repository.

  \<^bold>\<open>The library.\<close> DPDK delivers and takes packets in buffers (\<^verbatim>\<open>mbuf.rs\<close>) that come from memory
  pools (\<^verbatim>\<open>pktmbuf.rs\<close>), through hardware queues (\<^verbatim>\<open>queue.rs\<close>) of an Ethernet port that is
  configured and started first (\<^verbatim>\<open>eal.rs\<close>, \<^verbatim>\<open>eth.rs\<close>, \<^verbatim>\<open>eth_dev_config.rs\<close>). A device
  (\<^verbatim>\<open>dpdk_device.rs\<close>) gives one queue to the TCP/IP stack smoltcp; since ARP replies only arrive
  at queue 0, that device publishes them in a shared cache (\<^verbatim>\<open>arp_cache.rs\<close>) and the devices of
  the other queues inject them into their own receive path. A reactor (\<^verbatim>\<open>reactor.rs\<close>) polls the
  stack in a loop, and sockets (\<^verbatim>\<open>tcp.rs\<close>, \<^verbatim>\<open>udp.rs\<close>, \<^verbatim>\<open>tokio_compat.rs\<close>) are futures over it.

  \<^bold>\<open>The programs.\<close> A runner (\<^verbatim>\<open>dpdk_server_runner.rs\<close>) brings up the port and starts one worker for each
  queue; the workers run an echo server (\<^verbatim>\<open>echo_server.rs\<close>), an HTTP server over hyper
  (\<^verbatim>\<open>http_server.rs\<close>) or one with its own HTTP/1.1 parser (\<^verbatim>\<open>custom_http.rs\<close>). The same services run
  without DPDK on tokio (\<^verbatim>\<open>tokio_server.rs\<close>) and on io\_uring (\<^verbatim>\<open>kimojio_server.rs\<close>). Around them are a
  test harness (\<^verbatim>\<open>dpdk_test.rs\<close>), synchronous echo programs (\<^verbatim>\<open>manual/\<close>), a UDP socket directly on the
  queues (\<^verbatim>\<open>dpdk-net-test/src/udp.rs\<close>), utilities and a packet generator (\<^verbatim>\<open>dpdk-net-test/src/lib.rs\<close>),
  a benchmark with its server and clients (\<^verbatim>\<open>tests/\<close>), and early experiments (\<^verbatim>\<open>archive/\<close>).

  \<^bold>\<open>The theories of the library.\<close>
  \<^item> \<open>Net_Prelude\<close>: machine integers, \<open>Result\<close>, \<open>outcome\<close> (a call that may panic), slices, raw
    memory and text.
  \<^item> \<open>Arp_Cache\<close>: the cache and its frames; the locale \<open>versioned_store\<close> is the contract of the
    devices with the cache.
  \<^item> \<open>Dpdk_Ffi\<close>: the functions of DPDK the code calls, as a record, with what their documentation
    promises as named laws; \<open>Dpdk_Sim\<close>: a concrete DPDK that satisfies the laws, for witnesses.
  \<^item> \<open>Mbuf\<close>: buffers and pools; the locale \<open>packet_store\<close> says who holds which buffer, and that
    operations on one buffer leave the others alone. \<open>Queues\<close>: bursts; the locale \<open>packet_queue\<close>.
  \<^item> \<open>Dpdk_Device\<close>: the device, its batches and tokens, and the invariant \<open>device_inv\<close>.
  \<^item> \<open>Eal\<close>, \<open>Eth\<close>, \<open>Eth_Dev_Config\<close>: initialisation, with the life of the EAL guard as a step
    relation and the device builder refined to a script of calls.
  \<^item> \<open>Smoltcp\<close>: the stack as a record of functions with its documented laws, and an instance.
  \<^item> \<open>Reactor\<close>, \<open>Tcp_Socket\<close>, \<open>Udp_Socket\<close>, \<open>Tokio_Compat\<close>: the definitions of the reactor, the
    sockets and the adapter, over one explicit reactor state.
  \<^item> \<open>Socket_Ownership\<close>: the step relation of everything that creates, uses and drops sockets, and
    the invariant that owners and sockets correspond one to one. \<open>Futures\<close>: the contract of a
    future as a locale, interpreted on all futures of the library. \<open>Reactor_Run\<close>: the turns of the
    reactor loop, and accepting. \<open>Tokio_Session\<close>: the polls of the tokio adapter over the life of a
    connection as a step relation; the locale \<open>exact_poll\<close> says which bytes a poll moves.

  \<^bold>\<open>The theories of the programs.\<close>
  \<^item> \<open>Http_Text\<close>, \<open>Http_Lib\<close>: strings, numbers, and what the code uses of the crates \<open>http\<close> and
    \<open>httparse\<close>; \<open>Http_Parser\<close>: headers and responses, and the locale \<open>http_parser\<close>, in which
    the connection loop is shown to refine a session of requests; \<open>Kimojio_Text\<close>: kimojio's own headers
    and responses, and that they are those of the other server; \<open>Http_Sim\<close>: an instance for witnesses.
    \<open>Custom_Http\<close> and \<open>Kimojio_Http\<close> interpret the locale on the two parsers.
  \<^item> \<open>Echo_Server\<close>: the handler of a connection as a machine of its waiting places, and the accept loop
    that the servers over the reactor share. \<open>Server_Runner\<close>: the runner and its workers.
    \<open>Accept_Loops\<close>: the listeners, loops and threads of the tokio and kimojio servers. \<open>Http_Servers\<close>: the
    HTTP servers of a queue, each the accept loop with the connections that it spawns.
  \<^item> \<open>Manual_Echo\<close>: the synchronous echo server and client. \<open>Raw_Udp\<close>: the UDP socket on the queues.
    \<open>Net_Util\<close>: channels, huge pages, neighbours and the generator. \<open>Discovery\<close>: PCI addresses, IPv4
    addresses and the default gateway from the files of the kernel. \<open>Test_Context\<close>: the harness, the echo
    test over DPDK and the start-up of the generator.
  \<^item> \<open>Raw_Client\<close>: the benchmark client on a plain connection, and the statistics. \<open>Bench\<close>: the client over
    hyper, durations, the benchmark server from its command line to its end, and the locale
    \<open>counting_client\<close> that both clients implement. \<open>Bench_Report\<close>: the client from its arguments to the
    record that it prints.
  \<^item> \<open>Archive_Tests\<close>: the programs of \<^verbatim>\<open>archive/\<close>, over DPDK and over XDP sockets.
  \<^item> This theory: the properties that span components.

  \<^bold>\<open>How code becomes definitions.\<close> State is passed explicitly: \<open>'d world\<close> holds the process memory,
  DPDK's state \<open>'d\<close>, the shared caches and the EAL flag; \<open>('s, 'i, 'v) reactor\<close> holds what
  \<open>ReactorInner\<close> holds. A panic is the value \<open>Panic\<close>, an error the value \<open>Err\<close>. Methods keep their
  name with the type in front (\<open>Mbuf::append\<close> is \<open>mbuf_append\<close>). Integers keep their width where a
  cast or a wrap-around matters; lengths are natural numbers. The drops at the end of a scope are written
  out, in the order in which Rust performs them.

  \<^bold>\<open>Loops.\<close> The bursts, fills and the ingress loop have a measure. An endless loop that waits for the
  outside (the reactor, the accept loops, a client with a time limit) is a run over the list of what it is
  told in its turns. A loop that may not end, in the HTTP parsers, in the client that waits for a
  response and in the flush of the UDP socket, is a partial function whose value is \<open>None\<close> when it does not
  return; that it returns, or exactly when it does, is proved. No loop needs fuel.

  \<^bold>\<open>What is shown.\<close> Buffers are conserved and every one has a single holder, from the hardware
  queues to the tokens. The ARP cache, its frames and their way from queue 0 to all queues are
  correct. No future loses a wake-up, sends deliver each byte once and in order, and they complete
  when there is room; over a whole session of the tokio adapter the bytes read and written are exactly
  those of the socket. Sockets neither leak nor dangle, and no operation on a live object panics.
  The reactor does bounded work per turn and removes finished orphans. The device is configured by
  the intended calls in the intended order, and flows are spread evenly over the queues. The HTTP servers
  answer the requests that the bytes of a connection encode, however they are cut into segments, and
  return on every finite input; a server answers each of its connections so, whatever the others send. The
  benchmark client agrees with them on where a response ends. The echo
  servers return what they receive. The workers cover the queues or the cores, and the benchmark server
  releases port, pool and EAL in order. What the kernel prints of gateways, neighbours and devices is read
  back. Some theorems state defects of the code, such as a receive token that can panic, an injection
  that can starve a queue, an empty send that never completes, an initialisation that locks itself out,
  pipelined requests that are lost, a flush that does not return, malformed frames, a descriptor that is
  closed twice, and a memory pool that is freed under a running port.

  \<^bold>\<open>What is not modelled.\<close> DPDK, smoltcp, tokio, hyper, httparse, kimojio, nix and the operating system are
  parameters. The memory model of the atomics is not modelled: cache operations are atomic and in program
  order, which the single writer of the cache makes adequate for its map. Threads that share no more than
  a port number are modelled one by one; what the workers of the runner do together is a parameter.
  \<open>RefCell\<close> borrows are not tracked: each borrow ends within the call that takes it. Logging has no model,
  nor has the parsing of command lines by clap. The arithmetic of \<open>f64\<close> in the report of the benchmark
  client and the formatting of the report are parameters: which operation is applied to which number is
  modelled, not its result. The bindings generated from DPDK's headers, the unit and integration tests and
  the example programs are left out.
\<close>

section \<open>Properties that span components\<close>

lemma announced_length: "length (announced D w ms) \<le> length ms"
  by (induction ms) (auto split: option.splits)

text \<open>
  A device that shares a cache with queue 0, and the buffers of both: when queue 0 has polled,
  the other device still owns its buffers.
\<close>

lemma device_inv_swap:
  assumes "device_inv V (rx_batch devN @ tx_batch devN @ others) dev0 w"
    and "length (rx_batch devN) \<le> rx_batch_capacity" and "length (tx_batch devN) \<le> tx_batch_capacity"
  shows "device_inv V (rx_batch dev0 @ tx_batch dev0 @ others) devN w"
  using assms
  by (auto simp: device_inv_def elim: held_mset [THEN iffD1, rotated])

lemma learn_version: "cache_version (learn ps c) = cache_version c + of_nat (length ps)"
  using arp_store.version_inserts [of ps c] by (simp add: learn_def)

lemma learn_snapshot:
  "arp_cache_wf c \<Longrightarrow> map_of (rev ps) ip = Some mac \<Longrightarrow> (ip, mac) \<in> set (arp_cache_snapshot (learn ps c))"
  using arp_store.snapshot_inserts [of c ip mac ps] by (simp add: learn_def)

lemma learn_moves_version:
  assumes "ps \<noteq> []" and "length ps \<le> 64"
  shows "cache_version (learn ps c) \<noteq> cache_version c"
  using arp_store.version_detects [of ps c] assms by (auto simp: learn_def)

text \<open>
  (C4) An ARP reply that queue 0 receives reaches every queue. Queue 0 polls and receives a batch
  of frames; a device of another queue that shares the cache and was up to date polls the cache.
  If the batch announced nothing, its device does not change. Otherwise, once it records the
  cache's version again, its receive batch holds for every address the batch announced a frame
  that announces the hardware address announced last. No other buffer of either device is lost
  on the way.
\<close>

theorem arp_reply_reaches_every_queue:
  assumes "dpdk_laws D V" and "\<And>es. mset (iter es) = mset es"
    and "device_inv V (rx_batch devN @ tx_batch devN @ others) dev0 w"
    and "length (rx_batch devN) \<le> rx_batch_capacity" and "length (tx_batch devN) \<le> tx_batch_capacity"
    and "dev_queue_id dev0 = 0" and "shared_arp_cache dev0 = Some cache" and "rx_batch dev0 = []"
    and "dev_queue_id devN \<noteq> 0" and "shared_arp_cache devN = Some cache"
    and "our_mac devN = Some mac" and "our_ip devN = Some ip"
    and "arp_cache_wf (caches w cache)" and "last_cache_version devN = cache_version (caches w cache)"
  shows "\<exists>dev0' w1 devN' w2.
    poll_rx D dev0 w = Ret (dev0', w1) \<and> inject_from_shared_cache D iter devN w1 = (devN', w2) \<and>
    device_inv V (rx_batch dev0' @ tx_batch dev0' @ others) devN' w2 \<and>
    (announced D w1 (rx_batch dev0') = [] \<longrightarrow> devN' = devN) \<and>
    (last_cache_version devN' = cache_version (caches w2 cache) \<longrightarrow>
      (\<forall>peer_ip peer_mac. map_of (rev (announced D w1 (rx_batch dev0'))) peer_ip = Some peer_mac \<longrightarrow>
        (\<exists>m \<in> set (rx_batch devN'). parse_arp_reply (mbuf_data D m w2) = Some (peer_ip, peer_mac))))"
proof -
  obtain n new w1 where p: "poll_rx D dev0 w = Ret (dev0\<lparr>tx_batch := drop n (tx_batch dev0), rx_batch := rx_batch dev0 @ new\<rparr>, w1)"
      "device_inv V (rx_batch devN @ tx_batch devN @ others) (dev0\<lparr>tx_batch := drop n (tx_batch dev0), rx_batch := rx_batch dev0 @ new\<rparr>) w1"
      and c: "caches w1 = (caches w)(cache := learn (announced D w1 new) (caches w cache))"
    by (rule poll_rx_inv [OF assms(1,3)]) (use assms(6-8) in \<open>auto simp: publishes_def\<close>)
  let ?d = "dev0\<lparr>tx_batch := drop n (tx_batch dev0), rx_batch := rx_batch dev0 @ new\<rparr>"
  let ?ps = "announced D w1 new"
  have inv: "device_inv V (rx_batch ?d @ tx_batch ?d @ others) devN w1"
    by (rule device_inv_swap [OF p(2) assms(4,5)])
  have "length new \<le> 64" using p(2) assms(8) by (simp add: device_inv_def rx_batch_capacity_def)
  then have len: "length ?ps \<le> 64" using announced_length [of D w1 new] by linarith
  have cw: "caches w1 cache = learn ?ps (caches w cache)" using c by simp
  obtain arps v w2 where i:
    "inject_from_shared_cache D iter devN w1 = (devN\<lparr>rx_batch := rx_batch devN @ arps, last_cache_version := v\<rparr>, w2)"
    "device_inv V (rx_batch ?d @ tx_batch ?d @ others) (devN\<lparr>rx_batch := rx_batch devN @ arps, last_cache_version := v\<rparr>) w2"
    "caches w2 = caches w1"
    and cc: "if cache_version (caches w1 cache) = last_cache_version devN
        then arps = [] \<and> v = last_cache_version devN
        else map (\<lambda>m. mbuf_data D m w2) arps = arp_frames mac ip (take (length arps) (iter (arp_cache_snapshot (caches w1 cache)))) \<and>
             length arps \<le> length (iter (arp_cache_snapshot (caches w1 cache))) \<and>
             v = (if length arps = length (iter (arp_cache_snapshot (caches w1 cache)))
                  then cache_version (caches w1 cache) else last_cache_version devN)"
    by (rule inject_inv [OF dpdk_lawsD(1) [OF assms(1)] inv, of iter]) (use assms(9-12) in blast)
  let ?e = "devN\<lparr>rx_batch := rx_batch devN @ arps, last_cache_version := v\<rparr>"
  have none: "?e = devN" if "?ps = []" using that cc cw assms(14) by simp
  have all: "\<exists>m \<in> set (rx_batch ?e). parse_arp_reply (mbuf_data D m w2) = Some (pip, pmac)"
    if v: "v = cache_version (caches w2 cache)" and pp: "map_of (rev ?ps) pip = Some pmac" for pip pmac
  proof -
    have "?ps \<noteq> []" using pp by auto
    then have ver: "cache_version (caches w1 cache) \<noteq> last_cache_version devN"
      using learn_moves_version [OF _ len, of "caches w cache"] cw assms(14) by simp
    have full: "map (\<lambda>m. mbuf_data D m w2) arps = arp_frames mac ip (iter (arp_cache_snapshot (caches w1 cache)))"
      using cc ver v i(3) by (auto split: if_splits)
    have "(pip, pmac) \<in> set (iter (arp_cache_snapshot (caches w1 cache)))"
      using learn_snapshot [OF assms(13) pp] cw assms(2) by (metis set_mset_mset)
    then have "build_arp_reply_for_injection mac ip pmac pip \<in> set (map (\<lambda>m. mbuf_data D m w2) arps)"
      unfolding full by (force simp: arp_frames_def)
    then obtain m where "m \<in> set arps" "mbuf_data D m w2 = build_arp_reply_for_injection mac ip pmac pip" by auto
    then show ?thesis by (intro bexI [of _ m]) (simp_all add: parse_arp_reply_build)
  qed
  show ?thesis
    using p(1) i none all assms(8) by (intro exI [of _ ?d] exI [of _ w1] exI [of _ ?e] exI [of _ w2]) simp
qed

text \<open>Queue 0 and queue 1 of a port, with one ARP reply waiting in the hardware queue.\<close>

definition sim_queue0 :: DpdkDevice where
  "sim_queue0 = with_shared_arp_cache 0 0 (Mac 9 9 9 9 9 9) (Ipv4 10 0 0 9) sim_device"

definition sim_reply_world :: "sim world" where
  "sim_reply_world = (sim_world [100, 101] [build_arp_reply_for_injection (Mac 9 9 9 9 9 9) (Ipv4 10 0 0 9) (Mac 1 1 1 1 1 1) (Ipv4 10 0 0 1)] 0)
     \<lparr>caches := \<lambda>_. arp_cache_new\<rparr>"

theorem arp_reply_reaches_every_queue_witness:
  "\<exists>dev0' w1 devN' w2. poll_rx sim_dpdk sim_queue0 sim_reply_world = Ret (dev0', w1) \<and>
    inject_from_shared_cache sim_dpdk id (sim_arp_device []) w1 = (devN', w2) \<and>
    device_inv sim_view (rx_batch dev0' @ tx_batch dev0' @ []) devN' w2"
proof -
  have 1: "device_inv sim_view (rx_batch (sim_arp_device []) @ tx_batch (sim_arp_device []) @ []) sim_queue0 sim_reply_world"
    by (simp add: sim_queue0_def sim_arp_device_def with_shared_arp_cache_def sim_device_def device_inv_def held_def)
  have 2: "length (rx_batch (sim_arp_device [])) \<le> rx_batch_capacity" "length (tx_batch (sim_arp_device [])) \<le> tx_batch_capacity"
    "dev_queue_id sim_queue0 = 0" "shared_arp_cache sim_queue0 = Some 0" "rx_batch sim_queue0 = []"
    "dev_queue_id (sim_arp_device []) \<noteq> 0" "shared_arp_cache (sim_arp_device []) = Some 0"
    "our_mac (sim_arp_device []) = Some (Mac 9 9 9 9 9 9)" "our_ip (sim_arp_device []) = Some (Ipv4 10 0 0 9)"
    "arp_cache_wf (caches sim_reply_world 0)" "last_cache_version (sim_arp_device []) = cache_version (caches sim_reply_world 0)"
    by (simp_all add: sim_queue0_def sim_arp_device_def with_shared_arp_cache_def sim_device_def sim_reply_world_def)
      (simp add: arp_cache_new_def)
  from arp_reply_reaches_every_queue [OF sim_dpdk_laws _ 1 2, of id] show ?thesis by auto
qed

end
